theory Spec2Isabelle
  imports Complex_Main "HOL-Library.Log_Nat" "HOL-Library.Sublist" "HOL-Library.Multiset"
    "HOL-Library.AList" "HOL-Library.List_Lexorder"
begin

section \<open>Python values\<close>

text \<open>
  A Python \<open>str\<close> is the list of its Unicode code points. \<open>cps\<close> turns an ASCII
  literal into such a list; the non-ASCII literals of the source are written as code points.
\<close>

type_synonym ustring = "nat list"

definition cps :: "string \<Rightarrow> ustring" where
  "cps s = map of_char s"

text \<open>
  Python numbers: \<open>int\<close> is unbounded, \<open>float\<close> is an IEEE-754 binary64 value, kept
  here as the rational it denotes (or an infinity, or NaN).
\<close>

datatype pyfloat = Finite rat | PosInf | NegInf | NaN

datatype pynum = PInt int | PFloat pyfloat

datatype error =
    ConnectionError
  | JSONDecodeError
  | ValueError
  | TypeError
  | AttributeError
  | ZeroDivisionError
  | OverflowError
  | HTTPError int
  | APIError
  | InvalidJSONResponse
  | QuotaFull

subsection \<open>Rounding to binary64\<close>

text \<open>
  \<open>round_half_even x d\<close> is the integer nearest to \<open>x / d\<close>, ties to even.
  \<open>floor_log2_quot a b\<close> is \<open>\<lfloor>log\<^sub>2 (a / b)\<rfloor>\<close> for positive \<open>a\<close> and \<open>b\<close>.
  \<open>nearest_double a b\<close> is the binary64 value nearest to \<open>a / b\<close> (53-bit significand,
  exponents down to the subnormal range), or \<open>None\<close> when that value is beyond the largest
  finite double. Both \<open>float(str)\<close> and \<open>int / int\<close> round correctly in CPython.
\<close>

definition round_half_even :: "nat \<Rightarrow> nat \<Rightarrow> nat" where
  "round_half_even x d =
     (let f = x div d; r = x mod d
      in if 2 * r < d then f else if d < 2 * r then f + 1 else if even f then f else f + 1)"

definition floor_log2_quot :: "nat \<Rightarrow> nat \<Rightarrow> int" where
  "floor_log2_quot a b =
     (let k = int (floorlog 2 a) - int (floorlog 2 b)
      in if (if 0 \<le> k then b * 2 ^ nat k \<le> a else b \<le> a * 2 ^ nat (- k)) then k else k - 1)"

definition nearest_double :: "nat \<Rightarrow> nat \<Rightarrow> rat option" where
  "nearest_double a b =
     (if a = 0 then Some 0
      else let e = max (floor_log2_quot a b - 52) (- 1074);
               m = (if 0 \<le> e then round_half_even a (b * 2 ^ nat e)
                    else round_half_even (a * 2 ^ nat (- e)) b)
           in if 0 \<le> e \<and> 2 ^ 1024 \<le> m * 2 ^ nat e then None
              else Some (if 0 \<le> e then of_nat (m * 2 ^ nat e) else of_nat m / 2 ^ nat (- e)))"

text \<open>\<open>a / b\<close> on two ints (true division).\<close>

definition py_truediv :: "int \<Rightarrow> int \<Rightarrow> error + pyfloat" where
  "py_truediv a b =
     (if b = 0 then Inl ZeroDivisionError
      else case nearest_double (nat \<bar>a\<bar>) (nat \<bar>b\<bar>) of
             None \<Rightarrow> Inl OverflowError
           | Some q \<Rightarrow> Inr (Finite (if (a < 0) = (b < 0) then q else - q)))"

text \<open>\<open>int(x)\<close> on a float truncates towards zero.\<close>

definition py_int_of_float :: "pyfloat \<Rightarrow> error + int" where
  "py_int_of_float x =
     (case x of
        Finite q \<Rightarrow> Inr (if 0 \<le> q then \<lfloor>q\<rfloor> else \<lceil>q\<rceil>)
      | PosInf \<Rightarrow> Inl OverflowError
      | NegInf \<Rightarrow> Inl OverflowError
      | NaN \<Rightarrow> Inl ValueError)"

definition is_integer :: "pyfloat \<Rightarrow> bool" where
  "is_integer x = (case x of Finite q \<Rightarrow> q = of_int \<lfloor>q\<rfloor> | _ \<Rightarrow> False)"

text \<open>Comparison of Python numbers; ints and floats compare by value, NaN with nothing.\<close>

fun float_le :: "pyfloat \<Rightarrow> pyfloat \<Rightarrow> bool" where
  "float_le NaN _ = False"
| "float_le _ NaN = False"
| "float_le NegInf _ = True"
| "float_le _ PosInf = True"
| "float_le (Finite p) (Finite q) = (p \<le> q)"
| "float_le _ _ = False"

definition as_float :: "pynum \<Rightarrow> pyfloat" where
  "as_float n = (case n of PInt i \<Rightarrow> Finite (of_int i) | PFloat f \<Rightarrow> f)"

definition num_le :: "pynum \<Rightarrow> pynum \<Rightarrow> bool" where
  "num_le a b = float_le (as_float a) (as_float b)"

definition num_lt :: "pynum \<Rightarrow> pynum \<Rightarrow> bool" where
  "num_lt a b = (num_le a b \<and> \<not> num_le b a)"

section \<open>Library functions taken as parameters\<close>

text \<open>
  The value \<open>json.loads\<close> returns: \<open>null\<close>, a bool, a number, a string, a list or a dict
  (its items in order, keys distinct).
\<close>

datatype json =
    JNull
  | JBool bool
  | JNum pynum
  | JStr ustring
  | JArr "json list"
  | JObj "(ustring \<times> json) list"

text \<open>
  What the program takes from the Python library and the Unicode database, none of it
  under \<open>src/\<close>:
  \<^item> \<open>is_space\<close>: the code points the regex class \<open>\s\<close> matches;
  \<^item> \<open>digit_value\<close>: the decimal digits (regex class \<open>\d\<close>) with the value \<open>float\<close> gives them;
  \<^item> \<open>caseless_eq\<close>: equality of two code points under \<open>re.IGNORECASE\<close>;
  \<^item> \<open>json_loads\<close>: \<open>json.loads\<close>, \<open>None\<close> when it raises;
  \<^item> \<open>playlist_query\<close>: \<open>parse_qs(urlparse(url).query)['list'][0]\<close>, \<open>None\<close> when the key
    is absent or the call raises;
  \<^item> \<open>py_int\<close>: \<open>int\<close> on a string, \<open>None\<close> when it raises \<open>ValueError\<close>.
\<close>

record library =
  is_space :: "nat \<Rightarrow> bool"
  digit_value :: "nat \<Rightarrow> nat option"
  caseless_eq :: "nat \<Rightarrow> nat \<Rightarrow> bool"
  json_loads :: "ustring \<Rightarrow> json option"
  playlist_query :: "ustring \<Rightarrow> ustring option"
  py_int :: "ustring \<Rightarrow> int option"

section \<open>Regular expressions as \<open>re.search\<close> runs them\<close>

text \<open>
  The patterns of \<open>parse_episode_number\<close> use literals, the classes \<open>\s\<close> and \<open>\d\<close>, a
  bracket set, \<open>*\<close> and \<open>+\<close> on a class, \<open>?\<close> and one capturing group. The matcher
  backtracks as \<open>re\<close> does: a greedy repetition tries the longest run first, an option tries
  its body first, and the continuation \<open>k\<close> is the rest of the pattern.
\<close>

datatype cls = Chr nat | Space | Digit | OneOf "nat list"

datatype regex =
    Atom cls
  | Star cls
  | Plus cls
  | Opt regex
  | Seq regex regex
  | Group regex

fun cls_match :: "library \<Rightarrow> cls \<Rightarrow> nat \<Rightarrow> bool" where
  "cls_match L (Chr c) x = caseless_eq L c x"
| "cls_match L Space x = is_space L x"
| "cls_match L Digit x = (digit_value L x \<noteq> None)"
| "cls_match L (OneOf cs) x = list_ex (\<lambda>c. caseless_eq L c x) cs"

fun star :: "(nat \<Rightarrow> bool) \<Rightarrow> ustring \<Rightarrow> (ustring \<Rightarrow> 'a option) \<Rightarrow> 'a option" where
  "star p [] k = k []"
| "star p (c # cs) k =
     (if p c then (case star p cs k of Some r \<Rightarrow> Some r | None \<Rightarrow> k (c # cs))
      else k (c # cs))"

fun rmatch :: "library \<Rightarrow> regex \<Rightarrow> ustring \<Rightarrow> ustring option \<Rightarrow>
    (ustring \<Rightarrow> ustring option \<Rightarrow> 'a option) \<Rightarrow> 'a option" where
  "rmatch L (Atom c) s g k =
     (case s of [] \<Rightarrow> None | x # xs \<Rightarrow> if cls_match L c x then k xs g else None)"
| "rmatch L (Star c) s g k = star (cls_match L c) s (\<lambda>s'. k s' g)"
| "rmatch L (Plus c) s g k =
     (case s of [] \<Rightarrow> None
      | x # xs \<Rightarrow> if cls_match L c x then star (cls_match L c) xs (\<lambda>s'. k s' g) else None)"
| "rmatch L (Opt r) s g k =
     (case rmatch L r s g k of Some res \<Rightarrow> Some res | None \<Rightarrow> k s g)"
| "rmatch L (Seq r1 r2) s g k = rmatch L r1 s g (\<lambda>s' g'. rmatch L r2 s' g' k)"
| "rmatch L (Group r) s g k =
     rmatch L r s g (\<lambda>s' g'. k s' (Some (take (length s - length s') s)))"

text \<open>
  \<open>re.search\<close>: the leftmost start position at which the pattern matches. The result is
  \<open>None\<close> without a match, else \<open>match.group(1)\<close> (itself \<open>None\<close> when the group took no
  part).
\<close>

fun search :: "library \<Rightarrow> regex \<Rightarrow> ustring \<Rightarrow> ustring option option" where
  "search L r [] = rmatch L r [] None (\<lambda>s' g. Some g)"
| "search L r (c # cs) =
     (case rmatch L r (c # cs) None (\<lambda>s' g. Some g) of
        Some g \<Rightarrow> Some g
      | None \<Rightarrow> search L r cs)"

section \<open>\<open>parse_episode_number\<close>\<close>

definition lit :: "ustring \<Rightarrow> regex \<Rightarrow> regex" where
  "lit cs r = foldr (\<lambda>c acc. Seq (Atom (Chr c)) acc) cs r"

text \<open>The capturing group \<^verbatim>\<open>(\d+(?:\.\d+)?)\<close>; 46 is the full stop.\<close>

definition number_body :: regex where
  "number_body = Seq (Plus Digit) (Opt (Seq (Atom (Chr 46)) (Plus Digit)))"

definition number :: regex where
  "number = Group number_body"

text \<open>\<^verbatim>\<open>\s*[\.]?\s*\<close> followed by the number.\<close>

definition dot_number :: regex where
  "dot_number = Seq (Star Space) (Seq (Opt (Atom (OneOf [46]))) (Seq (Star Space) number))"

text \<open>
  The list \<open>patterns\<close> of the source, in its order: Chinese, English, Thai, Vietnamese,
  Indonesian, Malay, and the abbreviation \<open>EP\<close>.
\<close>

definition patterns :: "regex list" where
  "patterns =
     [lit [0x7B2C] (Seq (Star Space) (Seq number (Seq (Star Space) (Atom (OneOf [0x96C6, 0x8A71]))))),
      lit (cps ''Episode'') dot_number,
      lit [0x0E15, 0x0E2D, 0x0E19, 0x0E17, 0x0E35, 0x0E48] (Seq (Star Space) number),
      lit [0x54, 0x1EAD, 0x70] (Seq (Star Space) number),
      lit (cps ''Misi'') (Seq (Star Space) number),
      lit (cps ''Episod'') dot_number,
      lit (cps ''EP'') dot_number]"

text \<open>
  \<open>float(num_str)\<close> on a string of the shape \<open>digits\<close> or \<open>digits.digits\<close>, which is the
  language of the capturing group; \<open>None\<close> stands for \<open>ValueError\<close>. The value is the double
  nearest to the decimal, \<open>inf\<close> beyond the largest double.
\<close>

fun decimal_digits :: "library \<Rightarrow> ustring \<Rightarrow> nat list option" where
  "decimal_digits L [] = Some []"
| "decimal_digits L (c # cs) =
     (case digit_value L c of
        None \<Rightarrow> None
      | Some d \<Rightarrow> map_option ((#) d) (decimal_digits L cs))"

definition digits_nat :: "nat list \<Rightarrow> nat" where
  "digits_nat ds = foldl (\<lambda>acc d. 10 * acc + d) 0 ds"

definition py_float_decimal :: "library \<Rightarrow> ustring \<Rightarrow> pyfloat option" where
  "py_float_decimal L txt =
     (let ip = takeWhile (\<lambda>c. c \<noteq> 46) txt;
          rest = dropWhile (\<lambda>c. c \<noteq> 46) txt;
          fp = (if rest = [] then [] else tl rest)
      in if ip = [] \<or> (rest \<noteq> [] \<and> fp = []) then None
         else case decimal_digits L ip of
                None \<Rightarrow> None
              | Some i \<Rightarrow>
                  (case decimal_digits L fp of
                     None \<Rightarrow> None
                   | Some f \<Rightarrow>
                       Some (case nearest_double (digits_nat (i @ f)) (10 ^ length f) of
                               None \<Rightarrow> PosInf
                             | Some q \<Rightarrow> Finite q)))"

text \<open>
  The body of the \<open>try\<close>: \<open>float\<close> of the group, then \<open>int(num)\<close> when \<open>num.is_integer()\<close>.
  \<open>None\<close> is any exception, which the bare \<open>except\<close> turns into \<open>continue\<close>.
\<close>

definition convert_group :: "library \<Rightarrow> ustring option \<Rightarrow> pynum option" where
  "convert_group L g =
     (case g of
        None \<Rightarrow> None
      | Some num_str \<Rightarrow>
          (case py_float_decimal L num_str of
             None \<Rightarrow> None
           | Some num \<Rightarrow>
               if is_integer num
               then (case py_int_of_float num of Inl e \<Rightarrow> None | Inr i \<Rightarrow> Some (PInt i))
               else Some (PFloat num)))"

fun try_patterns :: "library \<Rightarrow> regex list \<Rightarrow> ustring \<Rightarrow> pynum option" where
  "try_patterns L [] title = None"
| "try_patterns L (pattern # rest) title =
     (case search L pattern title of
        None \<Rightarrow> try_patterns L rest title
      | Some g \<Rightarrow>
          (case convert_group L g of
             None \<Rightarrow> try_patterns L rest title
           | Some n \<Rightarrow> Some n))"

definition parse_episode_number :: "library \<Rightarrow> ustring \<Rightarrow> pynum option" where
  "parse_episode_number L title = try_patterns L patterns title"


subsection \<open>The language of a pattern\<close>

text \<open>
  The strings a pattern can consume, and two shapes of pattern: without a group, and a
  sequence that holds the number group once, between parts without a group. They serve to
  state what the group of a match can hold.
\<close>

fun lang :: "library \<Rightarrow> regex \<Rightarrow> ustring set" where
  "lang L (Atom c) = {[x] | x. cls_match L c x}"
| "lang L (Star c) = {xs. \<forall>x \<in> set xs. cls_match L c x}"
| "lang L (Plus c) = {xs. xs \<noteq> [] \<and> (\<forall>x \<in> set xs. cls_match L c x)}"
| "lang L (Opt r) = insert [] (lang L r)"
| "lang L (Seq r1 r2) = {a @ b | a b. a \<in> lang L r1 \<and> b \<in> lang L r2}"
| "lang L (Group r) = lang L r"



section \<open>Title filter\<close>

text \<open>
  \<open>ignore_keywords\<close> and \<open>ignore_keywords_exceptions\<close> as \<open>__init__\<close> sets them. The keyword
  of 25 code points is \<open>Chia s\<dots> c\<dots>a DV l\<dots>ng ti\<dots>ng\<close> with its Vietnamese letters;
  the exception registered for \<open>CM\<close> is \<open>testCM\<close> followed by four CJK characters.
\<close>

definition ignore_keywords :: "ustring list" where
  "ignore_keywords =
     [[38928, 21578],
      cps ''PV'',
      cps ''NCED'',
      cps ''NCOP'',
      cps ''OP'',
      cps ''ED'',
      cps ''Creditless'',
      cps ''Trailer'',
      cps ''Teaser'',
      cps ''Recap'',
      cps ''Special'',
      [29305, 21029, 31687],
      [32317, 38598, 31687],
      [20840, 38598, 39340, 25289, 26494],
      cps ''Semua Episode'',
      [67, 104, 105, 97, 32, 115, 7867, 32, 99, 7911, 97, 32, 68, 86, 32, 108, 7891, 110, 103, 32, 116, 105, 7871, 110, 103],
      cps ''CM'',
      [31532, 20108, 23395, 35069, 20316, 27770, 23450],
      [31934, 33775, 37325, 28331],
      cps ''Preview'']"

definition ignore_keywords_exceptions :: "(ustring \<times> ustring list) list" where
  "ignore_keywords_exceptions = [(cps ''CM'', [cps ''testCM'' @ [21205, 30059, 21517, 31281]])]"

text \<open>
  The loop of \<open>is_ignored_keyword\<close>; \<open>kw in title\<close> on strings is the substring test.
\<close>

fun ignored_loop :: "(ustring \<times> ustring list) list \<Rightarrow> ustring list \<Rightarrow> ustring \<Rightarrow> bool" where
  "ignored_loop excs [] title = False"
| "ignored_loop excs (kw # kws) title =
     (if (case map_of excs kw of
            None \<Rightarrow> False
          | Some exceptions \<Rightarrow> list_ex (\<lambda>exc. sublist exc title) exceptions)
      then ignored_loop excs kws title
      else if sublist kw title then True
      else ignored_loop excs kws title)"

definition is_ignored_keyword :: "ustring \<Rightarrow> bool" where
  "is_ignored_keyword title = ignored_loop ignore_keywords_exceptions ignore_keywords title"

text \<open>Truth value of a decoded JSON value, as \<open>if offset_range\<close> takes it.\<close>

fun json_truthy :: "json \<Rightarrow> bool" where
  "json_truthy JNull = False"
| "json_truthy (JBool b) = b"
| "json_truthy (JNum (PInt i)) = (i \<noteq> 0)"
| "json_truthy (JNum (PFloat (Finite q))) = (q \<noteq> 0)"
| "json_truthy (JNum (PFloat _)) = True"
| "json_truthy (JStr s) = (s \<noteq> [])"
| "json_truthy (JArr xs) = (xs \<noteq> [])"
| "json_truthy (JObj kvs) = (kvs \<noteq> [])"

text \<open>
  \<open>start, end = offset_range\<close>: a list, a string or a dict of exactly two items unpacks
  (a string into its characters, a dict into its keys); anything else raises.
\<close>

fun unpack_pair :: "json \<Rightarrow> (json \<times> json) option" where
  "unpack_pair (JArr [a, b]) = Some (a, b)"
| "unpack_pair (JStr [a, b]) = Some (JStr [a], JStr [b])"
| "unpack_pair (JObj [(a, _), (b, _)]) = Some (JStr a, JStr b)"
| "unpack_pair _ = None"

text \<open>
  A JSON value as an operand of \<open><=\<close> against a number: numbers and bools compare, any
  other operand raises \<open>TypeError\<close> (\<open>None\<close> here).
\<close>

fun json_num :: "json \<Rightarrow> pynum option" where
  "json_num (JNum n) = Some n"
| "json_num (JBool b) = Some (PInt (if b then 1 else 0))"
| "json_num _ = None"

text \<open>
  \<open>is_in_offset(title, offset_range, offset_string)\<close>. \<open>JNull\<close> is Python's \<open>None\<close>, the
  default of \<open>offset_range\<close>. Every exception of the \<open>try\<close> block gives \<open>False\<close>.
\<close>

definition is_in_offset :: "library \<Rightarrow> ustring \<Rightarrow> json \<Rightarrow> ustring option \<Rightarrow> bool" where
  "is_in_offset L title offset_range offset_string =
     (if (case offset_string of None \<Rightarrow> False | Some s \<Rightarrow> \<not> sublist s title) then False
      else if offset_range = JNull then True
      else case parse_episode_number L title of
             None \<Rightarrow> False
           | Some ep_idx \<Rightarrow>
               (case unpack_pair offset_range of
                  None \<Rightarrow> False
                | Some (start, end) \<Rightarrow>
                    (case json_num start of
                       None \<Rightarrow> False
                     | Some a \<Rightarrow>
                         if \<not> num_le a ep_idx then False
                         else (case json_num end of
                                 None \<Rightarrow> False
                               | Some b \<Rightarrow> num_le ep_idx b))))"

text \<open>
  The start of \<open>process_anime\<close>: the pair \<open>(offset_range, offset_string)\<close> it derives from
  the \<open>offset\<close> cell.
\<close>

definition offset_spec :: "library \<Rightarrow> ustring option \<Rightarrow> json \<times> ustring option" where
  "offset_spec L offset_str =
     (case offset_str of
        None \<Rightarrow> (JNull, None)
      | Some s \<Rightarrow>
          if s = [] then (JNull, None)
          else (case json_loads L s of
                  Some v \<Rightarrow> (v, None)
                | None \<Rightarrow> (JNull, Some s)))"

text \<open>The body of the filtering loop of \<open>process_anime\<close>: does the item reach \<open>valid_videos\<close>?\<close>

definition keeps_title :: "library \<Rightarrow> json \<Rightarrow> ustring option \<Rightarrow> ustring \<Rightarrow> bool" where
  "keeps_title L offset_range offset_string title =
     (if is_ignored_keyword title then False
      else if json_truthy offset_range \<and> \<not> is_in_offset L title offset_range None then False
      else if (case offset_string of None \<Rightarrow> False | Some s \<Rightarrow> s \<noteq> [])
              \<and> \<not> is_in_offset L title JNull offset_string then False
      else True)"

section \<open>The network and the processor's state\<close>

text \<open>
  What \<open>requests.get\<close> or \<open>requests.post\<close> gives: \<open>NoResponse\<close> when the call itself raises,
  else the status code and the body, decoded to the fields the program reads; the body is
  \<open>None\<close> when it is not JSON, so that \<open>res.json()\<close> raises.
\<close>

datatype 'doc response = NoResponse | Response int "'doc option"

text \<open>
  A page of \<open>playlistItems\<close>: the reasons under \<open>error.errors\<close>, the items (the title of the
  snippet, \<open>''\<close> by default, and \<open>snippet.resourceId.videoId\<close>) and \<open>nextPageToken\<close>.
\<close>

datatype playlist_entry = PlaylistEntry (snippet_title: ustring) (snippet_video_id: "ustring option")

datatype playlist_doc =
  PlaylistDoc (playlist_reasons: "ustring list") (playlist_entries: "playlist_entry list")
    (doc_next_page_token: "ustring option")

text \<open>
  An item of \<open>videos\<close>: its id, \<open>liveStreamingDetails.scheduledStartTime\<close> and
  \<open>statistics.viewCount\<close> (a string in the API). The start time is absent (or empty), not
  in ISO format (\<open>fromisoformat\<close> raises \<open>ValueError\<close>), a time without zone (comparing it
  with the aware \<open>now_utc\<close> raises \<open>TypeError\<close>), or an instant.
\<close>

datatype premiere = NoSchedule | BadSchedule | NaiveSchedule | ScheduledAt int

datatype video_entry =
  VideoEntry (video_id: ustring) (scheduled_start: premiere) (view_count: "ustring option")

datatype videos_doc = VideosDoc (videos_reasons: "ustring list") (video_entries: "video_entry list")

text \<open>What the program writes into a cell or keeps in a result: \<open>None\<close>, an int or a string.\<close>

datatype pyval = VNone | VInt int | VStr ustring

text \<open>A row of the schedule, as \<open>get_sheet_data\<close> returns it; \<open>''\<close> is an absent cell reference.\<close>

record anime =
  anime_name :: ustring
  name_cell :: ustring
  link_url :: "ustring option"
  offset :: "ustring option"
  rank_cell :: ustring
  avg_view_cell :: ustring
  total_view_cell :: ustring
  first_view_cell :: ustring
  ep_count_cell :: ustring
  comp_rank_cell :: "ustring option"

datatype cell_update = CellUpdate (cell: ustring) (cell_value: pyval)

record row_update =
  row_check_name :: ustring
  target_row :: int
  updates :: "cell_update list"

text \<open>The answer of the spreadsheet script: \<open>status == 'success'\<close> and \<open>data\<close>.\<close>

datatype 'd gas_doc = GasDoc (status_success: bool) (gas_data: "'d option")

type_synonym sheet_data = "(ustring \<times> anime list) list"

text \<open>The schedule: a dictionary from a day key to the names of the sheets of that day.\<close>

type_synonym schedule = "(ustring \<times> ustring list) list"

datatype gas_action =
    GetSchedule
  | GetSheetData ustring
  | UpdateData ustring "row_update list"
  | SortData ustring
  | UpdateTimestamp ustring

text \<open>
  What \<open>main\<close> reports by Telegram: the exception that ended the run, or the one that
  \<open>update_system_time\<close> raised.
\<close>

datatype notice = RunError error | UpdateTimeError error

text \<open>
  The requests of the program: the two of the YouTube API, the post to the spreadsheet
  script (with the \<open>ss_id\<close> of the \<open>AnimeAPI\<close> object), the Telegram message and the
  heartbeat.
\<close>

datatype request =
    PlaylistItemsGet ustring ustring
  | VideosGet "ustring list"
  | GasPost ustring gas_action
  | TelegramPost notice
  | HeartbeatGet

text \<open>
  The outside world answers a request; the first argument is the number of requests sent
  before it, so that the same request may be answered differently later. The script is
  given the \<open>ss_id\<close> next. \<open>now_utc\<close> is the clock; \<open>today_key\<close> is \<open>str(weekday() + 1)\<close> and
  \<open>now_str\<close> the formatted time of the clock in the zone of the sheets.
\<close>

record world =
  playlist_items_api :: "nat \<Rightarrow> ustring \<Rightarrow> ustring \<Rightarrow> playlist_doc response"
  videos_api :: "nat \<Rightarrow> ustring list \<Rightarrow> videos_doc response"
  schedule_api :: "nat \<Rightarrow> ustring \<Rightarrow> schedule gas_doc response"
  sheet_data_api :: "nat \<Rightarrow> ustring \<Rightarrow> ustring \<Rightarrow> sheet_data gas_doc response"
  update_data_api :: "nat \<Rightarrow> ustring \<Rightarrow> ustring \<Rightarrow> row_update list \<Rightarrow> unit gas_doc response"
  sort_data_api :: "nat \<Rightarrow> ustring \<Rightarrow> ustring \<Rightarrow> unit gas_doc response"
  timestamp_api :: "nat \<Rightarrow> ustring \<Rightarrow> ustring \<Rightarrow> unit gas_doc response"
  now_utc :: "nat \<Rightarrow> int"
  today_key :: "nat \<Rightarrow> ustring"
  now_str :: "nat \<Rightarrow> ustring"

text \<open>
  The flag of \<open>YouTubeDataProcessor\<close> and the log of the requests sent so far, each with the
  value that the flag had when the request was sent.
\<close>

record state =
  quota_exceeded :: bool
  sent :: "(bool \<times> request) list"

definition send :: "request \<Rightarrow> state \<Rightarrow> state" where
  "send r st = st\<lparr>sent := sent st @ [(quota_exceeded st, r)]\<rparr>"

text \<open>The fetches from the YouTube API: the playlist requests and the statistics requests.\<close>

definition is_fetch :: "request \<Rightarrow> bool" where
  "is_fetch r = (case r of PlaylistItemsGet playlist_id token \<Rightarrow> True
                         | VideosGet ids \<Rightarrow> True
                         | _ \<Rightarrow> False)"

section \<open>\<open>YouTubeDataProcessor\<close>: fetching\<close>

text \<open>
  \<open>_check_quota\<close> on a response with the given status code and, when its body is JSON, the
  list of error reasons.
\<close>

definition check_quota :: "int \<Rightarrow> ustring list option \<Rightarrow> state \<Rightarrow> bool \<times> state" where
  "check_quota status_code reasons st =
     (if status_code = 403
      then (case reasons of
              None \<Rightarrow> (False, st)
            | Some rs \<Rightarrow>
                if cps ''quotaExceeded'' \<in> set rs \<or> cps ''dailyLimitExceeded'' \<in> set rs
                then (True, st\<lparr>quota_exceeded := True\<rparr>)
                else (False, st))
      else (False, st))"

definition get_playlist_id :: "library \<Rightarrow> ustring option \<Rightarrow> ustring option" where
  "get_playlist_id L url =
     (case url of
        None \<Rightarrow> None
      | Some u \<Rightarrow> if u = [] then None else playlist_query L u)"

text \<open>\<open>get_playlist_items\<close> returns \<open>None\<close>, the string \<open>REMOVED\<close> or a list of items.\<close>

datatype playlist_item = PlaylistItem (item_id: ustring) (item_title: ustring)

datatype playlist_result = QuotaNone | Removed | Items "playlist_item list"

definition items_of_page :: "playlist_entry list \<Rightarrow> playlist_item list" where
  "items_of_page entries =
     List.map_filter
       (\<lambda>e. case snippet_video_id e of
               None \<Rightarrow> None
             | Some vid \<Rightarrow> if vid = [] then None else Some (PlaylistItem vid (snippet_title e)))
       entries"

text \<open>
  One round of the \<open>while True\<close> loop: it ends the call (\<open>Inl\<close>, with an exception or a
  result) or goes on with more items and the next page token (\<open>Inr\<close>).
\<close>

definition playlist_page :: "world \<Rightarrow> ustring \<Rightarrow> state \<Rightarrow> playlist_item list \<Rightarrow> ustring \<Rightarrow>
    ((error + playlist_result) + playlist_item list \<times> ustring) \<times> state" where
  "playlist_page W playlist_id st items next_page_token =
     (let st1 = send (PlaylistItemsGet playlist_id next_page_token) st
      in case playlist_items_api W (length (sent st)) playlist_id next_page_token of
           NoResponse \<Rightarrow> (Inl (Inl ConnectionError), st1)
         | Response code body \<Rightarrow>
             (case check_quota code (map_option playlist_reasons body) st1 of
                (hit, st2) \<Rightarrow>
                  if hit then (Inl (Inr QuotaNone), st2)
                  else if code = 404 then (Inl (Inr Removed), st2)
                  else if code \<noteq> 200 then (Inl (Inr (Items [])), st2)
                  else (case body of
                          None \<Rightarrow> (Inl (Inl JSONDecodeError), st2)
                        | Some doc \<Rightarrow>
                            (let items' = items @ items_of_page (playlist_entries doc)
                             in case doc_next_page_token doc of
                                  None \<Rightarrow> (Inl (Inr (Items items')), st2)
                                | Some t \<Rightarrow>
                                    if t = [] then (Inl (Inr (Items items')), st2)
                                    else (Inr (items', t), st2)))))"

text \<open>The loop may go on for ever, when every page names a next page.\<close>

partial_function (option) playlist_loop :: "world \<Rightarrow> ustring \<Rightarrow> state \<Rightarrow> playlist_item list \<Rightarrow>
    ustring \<Rightarrow> ((error + playlist_result) \<times> state) option" where
  "playlist_loop W playlist_id st items next_page_token =
     (case playlist_page W playlist_id st items next_page_token of
        (Inl outcome, st') \<Rightarrow> Some (outcome, st')
      | (Inr (items', token'), st') \<Rightarrow> playlist_loop W playlist_id st' items' token')"

definition get_playlist_items :: "world \<Rightarrow> ustring \<Rightarrow> state \<Rightarrow>
    ((error + playlist_result) \<times> state) option" where
  "get_playlist_items W playlist_id st =
     (if quota_exceeded st then Some (Inr QuotaNone, st)
      else playlist_loop W playlist_id st [] [])"

text \<open>
  \<open>stats_map\<close>: a video id is absent, or mapped to \<open>None\<close>, or mapped to a view count.
  \<open>stats.get(vid)\<close> gives \<open>None\<close> in the first two cases.
\<close>

type_synonym stats_map = "ustring \<Rightarrow> int option option"

definition stats_get :: "stats_map \<Rightarrow> ustring \<Rightarrow> int option" where
  "stats_get stats vid = (case stats vid of None \<Rightarrow> None | Some views \<Rightarrow> views)"

text \<open>The inner loop of \<open>get_video_stats\<close> over the items of one response.\<close>

fun read_video_items :: "library \<Rightarrow> int \<Rightarrow> video_entry list \<Rightarrow> stats_map \<Rightarrow> error + stats_map" where
  "read_video_items L now [] stats_map = Inr stats_map"
| "read_video_items L now (item # rest) stats_map =
     (case scheduled_start item of
        NaiveSchedule \<Rightarrow> Inl TypeError
      | start \<Rightarrow>
          if (case start of ScheduledAt dt_start \<Rightarrow> dt_start > now | _ \<Rightarrow> False)
          then read_video_items L now rest (stats_map(video_id item \<mapsto> None))
          else (case view_count item of
                  None \<Rightarrow> read_video_items L now rest (stats_map(video_id item \<mapsto> None))
                | Some vc \<Rightarrow>
                    if vc = [] then read_video_items L now rest (stats_map(video_id item \<mapsto> None))
                    else (case py_int L vc of
                            None \<Rightarrow> Inl ValueError
                          | Some n \<Rightarrow>
                              read_video_items L now rest (stats_map(video_id item \<mapsto> Some n)))))"

text \<open>\<open>video_ids[i:i+50]\<close> for \<open>i\<close> in \<open>range(0, len(video_ids), 50)\<close>.\<close>

fun batches :: "'a list \<Rightarrow> 'a list list" where
  "batches xs = (if xs = [] then [] else take 50 xs # batches (drop 50 xs))"

declare batches.simps [simp del]

fun stats_loop :: "world \<Rightarrow> library \<Rightarrow> int \<Rightarrow> ustring list list \<Rightarrow> stats_map \<Rightarrow> state \<Rightarrow>
    (error + stats_map) \<times> state" where
  "stats_loop W L now [] stats_map st = (Inr stats_map, st)"
| "stats_loop W L now (batch # rest) stats_map st =
     (let st1 = send (VideosGet batch) st
      in case videos_api W (length (sent st)) batch of
           NoResponse \<Rightarrow> (Inl ConnectionError, st1)
         | Response code body \<Rightarrow>
             (case check_quota code (map_option videos_reasons body) st1 of
                (hit, st2) \<Rightarrow>
                  if hit then (Inr stats_map, st2)
                  else if code = 200
                  then (case body of
                          None \<Rightarrow> (Inl JSONDecodeError, st2)
                        | Some doc \<Rightarrow>
                            (case read_video_items L now (video_entries doc) stats_map of
                               Inl e \<Rightarrow> (Inl e, st2)
                             | Inr stats_map' \<Rightarrow> stats_loop W L now rest stats_map' st2))
                  else stats_loop W L now rest stats_map st2))"

definition get_video_stats :: "world \<Rightarrow> library \<Rightarrow> ustring list \<Rightarrow> state \<Rightarrow>
    (error + stats_map) \<times> state" where
  "get_video_stats W L video_ids st =
     (if quota_exceeded st \<or> video_ids = [] then (Inr Map.empty, st)
      else stats_loop W L (now_utc W (length (sent st))) (batches video_ids) Map.empty st)"

section \<open>\<open>process_anime\<close>\<close>

text \<open>The result dictionary: the keys \<open>avg\<close>, \<open>total\<close>, \<open>first\<close>, \<open>valid_count\<close>, \<open>ep_count_update\<close>.\<close>

record anime_stats =
  avg :: pyval
  total' :: pyval
  first :: pyval
  valid_count :: pyval
  ep_count_update :: pyval

definition dashes :: ustring where
  "dashes = cps ''---''"

text \<open>The three characters of the marker for a playlist that was taken down.\<close>

definition delisted :: ustring where
  "delisted = [24050, 19979, 26550]"

definition default_result :: anime_stats where
  "default_result =
     \<lparr> avg = VStr dashes, total' = VStr dashes, first = VStr dashes,
       valid_count = VInt 0, ep_count_update = VNone \<rparr>"

definition removed_result :: anime_stats where
  "removed_result =
     \<lparr> avg = VStr delisted, total' = VStr delisted, first = VStr delisted,
       valid_count = VStr delisted, ep_count_update = VStr delisted \<rparr>"

definition episode_sort_key :: "library \<Rightarrow> playlist_item \<Rightarrow> pynum" where
  "episode_sort_key L v =
     (case parse_episode_number L (item_title v) of
        Some ep_idx \<Rightarrow> ep_idx
      | None \<Rightarrow> PInt 999999)"

text \<open>
  \<open>list.sort(key=...)\<close> is stable and compares keys with \<open><\<close>; on keys that \<open><\<close> orders
  (numbers, no NaN) every stable sort gives the list that this insertion sort gives.
\<close>

fun insert_by_key :: "('a \<Rightarrow> pynum) \<Rightarrow> 'a \<Rightarrow> 'a list \<Rightarrow> 'a list" where
  "insert_by_key key x [] = [x]"
| "insert_by_key key x (y # ys) =
     (if num_lt (key x) (key y) then x # y # ys else y # insert_by_key key x ys)"

definition py_sorted :: "('a \<Rightarrow> pynum) \<Rightarrow> 'a list \<Rightarrow> 'a list" where
  "py_sorted key xs = foldl (\<lambda>acc x. insert_by_key key x acc) [] xs"

text \<open>
  The loop over \<open>sorted_videos\<close> with its four variables \<open>total_views\<close>, \<open>valid_view_count\<close>,
  \<open>first_ep_views\<close> and \<open>has_any_view_data\<close>.
\<close>

fun tally :: "stats_map \<Rightarrow> playlist_item list \<Rightarrow> int \<times> nat \<times> pyval \<times> bool \<Rightarrow>
    int \<times> nat \<times> pyval \<times> bool" where
  "tally stats [] acc = acc"
| "tally stats (v # vs) (total_views, valid_view_count, first_ep_views, has_any_view_data) =
     (let views = stats_get stats (item_id v);
          counted = (case views of
                       None \<Rightarrow> (total_views, valid_view_count, has_any_view_data)
                     | Some n \<Rightarrow> (total_views + n, valid_view_count + 1, True));
          first_ep_views' =
            (if first_ep_views = VNone
             then (case views of None \<Rightarrow> VStr dashes | Some n \<Rightarrow> VInt n)
             else first_ep_views)
      in case counted of
           (total_views', valid_view_count', has_any_view_data') \<Rightarrow>
             tally stats vs (total_views', valid_view_count', first_ep_views', has_any_view_data'))"

text \<open>
  The real samples of a list of items: the view counts of those whose id has one in the
  statistics. Used to state what the loop computes.
\<close>

definition samples_of :: "stats_map \<Rightarrow> playlist_item list \<Rightarrow> int list" where
  "samples_of stats vs = List.map_filter (\<lambda>v. stats_get stats (item_id v)) vs"

text \<open>The statistics of \<open>process_anime\<close>, from the sort to the end.\<close>

definition summarise :: "library \<Rightarrow> playlist_item list \<Rightarrow> stats_map \<Rightarrow> error + anime_stats" where
  "summarise L valid_videos stats =
     (case tally stats (py_sorted (episode_sort_key L) valid_videos) (0, 0, VNone, False) of
        (total_views, valid_view_count, first_ep_views, has_any_view_data) \<Rightarrow>
          if \<not> has_any_view_data then Inr default_result
          else (case (if valid_view_count > 0
                      then (case py_truediv total_views (int valid_view_count) of
                              Inl e \<Rightarrow> Inl e
                            | Inr ratio \<Rightarrow> py_int_of_float ratio)
                      else Inr 0) of
                  Inl e \<Rightarrow> Inl e
                | Inr avg_views \<Rightarrow>
                    Inr (default_result
                          \<lparr> total' := VInt total_views,
                            avg := VInt avg_views,
                            first := (if first_ep_views \<noteq> VNone then first_ep_views
                                      else VStr dashes),
                            valid_count := VInt (int (length valid_videos)) \<rparr>)))"

text \<open>
  \<open>process_anime\<close>. The result is \<open>None\<close> when \<open>get_playlist_items\<close> never returns; otherwise
  an exception or the returned value (Python's \<open>None\<close> or the result dictionary), with the
  state after the call.
\<close>

definition process_anime :: "world \<Rightarrow> library \<Rightarrow> state \<Rightarrow> anime \<Rightarrow>
    ((error + anime_stats option) \<times> state) option" where
  "process_anime W L st anime_item =
     (if quota_exceeded st then Some (Inr None, st)
      else case offset_spec L (offset anime_item) of
        (offset_range, offset_string) \<Rightarrow>
          (case get_playlist_id L (link_url anime_item) of
             None \<Rightarrow> Some (Inr None, st)
           | Some playlist_id \<Rightarrow>
               if playlist_id = [] then Some (Inr None, st)
               else (case get_playlist_items W playlist_id st of
                       None \<Rightarrow> None
                     | Some (Inl e, st1) \<Rightarrow> Some (Inl e, st1)
                     | Some (Inr Removed, st1) \<Rightarrow> Some (Inr (Some removed_result), st1)
                     | Some (Inr QuotaNone, st1) \<Rightarrow> Some (Inr (Some default_result), st1)
                     | Some (Inr (Items items), st1) \<Rightarrow>
                         if items = [] then Some (Inr (Some default_result), st1)
                         else (let valid_videos =
                                     filter (\<lambda>item. keeps_title L offset_range offset_string
                                                       (item_title item)) items
                               in if valid_videos = [] then Some (Inr (Some default_result), st1)
                                  else (case get_video_stats W L (map item_id valid_videos) st1 of
                                          (Inl e, st2) \<Rightarrow> Some (Inl e, st2)
                                        | (Inr stats, st2) \<Rightarrow>
                                            if quota_exceeded st2 then Some (Inr None, st2)
                                            else (case summarise L valid_videos stats of
                                                    Inl e \<Rightarrow> Some (Inl e, st2)
                                                  | Inr result \<Rightarrow>
                                                      Some (Inr (Some result), st2)))))))"

section \<open>\<open>AnimeAPI\<close>\<close>

text \<open>\<open>_call\<close>, given the response to its one \<open>requests.post\<close>.\<close>

definition call :: "'d gas_doc response \<Rightarrow> error + 'd option" where
  "call r =
     (case r of
        NoResponse \<Rightarrow> Inl ConnectionError
      | Response code body \<Rightarrow>
          if code \<noteq> 200 then Inl (HTTPError code)
          else (case body of
                  None \<Rightarrow> Inl InvalidJSONResponse
                | Some result \<Rightarrow>
                    if \<not> status_success result then Inl APIError
                    else Inr (gas_data result)))"

text \<open>The methods of an \<open>AnimeAPI\<close> object made with the given \<open>ss_id\<close>.\<close>

definition get_schedule :: "world \<Rightarrow> ustring \<Rightarrow> state \<Rightarrow> (error + schedule option) \<times> state" where
  "get_schedule W ss_id st =
     (call (schedule_api W (length (sent st)) ss_id),
      send (GasPost ss_id GetSchedule) st)"

definition get_sheet_data :: "world \<Rightarrow> ustring \<Rightarrow> ustring \<Rightarrow> state \<Rightarrow>
    (error + sheet_data option) \<times> state" where
  "get_sheet_data W ss_id sheet_name st =
     (call (sheet_data_api W (length (sent st)) ss_id sheet_name),
      send (GasPost ss_id (GetSheetData sheet_name)) st)"

definition batch_update :: "world \<Rightarrow> ustring \<Rightarrow> ustring \<Rightarrow> row_update list \<Rightarrow> state \<Rightarrow>
    (error + unit option) \<times> state" where
  "batch_update W ss_id sheet_name update_list st =
     (call (update_data_api W (length (sent st)) ss_id sheet_name update_list),
      send (GasPost ss_id (UpdateData sheet_name update_list)) st)"

definition sort_data :: "world \<Rightarrow> ustring \<Rightarrow> ustring \<Rightarrow> state \<Rightarrow> (error + unit option) \<times> state" where
  "sort_data W ss_id sheet_name st =
     (call (sort_data_api W (length (sent st)) ss_id sheet_name),
      send (GasPost ss_id (SortData sheet_name)) st)"

definition update_system_time :: "world \<Rightarrow> ustring \<Rightarrow> ustring \<Rightarrow> state \<Rightarrow>
    (error + unit option) \<times> state" where
  "update_system_time W ss_id time_str st =
     (call (timestamp_api W (length (sent st)) ss_id time_str),
      send (GasPost ss_id (UpdateTimestamp time_str)) st)"

section \<open>\<open>process_single_sheet\<close>\<close>

text \<open>\<open>int(anime['name_cell'][1:])\<close>; \<open>None\<close> is \<open>ValueError\<close>.\<close>

definition row_idx :: "library \<Rightarrow> anime \<Rightarrow> int option" where
  "row_idx L a = py_int L (drop 1 (name_cell a))"

text \<open>
  An entry of \<open>region_results\<close>, with the row index that the first phase computed from its
  \<open>name_cell\<close> (the later phases compute the same number again).
\<close>

type_synonym region_result = "anime \<times> int \<times> anime_stats option"

definition is_int :: "pyval \<Rightarrow> bool" where
  "is_int v = (case v of VInt i \<Rightarrow> True | _ \<Rightarrow> False)"

definition int_of :: "pyval \<Rightarrow> int" where
  "int_of v = (case v of VInt i \<Rightarrow> i | _ \<Rightarrow> 0)"

text \<open>
  First phase, the loop over one region. The dictionaries \<open>global_avg_sum_map\<close> and
  \<open>global_comp_rank_cell_map\<close> keep the order in which their keys came in. \<open>Inr None\<close> is
  the \<open>return\<close> that ends \<open>process_single_sheet\<close> when the quota flag is up.
\<close>

fun read_region :: "world \<Rightarrow> library \<Rightarrow> anime list \<Rightarrow> state \<Rightarrow>
    region_result list \<times> (int \<times> int) list \<times> (int \<times> ustring) list \<Rightarrow>
    ((error + (region_result list \<times> (int \<times> int) list \<times> (int \<times> ustring) list) option)
      \<times> state) option" where
  "read_region W L [] st acc = Some (Inr (Some acc), st)"
| "read_region W L (anime # rest) st (region_results, global_avg_sum_map, global_comp_rank_cell_map) =
     (if quota_exceeded st then Some (Inr None, st)
      else case row_idx L anime of
        None \<Rightarrow> Some (Inl ValueError, st)
      | Some row \<Rightarrow>
          (let cell_map = (case comp_rank_cell anime of
                             None \<Rightarrow> global_comp_rank_cell_map
                           | Some c \<Rightarrow>
                               if c = [] then global_comp_rank_cell_map
                               else AList.update row c global_comp_rank_cell_map)
           in case process_anime W L st anime of
                None \<Rightarrow> None
              | Some (Inl e, st1) \<Rightarrow> Some (Inl e, st1)
              | Some (Inr None, st1) \<Rightarrow>
                  read_region W L rest st1
                    (region_results @ [(anime, row, None)], global_avg_sum_map, cell_map)
              | Some (Inr (Some stats), st1) \<Rightarrow>
                  read_region W L rest st1
                    (region_results @ [(anime, row, Some stats)],
                     (if is_int (avg stats)
                      then AList.update row
                             ((case map_of global_avg_sum_map row of None \<Rightarrow> 0 | Some s \<Rightarrow> s)
                                + int_of (avg stats))
                             global_avg_sum_map
                      else global_avg_sum_map),
                     cell_map)))"

text \<open>
  Second phase: the entries with an int average, sorted by it from large to small.
  \<open>sort(reverse=True)\<close> keeps entries with equal keys in their order, so it is the stable
  sort on the negated key.
\<close>

definition has_int_avg :: "region_result \<Rightarrow> bool" where
  "has_int_avg item = (case snd (snd item) of None \<Rightarrow> False | Some stats \<Rightarrow> is_int (avg stats))"

definition avg_of :: "region_result \<Rightarrow> int" where
  "avg_of item = (case snd (snd item) of None \<Rightarrow> 0 | Some stats \<Rightarrow> int_of (avg stats))"

definition valid_for_ranking :: "region_result list \<Rightarrow> region_result list" where
  "valid_for_ranking region_results =
     sort_key (\<lambda>item. - avg_of item) (filter has_int_avg region_results)"

text \<open>\<open>rank_map[row_idx] = i + 1\<close> for \<open>i, item\<close> in \<open>enumerate(...)\<close>.\<close>

fun number_rows :: "int list \<Rightarrow> int \<Rightarrow> (int \<rightharpoonup> int) \<Rightarrow> (int \<rightharpoonup> int)" where
  "number_rows [] i m = m"
| "number_rows (row # rows) i m = number_rows rows (i + 1) (m(row \<mapsto> i + 1))"

definition rank_map :: "region_result list \<Rightarrow> (int \<rightharpoonup> int)" where
  "rank_map region_results =
     number_rows (map (\<lambda>item. fst (snd item)) (valid_for_ranking region_results)) 0 Map.empty"

text \<open>Third phase: the cells of one entry of the region.\<close>

definition rank_updates :: "(int \<rightharpoonup> int) \<Rightarrow> region_result \<Rightarrow> cell_update list" where
  "rank_updates ranks item =
     (case item of (anime, row, stats) \<Rightarrow>
        if rank_cell anime \<noteq> []
        then [CellUpdate (rank_cell anime)
                (case ranks row of Some r \<Rightarrow> VInt r | None \<Rightarrow> VStr [])]
        else [])"

definition view_updates :: "anime \<Rightarrow> anime_stats \<Rightarrow> cell_update list" where
  "view_updates anime stats =
     (if avg_view_cell anime \<noteq> [] then [CellUpdate (avg_view_cell anime) (avg stats)] else [])
     @ (if total_view_cell anime \<noteq> [] then [CellUpdate (total_view_cell anime) (total' stats)]
        else [])
     @ (if first_view_cell anime \<noteq> [] then [CellUpdate (first_view_cell anime) (first stats)]
        else [])"

text \<open>
  The episode count: \<open>this_region_ep_count > current_max_ep\<close> raises \<open>TypeError\<close> when the
  count is not a number, and the \<open>except\<close> passes. The result is the cells to add and the
  new \<open>row_max_ep_map\<close>.
\<close>

definition ep_count_updates :: "anime \<Rightarrow> int \<Rightarrow> anime_stats \<Rightarrow> (int \<rightharpoonup> int) \<Rightarrow>
    cell_update list \<times> (int \<rightharpoonup> int)" where
  "ep_count_updates anime row stats row_max_ep_map =
     (let current_max_ep = (case row_max_ep_map row of None \<Rightarrow> 0 | Some m \<Rightarrow> m)
      in case valid_count stats of
           VInt this_region_ep_count \<Rightarrow>
             if this_region_ep_count > current_max_ep
             then ((if ep_count_cell anime \<noteq> []
                    then [CellUpdate (ep_count_cell anime) (VInt this_region_ep_count)]
                    else []),
                   row_max_ep_map(row \<mapsto> this_region_ep_count))
             else ([], row_max_ep_map)
         | _ \<Rightarrow> ([], row_max_ep_map))"

definition add_row :: "anime \<Rightarrow> int \<Rightarrow> cell_update list \<Rightarrow> row_update list \<Rightarrow> row_update list" where
  "add_row anime row row_updates updates_batch =
     (if row_updates \<noteq> []
      then updates_batch @
             [\<lparr> row_check_name = anime_name anime, target_row = row, updates = row_updates \<rparr>]
      else updates_batch)"

fun plan_region :: "(int \<rightharpoonup> int) \<Rightarrow> region_result list \<Rightarrow> row_update list \<times> (int \<rightharpoonup> int) \<Rightarrow>
    row_update list \<times> (int \<rightharpoonup> int)" where
  "plan_region ranks [] acc = acc"
| "plan_region ranks ((anime, row, stats) # rest) (updates_batch, row_max_ep_map) =
     (case stats of
        None \<Rightarrow>
          plan_region ranks rest
            (add_row anime row (rank_updates ranks (anime, row, stats)) updates_batch,
             row_max_ep_map)
      | Some s \<Rightarrow>
          (case ep_count_updates anime row s row_max_ep_map of
             (ep_updates, row_max_ep_map') \<Rightarrow>
               plan_region ranks rest
                 (add_row anime row
                    (rank_updates ranks (anime, row, stats) @ view_updates anime s @ ep_updates)
                    updates_batch,
                  row_max_ep_map')))"

text \<open>
  The loop over the regions: phases one to three for each. The four variables that live
  through the loop are \<open>updates_batch\<close>, \<open>row_max_ep_map\<close>, \<open>global_avg_sum_map\<close> and
  \<open>global_comp_rank_cell_map\<close>.
\<close>

type_synonym sheet_run =
  "row_update list \<times> (int \<rightharpoonup> int) \<times> (int \<times> int) list \<times> (int \<times> ustring) list"

fun process_regions :: "world \<Rightarrow> library \<Rightarrow> sheet_data \<Rightarrow> state \<Rightarrow> sheet_run \<Rightarrow>
    ((error + sheet_run option) \<times> state) option" where
  "process_regions W L [] st run = Some (Inr (Some run), st)"
| "process_regions W L ((region_name, anime_list) # regions) st
     (updates_batch, row_max_ep_map, global_avg_sum_map, global_comp_rank_cell_map) =
     (case read_region W L anime_list st ([], global_avg_sum_map, global_comp_rank_cell_map) of
        None \<Rightarrow> None
      | Some (Inl e, st1) \<Rightarrow> Some (Inl e, st1)
      | Some (Inr None, st1) \<Rightarrow> Some (Inr None, st1)
      | Some (Inr (Some (region_results, sum_map, cell_map)), st1) \<Rightarrow>
          (case plan_region (rank_map region_results) region_results
                  (updates_batch, row_max_ep_map) of
             (updates_batch', row_max_ep_map') \<Rightarrow>
               process_regions W L regions st1
                 (updates_batch', row_max_ep_map', sum_map, cell_map)))"

text \<open>Fourth phase: the comprehensive rank.\<close>

definition valid_global_list :: "(int \<times> int) list \<Rightarrow> (int \<times> int) list" where
  "valid_global_list sum_map = sort_key (\<lambda>x. - snd x) (filter (\<lambda>x. snd x > 0) sum_map)"

definition global_rank_map :: "(int \<times> int) list \<Rightarrow> (int \<rightharpoonup> int)" where
  "global_rank_map sum_map = number_rows (map fst (valid_global_list sum_map)) 0 Map.empty"

text \<open>
  \<open>row_to_name_map\<close>, from the first region of the sheet; its \<open>int\<close> may raise.
\<close>

fun row_to_name_map :: "library \<Rightarrow> anime list \<Rightarrow> (int \<rightharpoonup> ustring) \<Rightarrow> error + (int \<rightharpoonup> ustring)" where
  "row_to_name_map L [] m = Inr m"
| "row_to_name_map L (a # rest) m =
     (case row_idx L a of
        None \<Rightarrow> Inl ValueError
      | Some row \<Rightarrow> row_to_name_map L rest (m(row \<mapsto> anime_name a)))"

fun comp_rank_rows :: "(int \<rightharpoonup> int) \<Rightarrow> (int \<rightharpoonup> ustring) \<Rightarrow> (int \<times> ustring) list \<Rightarrow>
    row_update list \<Rightarrow> row_update list" where
  "comp_rank_rows ranks names [] updates_batch = updates_batch"
| "comp_rank_rows ranks names ((row, cell_addr) # rest) updates_batch =
     (case names row of
        None \<Rightarrow> comp_rank_rows ranks names rest updates_batch
      | Some name \<Rightarrow>
          if name = [] then comp_rank_rows ranks names rest updates_batch
          else comp_rank_rows ranks names rest
                 (updates_batch @
                    [\<lparr> row_check_name = name, target_row = row,
                       updates = [CellUpdate cell_addr
                                    (case ranks row of Some r \<Rightarrow> VInt r | None \<Rightarrow> VStr [])] \<rparr>]))"

definition comprehensive :: "library \<Rightarrow> sheet_data \<Rightarrow> state \<Rightarrow> sheet_run \<Rightarrow> error + row_update list" where
  "comprehensive L sheet_data st run =
     (case run of
        (updates_batch, row_max_ep_map, global_avg_sum_map, global_comp_rank_cell_map) \<Rightarrow>
          if \<not> quota_exceeded st \<and> global_comp_rank_cell_map \<noteq> []
          then (case row_to_name_map L (case sheet_data of [] \<Rightarrow> [] | region # _ \<Rightarrow> snd region)
                       Map.empty of
                  Inl e \<Rightarrow> Inl e
                | Inr names \<Rightarrow>
                    Inr (comp_rank_rows (global_rank_map global_avg_sum_map) names
                           global_comp_rank_cell_map updates_batch))
          else Inr updates_batch)"

text \<open>
  Fifth phase: one \<open>batch_update\<close>, then \<open>sort_data\<close>; both inside a \<open>try\<close> whose \<open>except\<close>
  only prints. Reading a field of \<open>resp\<close> raises when \<open>data\<close> is absent, and then
  \<open>sort_data\<close> is not called.
\<close>

definition write_sheet :: "world \<Rightarrow> ustring \<Rightarrow> ustring \<Rightarrow> row_update list \<Rightarrow> state \<Rightarrow> state" where
  "write_sheet W ss_id sheet_name batch st =
     (if batch \<noteq> [] \<and> \<not> quota_exceeded st
      then (case batch_update W ss_id sheet_name batch st of
              (Inl e, st1) \<Rightarrow> st1
            | (Inr None, st1) \<Rightarrow> st1
            | (Inr (Some resp), st1) \<Rightarrow> snd (sort_data W ss_id sheet_name st1))
      else st)"

text \<open>
  \<open>process_single_sheet\<close>, with the \<open>ss_id\<close> of the global \<open>current_gas_api\<close>. \<open>None\<close>: it
  never returns; \<open>Inl\<close>: an exception leaves it; \<open>Inr ()\<close>: it returns.
\<close>

definition process_single_sheet :: "world \<Rightarrow> library \<Rightarrow> ustring \<Rightarrow> ustring \<Rightarrow> state \<Rightarrow>
    ((error + unit) \<times> state) option" where
  "process_single_sheet W L ss_id sheet_name st =
     (case get_sheet_data W ss_id sheet_name st of
        (Inl e, st0) \<Rightarrow> Some (Inr (), st0)
      | (Inr None, st0) \<Rightarrow> Some (Inr (), st0)
      | (Inr (Some sheet_data), st0) \<Rightarrow>
          if sheet_data = [] then Some (Inr (), st0)
          else (case process_regions W L sheet_data st0
                       ([], Map.empty, [], []) of
                  None \<Rightarrow> None
                | Some (Inl e, st1) \<Rightarrow> Some (Inl e, st1)
                | Some (Inr None, st1) \<Rightarrow> Some (Inr (), st1)
                | Some (Inr (Some run), st1) \<Rightarrow>
                    (case comprehensive L sheet_data st1 run of
                       Inl e \<Rightarrow> Some (Inl e, st1)
                     | Inr batch \<Rightarrow> Some (Inr (), write_sheet W ss_id sheet_name batch st1))))"

section \<open>\<open>main\<close>\<close>

text \<open>
  \<open>sorted(list(sheets_to_process))\<close>: the names under the key \<open>0\<close> and under the key of
  today, without duplicates, in the order of their code points.
\<close>

definition target_sheets :: "schedule \<Rightarrow> ustring \<Rightarrow> ustring list" where
  "target_sheets schedule key =
     sort (remdups ((case map_of schedule (cps ''0'') of None \<Rightarrow> [] | Some names \<Rightarrow> names)
                    @ (case map_of schedule key of None \<Rightarrow> [] | Some names \<Rightarrow> names)))"

text \<open>The loop over \<open>target_sheets\<close>; the flag is read before each sheet.\<close>

fun process_sheets :: "world \<Rightarrow> library \<Rightarrow> ustring \<Rightarrow> ustring list \<Rightarrow> state \<Rightarrow>
    ((error + unit) \<times> state) option" where
  "process_sheets W L ss_id [] st = Some (Inr (), st)"
| "process_sheets W L ss_id (sheet_name # rest) st =
     (if quota_exceeded st then Some (Inl QuotaFull, st)
      else case process_single_sheet W L ss_id sheet_name st of
        None \<Rightarrow> None
      | Some (Inl e, st1) \<Rightarrow> Some (Inl e, st1)
      | Some (Inr u, st1) \<Rightarrow> process_sheets W L ss_id rest st1)"

text \<open>
  The loop over \<open>SPREADSHEET_IDS\<close>. A schedule that is \<open>None\<close> makes \<open>"0" in schedule\<close> raise
  \<open>TypeError\<close>.
\<close>

fun process_spreadsheets :: "world \<Rightarrow> library \<Rightarrow> ustring \<Rightarrow> ustring list \<Rightarrow> state \<Rightarrow>
    ((error + unit) \<times> state) option" where
  "process_spreadsheets W L key [] st = Some (Inr (), st)"
| "process_spreadsheets W L key (ss_id # rest) st =
     (if ss_id = [] then process_spreadsheets W L key rest st
      else case get_schedule W ss_id st of
        (Inl e, st1) \<Rightarrow> Some (Inl e, st1)
      | (Inr None, st1) \<Rightarrow> Some (Inl TypeError, st1)
      | (Inr (Some schedule), st1) \<Rightarrow>
          (case process_sheets W L ss_id (target_sheets schedule key) st1 of
             None \<Rightarrow> None
           | Some (Inl e, st2) \<Rightarrow> Some (Inl e, st2)
           | Some (Inr u, st2) \<Rightarrow> process_spreadsheets W L key rest st2))"

text \<open>
  The loop that stamps the time on every spreadsheet; \<open>res.get\<close> raises \<open>AttributeError\<close>
  when the script gives no data.
\<close>

fun update_times :: "world \<Rightarrow> ustring \<Rightarrow> ustring list \<Rightarrow> state \<Rightarrow> (error + unit) \<times> state" where
  "update_times W time_str [] st = (Inr (), st)"
| "update_times W time_str (ss_id # rest) st =
     (if ss_id = [] then update_times W time_str rest st
      else case update_system_time W ss_id time_str st of
        (Inl e, st1) \<Rightarrow> (Inl e, st1)
      | (Inr None, st1) \<Rightarrow> (Inl AttributeError, st1)
      | (Inr (Some res), st1) \<Rightarrow> update_times W time_str rest st1)"

text \<open>
  \<open>main\<close>, for the given \<open>SPREADSHEET_IDS\<close>: the state when it returns, \<open>None\<close> when it never
  does. An exception of the first part is reported by Telegram and ends the run; otherwise
  the time stamps are written and the heartbeat is sent. What Telegram and the heartbeat
  answer is not read, and their own exceptions are caught.
\<close>

definition main :: "world \<Rightarrow> library \<Rightarrow> ustring list \<Rightarrow> state \<Rightarrow> state option" where
  "main W L spreadsheet_ids st =
     (case process_spreadsheets W L (today_key W (length (sent st))) spreadsheet_ids st of
        None \<Rightarrow> None
      | Some (Inl e, st1) \<Rightarrow> Some (send (TelegramPost (RunError e)) st1)
      | Some (Inr u, st1) \<Rightarrow>
          (case update_times W (now_str W (length (sent st1))) spreadsheet_ids st1 of
             (Inl e, st2) \<Rightarrow> Some (send (TelegramPost (UpdateTimeError e)) st2)
           | (Inr u', st2) \<Rightarrow> Some (send HeartbeatGet st2)))"

section \<open>The flag and the log\<close>

text \<open>
  A step from the state \<open>st\<close> to the state \<open>st'\<close> respects the flag when the log of \<open>st'\<close> is
  the log of \<open>st\<close> with more requests after it, none of which is a fetch from the video
  platform that was sent with the flag up, and when the flag, if it is up in \<open>st\<close>, is up
  in \<open>st'\<close> too.
\<close>

definition quiet :: "state \<Rightarrow> state \<Rightarrow> bool" where
  "quiet st st' \<longleftrightarrow>
     (\<exists>new. sent st' = sent st @ new
        \<and> (\<forall>entry \<in> set new. fst entry \<longrightarrow> \<not> is_fetch (snd entry)))
     \<and> (quota_exceeded st \<longrightarrow> quota_exceeded st')"
section \<open>A library instance for the examples\<close>

text \<open>
  The examples below run the model on concrete inputs. They use this instance of the
  library, which agrees with CPython on ASCII: white space and digits are the ASCII ones,
  letters are compared after ASCII lower-casing, and \<open>int\<close> reads a string of ASCII digits.
  \<open>json.loads\<close> and the URL parser are given only on the strings the examples use.
\<close>

definition ascii_lower :: "nat \<Rightarrow> nat" where
  "ascii_lower c = (if 65 \<le> c \<and> c \<le> 90 then c + 32 else c)"

definition ascii_digit :: "nat \<Rightarrow> nat option" where
  "ascii_digit c = (if 48 \<le> c \<and> c \<le> 57 then Some (c - 48) else None)"

definition ascii_int :: "ustring \<Rightarrow> int option" where
  "ascii_int s =
     (if s = [] then None
      else case those (map ascii_digit s) of None \<Rightarrow> None | Some ds \<Rightarrow> Some (int (digits_nat ds)))"

definition example_json_loads :: "ustring \<Rightarrow> json option" where
  "example_json_loads s =
     (if s = cps ''[1, 12]'' then Some (JArr [JNum (PInt 1), JNum (PInt 12)])
      else if s = cps ''5'' then Some (JNum (PInt 5))
      else None)"

definition example_playlist_query :: "ustring \<Rightarrow> ustring option" where
  "example_playlist_query url =
     (if url = cps ''https://www.youtube.com/playlist?list=PL1'' then Some (cps ''PL1'')
      else None)"

definition ascii_library :: library where
  "ascii_library =
     \<lparr> is_space = (\<lambda>c. c \<in> {9, 10, 11, 12, 13, 28, 29, 30, 31, 32}),
       digit_value = ascii_digit,
       caseless_eq = (\<lambda>c x. ascii_lower c = ascii_lower x),
       json_loads = example_json_loads,
       playlist_query = example_playlist_query,
       py_int = ascii_int \<rparr>"

text \<open>
  A row of a sheet with every cell reference set, a world that gives one fixed answer to
  every playlist request and one to every statistics request, and the state of a fresh
  processor.
\<close>

definition example_anime :: anime where
  "example_anime =
     \<lparr> anime_name = cps ''Show'', name_cell = cps ''A2'',
       link_url = Some (cps ''https://www.youtube.com/playlist?list=PL1''), offset = None,
       rank_cell = cps ''B2'', avg_view_cell = cps ''C2'', total_view_cell = cps ''D2'',
       first_view_cell = cps ''E2'', ep_count_cell = cps ''F2'', comp_rank_cell = None \<rparr>"

definition fixed_world :: "playlist_doc response \<Rightarrow> videos_doc response \<Rightarrow> world" where
  "fixed_world p v =
     \<lparr> playlist_items_api = (\<lambda>n playlist_id token. p), videos_api = (\<lambda>n ids. v),
       schedule_api = (\<lambda>n ss_id. NoResponse),
       sheet_data_api = (\<lambda>n ss_id sheet. NoResponse),
       update_data_api = (\<lambda>n ss_id sheet rows. NoResponse),
       sort_data_api = (\<lambda>n ss_id sheet. NoResponse),
       timestamp_api = (\<lambda>n ss_id time_str. NoResponse),
       now_utc = (\<lambda>n. 0), today_key = (\<lambda>n. cps ''1''), now_str = (\<lambda>n. []) \<rparr>"

definition start_state :: state where
  "start_state = \<lparr> quota_exceeded = False, sent = [] \<rparr>"

text \<open>A playlist of one video, \<open>Episode 1\<close>, whose view count is hidden.\<close>

definition hidden_world :: world where
  "hidden_world =
     fixed_world
       (Response 200 (Some (PlaylistDoc [] [PlaylistEntry (cps ''Episode 1'') (Some (cps ''v1''))] None)))
       (Response 200 (Some (VideosDoc [] [VideoEntry (cps ''v1'') NoSchedule None])))"

text \<open>A playlist of three episodes with 100, 200 and 300 views.\<close>

definition views_world :: world where
  "views_world =
     fixed_world
       (Response 200 (Some (PlaylistDoc []
          [PlaylistEntry (cps ''Episode 1'') (Some (cps ''v1'')),
           PlaylistEntry (cps ''Episode 2'') (Some (cps ''v2'')),
           PlaylistEntry (cps ''Episode 3'') (Some (cps ''v3''))] None)))
       (Response 200 (Some (VideosDoc []
          [VideoEntry (cps ''v1'') NoSchedule (Some (cps ''100'')),
           VideoEntry (cps ''v2'') NoSchedule (Some (cps ''200'')),
           VideoEntry (cps ''v3'') NoSchedule (Some (cps ''300''))])))"

text \<open>
  A playlist of one video that the statistics response does not list at all, and a playlist
  of two videos of which the response lists only the second, with 50 views.
\<close>

definition omitted_world :: world where
  "omitted_world =
     fixed_world
       (Response 200 (Some (PlaylistDoc [] [PlaylistEntry (cps ''Episode 1'') (Some (cps ''v1''))] None)))
       (Response 200 (Some (VideosDoc [] [])))"

definition partly_omitted_world :: world where
  "partly_omitted_world =
     fixed_world
       (Response 200 (Some (PlaylistDoc []
          [PlaylistEntry (cps ''Episode 1'') (Some (cps ''v1'')),
           PlaylistEntry (cps ''Episode 2'') (Some (cps ''v2''))] None)))
       (Response 200 (Some (VideosDoc [] [VideoEntry (cps ''v2'') NoSchedule (Some (cps ''50''))])))"

text \<open>A playlist that the platform no longer has: every request is answered with 404.\<close>

definition removed_world :: world where
  "removed_world = fixed_world (Response 404 None) NoResponse"

text \<open>
  Rows for the ranking examples: the row of a series with its cells in the columns A to H
  of the given row, and a result dictionary with a given average.
\<close>

definition row_anime :: "string \<Rightarrow> string \<Rightarrow> anime" where
  "row_anime name row =
     \<lparr> anime_name = cps name, name_cell = cps (''A'' @ row), link_url = None, offset = None,
       rank_cell = cps (''B'' @ row), avg_view_cell = cps (''C'' @ row),
       total_view_cell = cps (''D'' @ row), first_view_cell = cps (''E'' @ row),
       ep_count_cell = cps (''F'' @ row), comp_rank_cell = Some (cps (''H'' @ row)) \<rparr>"

definition stats_with_avg :: "int \<Rightarrow> anime_stats" where
  "stats_with_avg a =
     \<lparr> avg = VInt a, total' = VInt a, first = VInt a, valid_count = VInt 1,
       ep_count_update = VNone \<rparr>"

definition example_region :: "region_result list" where
  "example_region =
     [(row_anime ''C'' ''4'', 4, Some (stats_with_avg 300)),
      (row_anime ''D'' ''5'', 5, None),
      (row_anime ''A'' ''2'', 2, Some (stats_with_avg 500)),
      (row_anime ''B'' ''3'', 3, Some (stats_with_avg 500))]"

text \<open>
  A world whose script serves the given sheet and accepts every write, and a sheet of two
  regions whose rows differ: row 2 in the first region, row 3 in the second. Neither row
  has a playlist link.
\<close>

definition sheet_world :: "sheet_data \<Rightarrow> world" where
  "sheet_world sheet =
     \<lparr> playlist_items_api = (\<lambda>n playlist_id token. NoResponse), videos_api = (\<lambda>n ids. NoResponse),
       schedule_api = (\<lambda>n ss_id. Response 200 (Some (GasDoc True (Some [(cps ''0'', [cps ''S''])])))),
       sheet_data_api = (\<lambda>n ss_id name. Response 200 (Some (GasDoc True (Some sheet)))),
       update_data_api = (\<lambda>n ss_id name rows. Response 200 (Some (GasDoc True (Some ())))),
       sort_data_api = (\<lambda>n ss_id name. Response 200 (Some (GasDoc True (Some ())))),
       timestamp_api = (\<lambda>n ss_id time_str. Response 200 (Some (GasDoc True (Some ())))),
       now_utc = (\<lambda>n. 0), today_key = (\<lambda>n. cps ''1''), now_str = (\<lambda>n. []) \<rparr>"

definition two_region_sheet :: sheet_data where
  "two_region_sheet =
     [(cps ''R1'', [row_anime ''A'' ''2'']), (cps ''R2'', [row_anime ''B'' ''3''])]"

text \<open>
  A world that runs out of quota at the first statistics request: the schedule names the
  sheet \<open>S\<close> for every day, the sheet has one region with the example row twice, the
  playlist has one video, and the statistics request is answered with 403 and the reason
  \<open>quotaExceeded\<close>. \<open>quota_run_end\<close> is the state in which \<open>main\<close> leaves this world when it
  is run for the two spreadsheets \<open>X\<close> and \<open>Y\<close>.
\<close>

definition quota_world :: world where
  "quota_world =
     \<lparr> playlist_items_api = (\<lambda>n playlist_id token.
          Response 200 (Some (PlaylistDoc []
            [PlaylistEntry (cps ''Episode 1'') (Some (cps ''v1''))] None))),
       videos_api = (\<lambda>n ids. Response 403 (Some (VideosDoc [cps ''quotaExceeded''] []))),
       schedule_api = (\<lambda>n ss_id. Response 200 (Some (GasDoc True (Some [(cps ''0'', [cps ''S''])])))),
       sheet_data_api = (\<lambda>n ss_id name.
          Response 200 (Some (GasDoc True (Some [(cps ''R1'', [example_anime, example_anime])])))),
       update_data_api = (\<lambda>n ss_id name rows. Response 200 (Some (GasDoc True (Some ())))),
       sort_data_api = (\<lambda>n ss_id name. Response 200 (Some (GasDoc True (Some ())))),
       timestamp_api = (\<lambda>n ss_id time_str. Response 200 (Some (GasDoc True (Some ())))),
       now_utc = (\<lambda>n. 0), today_key = (\<lambda>n. cps ''1''), now_str = (\<lambda>n. []) \<rparr>"

definition quota_run_end :: state where
  "quota_run_end =
     \<lparr> quota_exceeded = True,
       sent = [(False, GasPost (cps ''X'') GetSchedule),
               (False, GasPost (cps ''X'') (GetSheetData (cps ''S''))),
               (False, PlaylistItemsGet (cps ''PL1'') []),
               (False, VideosGet [cps ''v1'']),
               (True, GasPost (cps ''Y'') GetSchedule),
               (True, TelegramPost (RunError QuotaFull))] \<rparr>"

section \<open>Facts about the number model\<close>

lemma round_half_even_ge: "n * d \<le> x \<Longrightarrow> 0 < d \<Longrightarrow> n \<le> round_half_even x d"
proof -
  assume a: "n * d \<le> x" and d: "0 < d"
  then have "n \<le> x div d"
    by (simp add: less_eq_div_iff_mult_less_eq)
  then show ?thesis
    by (simp add: round_half_even_def Let_def)
qed

lemma round_half_even_lt:
  assumes "0 < N" and "2 * x < (2 * N - 1) * d"
  shows "round_half_even x d < N"
proof -
  have d: "0 < d" using assms by (cases d) auto
  define f where "f = x div d"
  define r where "r = x mod d"
  have x: "x = f * d + r" by (simp add: f_def r_def)
  have fN: "f < N"
  proof (rule ccontr)
    assume "\<not> f < N"
    then have "N * d \<le> f * d" by simp
    then have "N * d \<le> x" using x by linarith
    moreover have "(2 * N - 1) * d \<le> 2 * (N * d)" by (simp add: diff_mult_distrib)
    ultimately show False using assms(2) by linarith
  qed
  show ?thesis
  proof (cases "Suc f < N")
    case True
    then show ?thesis
      by (simp add: round_half_even_def Let_def f_def)
  next
    case False
    then have fe: "f = N - 1" using fN by linarith
    have "(2 * N - 1) * d = 2 * (f * d) + d" using fe assms(1)
      by (cases N) (auto simp: algebra_simps)
    then have "2 * r < d" using assms(2) x by linarith
    then show ?thesis using fN
      by (simp add: round_half_even_def Let_def f_def[symmetric] r_def[symmetric])
  qed
qed

lemma floor_log2_quot_lower:
  assumes "0 < a" "0 < b"
  shows "if 0 \<le> floor_log2_quot a b then b * 2 ^ nat (floor_log2_quot a b) \<le> a
         else b \<le> a * 2 ^ nat (- floor_log2_quot a b)"
proof -
  define la where "la = floorlog 2 a"
  define lb where "lb = floorlog 2 b"
  have la: "2 ^ (la - 1) \<le> a" "a < 2 ^ la" and lb: "2 ^ (lb - 1) \<le> b" "b < 2 ^ lb"
    using floorlog_bounds[of a 2] floorlog_bounds[of b 2] assms by (auto simp: la_def lb_def)
  have la1: "1 \<le> la" and lb1: "1 \<le> lb"
    using assms by (simp_all add: la_def lb_def floorlog_def)
  define k where "k = int la - int lb"
  have fq: "floor_log2_quot a b =
      (if (if 0 \<le> k then b * 2 ^ nat k \<le> a else b \<le> a * 2 ^ nat (- k)) then k else k - 1)"
    by (simp add: floor_log2_quot_def Let_def k_def la_def lb_def)
  show ?thesis
  proof (cases "if 0 \<le> k then b * 2 ^ nat k \<le> a else b \<le> a * 2 ^ nat (- k)")
    case True
    then have "floor_log2_quot a b = k"
      using fq by simp
    then show ?thesis using True by simp
  next
    case False
    then have fk: "floor_log2_quot a b = k - 1"
      using fq by simp
    show ?thesis
    proof (cases "0 \<le> k - 1")
      case True
      then have "nat (k - 1) + lb = la - 1" using la1 lb1 by (simp add: k_def)
      then have "(2::nat) ^ lb * 2 ^ nat (k - 1) = 2 ^ (la - 1)"
        by (metis add.commute power_add)
      moreover have "b * 2 ^ nat (k - 1) \<le> 2 ^ lb * 2 ^ nat (k - 1)"
        using lb(2) by simp
      ultimately show ?thesis using fk True la(1) by simp
    next
      case F2: False
      then have "la - 1 + nat (- (k - 1)) = lb" using la1 lb1 by (simp add: k_def)
      then have "(2::nat) ^ (la - 1) * 2 ^ nat (- (k - 1)) = 2 ^ lb"
        by (metis power_add)
      moreover have "2 ^ (la - 1) * 2 ^ nat (- (k - 1)) \<le> a * 2 ^ nat (- (k - 1))"
        using la(1) by simp
      ultimately have "b \<le> a * 2 ^ nat (- (k - 1))" using lb(2) by linarith
      then show ?thesis using fk F2 by simp
    qed
  qed
qed

lemma floor_log2_quot_upper:
  assumes "0 < a" "0 < b"
  shows "if 0 \<le> floor_log2_quot a b + 1 then a < b * 2 ^ nat (floor_log2_quot a b + 1)
         else a * 2 ^ nat (- (floor_log2_quot a b + 1)) < b"
proof -
  define la where "la = floorlog 2 a"
  define lb where "lb = floorlog 2 b"
  have la: "2 ^ (la - 1) \<le> a" "a < 2 ^ la" and lb: "2 ^ (lb - 1) \<le> b" "b < 2 ^ lb"
    using floorlog_bounds[of a 2] floorlog_bounds[of b 2] assms by (auto simp: la_def lb_def)
  have la1: "1 \<le> la" and lb1: "1 \<le> lb"
    using assms by (simp_all add: la_def lb_def floorlog_def)
  define k where "k = int la - int lb"
  have fq: "floor_log2_quot a b =
      (if (if 0 \<le> k then b * 2 ^ nat k \<le> a else b \<le> a * 2 ^ nat (- k)) then k else k - 1)"
    by (simp add: floor_log2_quot_def Let_def k_def la_def lb_def)
  show ?thesis
  proof (cases "if 0 \<le> k then b * 2 ^ nat k \<le> a else b \<le> a * 2 ^ nat (- k)")
    case False
    then have fk: "floor_log2_quot a b = k - 1"
      using fq by simp
    show ?thesis using False unfolding fk by (simp add: not_le split: if_splits)
  next
    case True
    then have fk: "floor_log2_quot a b = k"
      using fq by simp
    show ?thesis
    proof (cases "0 \<le> k + 1")
      case T2: True
      then have "lb - 1 + nat (k + 1) = la" using la1 lb1 by (simp add: k_def)
      then have "(2::nat) ^ (lb - 1) * 2 ^ nat (k + 1) = 2 ^ la"
        by (metis power_add)
      moreover have "2 ^ (lb - 1) * 2 ^ nat (k + 1) \<le> b * 2 ^ nat (k + 1)"
        using lb(1) by simp
      ultimately have "a < b * 2 ^ nat (k + 1)" using la(2) by linarith
      then show ?thesis using fk T2 by simp
    next
      case F2: False
      then have "la + nat (- (k + 1)) = lb - 1" using la1 lb1 by (simp add: k_def)
      then have "(2::nat) ^ la * 2 ^ nat (- (k + 1)) = 2 ^ (lb - 1)"
        by (metis power_add)
      moreover have "a * 2 ^ nat (- (k + 1)) < 2 ^ la * 2 ^ nat (- (k + 1))"
        using la(2) by simp
      ultimately have "a * 2 ^ nat (- (k + 1)) < b" using lb(1) by linarith
      then show ?thesis using fk F2 by simp
    qed
  qed
qed


lemma round_half_even_one: "round_half_even x (Suc 0) = x"
  by (simp add: round_half_even_def)

lemma nearest_double_floor:
  assumes a: "0 < a" and b: "0 < b" and small: "a < 2 ^ 53"
  shows "\<exists>q. nearest_double a b = Some q \<and> 0 \<le> q \<and> \<lfloor>q\<rfloor> = int (a div b)"
proof -
  define k where "k = floor_log2_quot a b"
  define e where "e = max (k - 52) (- 1074)"
  have lower: "if 0 \<le> k then b * 2 ^ nat k \<le> a else b \<le> a * 2 ^ nat (- k)"
    unfolding k_def by (rule floor_log2_quot_lower[OF a b])
  have upper: "if 0 \<le> k + 1 then a < b * 2 ^ nat (k + 1) else a * 2 ^ nat (- (k + 1)) < b"
    unfolding k_def by (rule floor_log2_quot_upper[OF a b])
  have k52: "k \<le> 52"
  proof (rule ccontr)
    assume "\<not> k \<le> 52"
    then have k: "53 \<le> nat k" "0 \<le> k" by auto
    then have "(2::nat) ^ 53 \<le> 2 ^ nat k"
      by (intro power_increasing) auto
    also have "\<dots> \<le> b * 2 ^ nat k" using b by simp
    also have "\<dots> \<le> a" using lower k by simp
    finally show False using small by simp
  qed
  then have e0: "e \<le> 0" by (simp add: e_def)
  have ndef: "nearest_double a b =
     (if 0 \<le> e \<and> 2 ^ 1024 \<le> (if 0 \<le> e then round_half_even a (b * 2 ^ nat e)
                    else round_half_even (a * 2 ^ nat (- e)) b) * 2 ^ nat e then None
      else Some (if 0 \<le> e then of_nat ((if 0 \<le> e then round_half_even a (b * 2 ^ nat e)
                    else round_half_even (a * 2 ^ nat (- e)) b) * 2 ^ nat e)
           else of_nat (if 0 \<le> e then round_half_even a (b * 2 ^ nat e)
                    else round_half_even (a * 2 ^ nat (- e)) b) / 2 ^ nat (- e)))"
    using a by (simp add: nearest_double_def Let_def k_def e_def)
  show ?thesis
  proof (cases "e = 0")
    case True
    then have k: "k = 52" using k52 by (simp add: e_def)
    then have "b * 2 ^ 52 \<le> a" using lower by simp
    then have b1: "b = 1" using small b by simp
    have "\<not> (2::nat) ^ 1024 \<le> a" using small by simp
    then have "nearest_double a b = Some (of_nat a)"
      using ndef by (simp add: True b1 round_half_even_one)
    then show ?thesis using b1 by simp
  next
    case False
    then have eneg: "e < 0" using e0 by simp
    define s where "s = nat (- e)"
    define m where "m = round_half_even (a * 2 ^ s) b"
    define n where "n = a div b"
    have nd: "nearest_double a b = Some (of_nat m / 2 ^ s)"
      unfolding ndef using eneg by (simp add: s_def m_def)
    have nb: "n * b \<le> a" and anb: "a < Suc n * b"
      using b by (simp_all add: n_def dividend_less_times_div mult.commute)
    have "(n * 2 ^ s) * b \<le> a * 2 ^ s"
      using nb by (simp add: mult.assoc mult.left_commute mult.commute)
    then have lo: "n * 2 ^ s \<le> m"
      unfolding m_def using b by (rule round_half_even_ge)
    have key: "2 * (a * 2 ^ s) < (2 * (Suc n * 2 ^ s) - 1) * b"
    proof (cases "- 1074 \<le> k - 52")
      case True
      then have ek: "e = k - 52" by (simp add: e_def)
      have bs: "b < 2 * 2 ^ s"
      proof (cases "0 \<le> k")
        case True
        then have "nat k + Suc s = 53" using ek eneg by (simp add: s_def)
        then have "(2::nat) ^ nat k * (2 * 2 ^ s) = 2 ^ 53"
          by (metis power_add power_Suc)
        moreover have "b * 2 ^ nat k < 2 ^ 53" using lower True small by simp
        ultimately have "b * 2 ^ nat k < (2 * 2 ^ s) * 2 ^ nat k"
          by (metis mult.commute)
        then show ?thesis using mult_less_cancel2 by blast
      next
        case F: False
        then have "53 + nat (- k) = Suc s" using ek by (simp add: s_def)
        then have "(2::nat) ^ 53 * 2 ^ nat (- k) = 2 * 2 ^ s"
          by (metis power_add power_Suc)
        moreover have "a * 2 ^ nat (- k) < 2 ^ 53 * 2 ^ nat (- k)"
          using small by (simp only: mult_less_cancel2) simp
        moreover have "b \<le> a * 2 ^ nat (- k)" using lower F by simp
        ultimately show ?thesis by linarith
      qed
      define P where "P = 2 ^ s * a"
      define Q where "Q = Suc n * 2 ^ s * b"
      have "Suc a \<le> Suc n * b" using anb by (rule Suc_leI)
      then have "2 ^ s * Suc a \<le> 2 ^ s * (Suc n * b)" by (rule mult_le_mono2)
      then have 1: "P + 2 ^ s \<le> Q" by (simp add: P_def Q_def algebra_simps)
      have 2: "(2 * (Suc n * 2 ^ s) - 1) * b = 2 * Q - b"
        by (simp add: Q_def diff_mult_distrib algebra_simps)
      have "2 * P < 2 * Q - b" using 1 bs by linarith
      then show ?thesis unfolding 2 by (simp add: P_def mult.commute)
    next
      case F: False
      then have ek: "e = - 1074" by (simp add: e_def)
      then have s: "s = 1074" by (simp add: s_def)
      have "k + 1 < 0" using F by simp
      then have "a * 2 ^ nat (- (k + 1)) < b" using upper by simp
      moreover have "(2::nat) ^ 1022 \<le> 2 ^ nat (- (k + 1))"
        using F by (intro power_increasing) auto
      then have "a * 2 ^ 1022 \<le> a * 2 ^ nat (- (k + 1))" by simp
      ultimately have ab: "a * 2 ^ 1022 < b" by linarith
      have "(2::nat) ^ 1074 = 2 ^ 1022 * 2 ^ 52" by (simp flip: power_add)
      then have "2 * (a * 2 ^ 1074) = (a * 2 ^ 1022) * 2 ^ 53" by simp
      also have "\<dots> < b * 2 ^ 53" using ab by simp
      also have "\<dots> \<le> b * (2 * (Suc n * 2 ^ 1074) - 1)"
      proof -
        have "(2::nat) ^ 53 \<le> 2 ^ 1074" by (intro power_increasing) auto
        also have "\<dots> \<le> Suc n * 2 ^ 1074" by simp
        finally have "(2::nat) ^ 53 \<le> 2 * (Suc n * 2 ^ 1074) - 1"
          by linarith
        then show ?thesis by simp
      qed
      finally show ?thesis by (simp add: s mult.commute)
    qed
    have hi: "m < Suc n * 2 ^ s"
      unfolding m_def by (rule round_half_even_lt[OF _ key]) simp
    have "m div 2 ^ s = n"
      using lo hi by (intro div_nat_eqI) (simp_all add: mult.commute)
    then have "\<lfloor>(of_nat m / 2 ^ s :: rat)\<rfloor> = int n"
      by (metis floor_divide_of_nat_eq of_nat_numeral of_nat_power)
    then show ?thesis using nd by (simp add: n_def)
  qed
qed

lemma floor_numeral_divide: "\<lfloor>(numeral a / numeral b :: rat)\<rfloor> = numeral a div numeral b"
  using floor_divide_of_int_eq[of "numeral a" "numeral b", where 'a = rat] by simp

section \<open>Evaluating the model\<close>

text \<open>The equations that the examples unfold.\<close>

lemmas filter_eval = is_ignored_keyword_def ignore_keywords_def ignore_keywords_exceptions_def
  cps_def sublist_code prefix_code

lemmas ex_defs = parse_episode_number_def patterns_def lit_def number_def number_body_def
  dot_number_def cps_def ascii_library_def ascii_lower_def ascii_digit_def convert_group_def
  py_float_decimal_def digits_nat_def is_integer_def py_int_of_float_def
  nearest_double_def floor_log2_quot_def round_half_even_def compute_floorlog Let_def
  floor_numeral_divide

section \<open>What a match of a pattern captures\<close>















lemma lang_digits:
  "ds \<in> lang L (Plus Digit) \<longleftrightarrow> ds \<noteq> [] \<and> (\<forall>c \<in> set ds. digit_value L c \<noteq> None)"
  by simp








section \<open>What the aggregation loop computes\<close>

lemma mset_insert_by_key: "mset (insert_by_key key x ys) = add_mset x (mset ys)"
  by (induction ys) simp_all

lemma mset_py_sorted_aux:
  "mset (foldl (\<lambda>acc x. insert_by_key key x acc) acc xs) = mset acc + mset xs"
  by (induction xs arbitrary: acc) (simp_all add: mset_insert_by_key)

lemma mset_py_sorted: "mset (py_sorted key xs) = mset xs"
  by (simp add: py_sorted_def mset_py_sorted_aux)

lemma map_filter_conv: "List.map_filter f xs = map (the \<circ> f) (filter (\<lambda>x. f x \<noteq> None) xs)"
  by (simp add: List.map_filter_def)

lemma mset_map_filter_cong:
  "mset xs = mset ys \<Longrightarrow> mset (List.map_filter f xs) = mset (List.map_filter f ys)"
  by (simp add: map_filter_conv)

lemma tally_eq:
  "tally stats vs (t, c, f, h) =
     (t + sum_list (samples_of stats vs), c + length (samples_of stats vs),
      (if f = VNone
       then (case vs of [] \<Rightarrow> VNone
             | v # _ \<Rightarrow> (case stats_get stats (item_id v) of None \<Rightarrow> VStr dashes | Some n \<Rightarrow> VInt n))
       else f),
      h \<or> samples_of stats vs \<noteq> [])"
proof (induction vs arbitrary: t c f h)
  case Nil
  then show ?case by (simp add: samples_of_def)
next
  case (Cons v vs)
  show ?case
  proof (cases "stats_get stats (item_id v)")
    case None
    then show ?thesis
      by (simp add: Cons.IH samples_of_def Let_def)
  next
    case (Some n)
    then show ?thesis
      by (simp add: Cons.IH samples_of_def Let_def)
  qed
qed

lemma samples_sorted:
  "mset (samples_of stats (py_sorted key vs)) = mset (samples_of stats vs)"
  unfolding samples_of_def by (rule mset_map_filter_cong) (rule mset_py_sorted)

lemma sum_samples_sorted:
  "sum_list (samples_of stats (py_sorted key vs)) = sum_list (samples_of stats vs)"
  by (metis samples_sorted sum_mset_sum_list)

lemma length_samples_sorted:
  "length (samples_of stats (py_sorted key vs)) = length (samples_of stats vs)"
  by (metis samples_sorted size_mset)

lemma samples_sorted_Nil:
  "samples_of stats (py_sorted key vs) = [] \<longleftrightarrow> samples_of stats vs = []"
  by (metis length_samples_sorted length_0_conv)

lemma int_of_truediv:
  assumes "0 \<le> a" and "a < 2 ^ 53" and "0 < n"
  shows "(case py_truediv a (int n) of Inl e \<Rightarrow> Inl e | Inr ratio \<Rightarrow> py_int_of_float ratio)
         = Inr (a div int n)"
proof (cases "a = 0")
  case True
  then show ?thesis using assms(3)
    by (simp add: py_truediv_def nearest_double_def py_int_of_float_def)
next
  case False
  then have pos: "0 < nat a" using assms(1) by simp
  have small: "nat a < 2 ^ 53" using assms(1,2) by (simp add: nat_less_iff)
  from nearest_double_floor[OF pos assms(3) small] obtain q where
    q: "nearest_double (nat a) n = Some q" "0 \<le> q" "\<lfloor>q\<rfloor> = int (nat a div n)" by blast
  have "int (nat a div n) = a div int n"
    using assms(1) by (simp add: zdiv_int)
  then show ?thesis using q assms(1,3) False
    by (simp add: py_truediv_def py_int_of_float_def)
qed

lemma summarise_eq:
  "summarise L valid_videos stats =
     (if samples_of stats valid_videos = [] then Inr default_result
      else case (case py_truediv (sum_list (samples_of stats valid_videos))
                        (int (length (samples_of stats valid_videos))) of
                   Inl e \<Rightarrow> Inl e
                 | Inr ratio \<Rightarrow> py_int_of_float ratio) of
             Inl e \<Rightarrow> Inl e
           | Inr avg_views \<Rightarrow>
               Inr \<lparr> avg = VInt avg_views,
                     total' = VInt (sum_list (samples_of stats valid_videos)),
                     first = (case stats_get stats (item_id (hd (py_sorted (episode_sort_key L) valid_videos))) of
                                None \<Rightarrow> VStr dashes | Some n \<Rightarrow> VInt n),
                     valid_count = VInt (int (length valid_videos)),
                     ep_count_update = VNone \<rparr>)"
proof (cases "samples_of stats valid_videos = []")
  case True
  then show ?thesis
    by (simp add: summarise_def tally_eq samples_sorted_Nil)
next
  case False
  then have ne: "py_sorted (episode_sort_key L) valid_videos \<noteq> []"
    by (metis samples_sorted_Nil samples_of_def map_filter_simps(1))
  then obtain v vs where vv: "py_sorted (episode_sort_key L) valid_videos = v # vs"
    by (cases "py_sorted (episode_sort_key L) valid_videos") auto
  have len: "0 < length (samples_of stats valid_videos)" using False by simp
  show ?thesis using False len
    unfolding summarise_def tally_eq sum_samples_sorted length_samples_sorted samples_sorted_Nil
    by (auto simp: vv default_result_def dashes_def split: sum.splits option.splits)
qed

section \<open>\<open>process_anime\<close> on fetched data, and the example worlds\<close>

lemma process_anime_summarise:
  assumes "\<not> quota_exceeded st"
    and "get_playlist_id L (link_url anime_item) = Some playlist_id" and "playlist_id \<noteq> []"
    and "get_playlist_items W playlist_id st = Some (Inr (Items items), st1)"
    and "offset_spec L (offset anime_item) = (offset_range, offset_string)"
    and "valid_videos =
          filter (\<lambda>item. keeps_title L offset_range offset_string (item_title item)) items"
    and "valid_videos \<noteq> []"
    and "get_video_stats W L (map item_id valid_videos) st1 = (Inr stats, st2)"
    and "\<not> quota_exceeded st2"
  shows "process_anime W L st anime_item =
     Some (case summarise L valid_videos stats of Inl e \<Rightarrow> Inl e | Inr r \<Rightarrow> Inr (Some r), st2)"
proof -
  have "items \<noteq> []" using assms(6,7) by auto
  then show ?thesis
    using assms(1-5,7-9) unfolding process_anime_def assms(6)
    by (simp add: Let_def split: sum.splits)
qed

lemmas world_eval = fixed_world_def start_state_def send_def check_quota_def playlist_page_def
  items_of_page_def get_playlist_items_def get_video_stats_def get_playlist_id_def
  example_anime_def ascii_library_def example_playlist_query_def cps_def

lemma example_playlist_id:
  "get_playlist_id ascii_library (link_url example_anime) = Some (cps ''PL1'')"
  "cps ''PL1'' \<noteq> []"
  "offset_spec ascii_library (offset example_anime) = (JNull, None)"
  "\<not> quota_exceeded start_state"
  by (simp_all add: world_eval offset_spec_def)

lemma hidden_playlist:
  "get_playlist_items hidden_world (cps ''PL1'') start_state =
     Some (Inr (Items [PlaylistItem (cps ''v1'') (cps ''Episode 1'')]),
           send (PlaylistItemsGet (cps ''PL1'') []) start_state)"
  unfolding get_playlist_items_def
  by (subst playlist_loop.simps) (simp add: hidden_world_def world_eval)

lemma hidden_stats:
  "get_video_stats hidden_world ascii_library [cps ''v1'']
     (send (PlaylistItemsGet (cps ''PL1'') []) start_state) =
     (Inr [cps ''v1'' \<mapsto> None],
      send (VideosGet [cps ''v1'']) (send (PlaylistItemsGet (cps ''PL1'') []) start_state))"
  by (simp add: hidden_world_def world_eval batches.simps)

lemma keeps_episodes:
  "keeps_title ascii_library JNull None (cps ''Episode 1'')"
  "keeps_title ascii_library JNull None (cps ''Episode 2'')"
  "keeps_title ascii_library JNull None (cps ''Episode 3'')"
  by (simp_all add: keeps_title_def filter_eval)

lemma views_playlist:
  "get_playlist_items views_world (cps ''PL1'') start_state =
     Some (Inr (Items [PlaylistItem (cps ''v1'') (cps ''Episode 1''),
                       PlaylistItem (cps ''v2'') (cps ''Episode 2''),
                       PlaylistItem (cps ''v3'') (cps ''Episode 3'')]),
           send (PlaylistItemsGet (cps ''PL1'') []) start_state)"
  unfolding get_playlist_items_def
  by (subst playlist_loop.simps) (simp add: views_world_def world_eval)

lemma views_stats:
  "get_video_stats views_world ascii_library [cps ''v1'', cps ''v2'', cps ''v3'']
     (send (PlaylistItemsGet (cps ''PL1'') []) start_state) =
     (Inr [cps ''v1'' \<mapsto> Some 100, cps ''v2'' \<mapsto> Some 200, cps ''v3'' \<mapsto> Some 300],
      send (VideosGet [cps ''v1'', cps ''v2'', cps ''v3''])
        (send (PlaylistItemsGet (cps ''PL1'') []) start_state))"
  by (simp add: views_world_def world_eval batches.simps ascii_int_def ascii_digit_def
      digits_nat_def)

lemma example_row: "row_idx ascii_library example_anime = Some 2"
  by (simp add: row_idx_def example_anime_def ascii_library_def ascii_int_def ascii_digit_def
      digits_nat_def cps_def)

section \<open>Videos that the statistics response leaves out\<close>

lemma read_video_items_omits:
  "read_video_items L now entries m = Inr m' \<Longrightarrow> m vid = None \<Longrightarrow>
     vid \<notin> video_id ` set entries \<Longrightarrow> m' vid = None"
proof (induction entries arbitrary: m)
  case Nil
  then show ?case by simp
next
  case (Cons item rest)
  from Cons.prems(3) have ne: "video_id item \<noteq> vid" and rest: "vid \<notin> video_id ` set rest"
    by auto
  from Cons.prems(1) obtain v where
    step: "read_video_items L now rest (m(video_id item \<mapsto> v)) = Inr m'"
    by (auto split: premiere.splits if_splits option.splits)
  have "(m(video_id item \<mapsto> v)) vid = None" using ne Cons.prems(2) by simp
  from Cons.IH[OF step this rest] show ?case .
qed

lemma stats_loop_omits:
  "stats_loop W L now bs m st = (Inr m', st') \<Longrightarrow> m vid = None \<Longrightarrow>
     (\<forall>n ids code doc. videos_api W n ids = Response code (Some doc)
         \<longrightarrow> vid \<notin> video_id ` set (video_entries doc)) \<Longrightarrow> m' vid = None"
proof (induction bs arbitrary: m st)
  case Nil
  then show ?case by simp
next
  case (Cons batch rest)
  show ?case
  proof (cases "videos_api W (length (sent st)) batch")
    case NoResponse
    then show ?thesis using Cons.prems(1) by (simp add: Let_def)
  next
    case (Response code body)
    obtain hit st2 where cq: "check_quota code (map_option videos_reasons body)
        (send (VideosGet batch) st) = (hit, st2)"
      by (cases "check_quota code (map_option videos_reasons body) (send (VideosGet batch) st)")
    show ?thesis
    proof (cases "hit")
      case True
      then show ?thesis using Cons.prems(1,2) Response cq by (simp add: Let_def)
    next
      case nohit: False
      show ?thesis
      proof (cases "code = 200")
        case False
        then have "stats_loop W L now rest m st2 = (Inr m', st')"
          using Cons.prems(1) Response cq nohit by (simp add: Let_def)
        from Cons.IH[OF this Cons.prems(2,3)] show ?thesis .
      next
        case True
        then obtain doc m1 where doc: "body = Some doc"
          and r: "read_video_items L now (video_entries doc) m = Inr m1"
          and l: "stats_loop W L now rest m1 st2 = (Inr m', st')"
          using Cons.prems(1) Response cq nohit
          by (auto simp: Let_def split: option.splits sum.splits)
        have "vid \<notin> video_id ` set (video_entries doc)"
          using Cons.prems(3) Response doc by blast
        from read_video_items_omits[OF r Cons.prems(2) this] have "m1 vid = None" .
        from Cons.IH[OF l this Cons.prems(3)] show ?thesis .
      qed
    qed
  qed
qed

lemma get_video_stats_omits:
  assumes "get_video_stats W L video_ids st = (Inr stats, st')"
    and "\<forall>n ids code doc. videos_api W n ids = Response code (Some doc)
         \<longrightarrow> vid \<notin> video_id ` set (video_entries doc)"
  shows "stats vid = None"
proof (cases "quota_exceeded st \<or> video_ids = []")
  case True
  then show ?thesis using assms(1) by (auto simp: get_video_stats_def)
next
  case False
  then have "stats_loop W L (now_utc W (length (sent st))) (batches video_ids) Map.empty st
      = (Inr stats, st')"
    using assms(1) by (simp add: get_video_stats_def)
  from stats_loop_omits[OF this _ assms(2)] show ?thesis by simp
qed

lemma stats_get_hidden: "stats vid = None \<Longrightarrow> stats_get (stats(vid \<mapsto> None)) = stats_get stats"
  by (auto simp: stats_get_def fun_eq_iff)

lemma tally_cong: "stats_get s1 = stats_get s2 \<Longrightarrow> tally s1 vs acc = tally s2 vs acc"
proof (induction vs arbitrary: acc)
  case Nil
  then show ?case by simp
next
  case (Cons v vs)
  obtain t c f h where acc: "acc = (t, c, f, h)" by (cases acc) auto
  show ?case unfolding acc using Cons by (simp add: Let_def split: option.splits)
qed

lemma summarise_cong: "stats_get s1 = stats_get s2 \<Longrightarrow> summarise L vs s1 = summarise L vs s2"
  by (simp add: summarise_def tally_cong[of s1 s2])

lemma samples_of_omitted:
  "stats vid = None \<Longrightarrow>
     samples_of stats vs = samples_of stats (filter (\<lambda>v. item_id v \<noteq> vid) vs)"
  by (induction vs) (auto simp: samples_of_def stats_get_def split: option.splits)

lemma omitted_playlist:
  "get_playlist_items omitted_world (cps ''PL1'') start_state =
     Some (Inr (Items [PlaylistItem (cps ''v1'') (cps ''Episode 1'')]),
           send (PlaylistItemsGet (cps ''PL1'') []) start_state)"
  unfolding get_playlist_items_def
  by (subst playlist_loop.simps) (simp add: omitted_world_def world_eval)

lemma omitted_stats:
  "get_video_stats omitted_world ascii_library [cps ''v1'']
     (send (PlaylistItemsGet (cps ''PL1'') []) start_state) =
     (Inr Map.empty,
      send (VideosGet [cps ''v1'']) (send (PlaylistItemsGet (cps ''PL1'') []) start_state))"
  by (simp add: omitted_world_def world_eval batches.simps)

lemma partly_omitted_stats:
  "get_video_stats partly_omitted_world ascii_library [cps ''v1'', cps ''v2'']
     (send (PlaylistItemsGet (cps ''PL1'') []) start_state) =
     (Inr [cps ''v2'' \<mapsto> Some 50],
      send (VideosGet [cps ''v1'', cps ''v2''])
        (send (PlaylistItemsGet (cps ''PL1'') []) start_state))"
  by (simp add: partly_omitted_world_def world_eval batches.simps ascii_int_def ascii_digit_def
      digits_nat_def)

lemma episode_keys:
  "episode_sort_key ascii_library (PlaylistItem v (cps ''Episode 1'')) = PInt 1"
  "episode_sort_key ascii_library (PlaylistItem v (cps ''Episode 2'')) = PInt 2"
  by (simp_all add: episode_sort_key_def ex_defs)

section \<open>The quota flag\<close>

subsection \<open>Every call respects the flag\<close>

lemma quiet_refl: "quiet st st"
  by (simp add: quiet_def)

lemma quiet_trans: "quiet a b \<Longrightarrow> quiet b c \<Longrightarrow> quiet a c"
  unfolding quiet_def by (elim conjE exE) (rule conjI, rule_tac x = "new @ newa" in exI, auto)

lemma quiet_send_other: "\<not> is_fetch r \<Longrightarrow> quiet st (send r st)"
  by (simp add: quiet_def send_def)

lemma quiet_send_down: "\<not> quota_exceeded st \<Longrightarrow> quiet st (send r st)"
  by (simp add: quiet_def send_def)

lemma send_flag: "quota_exceeded (send r st) = quota_exceeded st"
  by (simp add: send_def)

lemma check_quota_quiet:
  "check_quota code reasons st = (hit, st') \<Longrightarrow>
     quiet st st' \<and> (hit \<longrightarrow> quota_exceeded st') \<and> (\<not> hit \<longrightarrow> st' = st)"
  by (auto simp: check_quota_def quiet_def split: if_splits option.splits)

lemma playlist_page_quiet:
  assumes "\<not> quota_exceeded st"
    and "playlist_page W playlist_id st items token = (r, st')"
  shows "quiet st st' \<and> ((\<exists>x. r = Inr x) \<longrightarrow> \<not> quota_exceeded st')"
proof (cases "playlist_items_api W (length (sent st)) playlist_id token")
  case NoResponse
  then show ?thesis using assms by (auto simp: playlist_page_def quiet_send_down)
next
  case (Response code body)
  let ?st1 = "send (PlaylistItemsGet playlist_id token) st"
  obtain hit st2 where c: "check_quota code (map_option playlist_reasons body) ?st1 = (hit, st2)"
    by (cases "check_quota code (map_option playlist_reasons body) ?st1")
  note q = check_quota_quiet[OF c]
  have q1: "quiet st ?st1" using assms(1) by (rule quiet_send_down)
  have q2: "quiet st st2" using q1 q by (blast intro: quiet_trans)
  have st': "st' = st2"
    using assms(2) Response c
    by (auto simp: playlist_page_def Let_def split: if_splits option.splits)
  have "(\<exists>x. r = Inr x) \<longrightarrow> \<not> hit"
    using assms(2) Response c
    by (auto simp: playlist_page_def Let_def split: if_splits option.splits)
  then have "(\<exists>x. r = Inr x) \<longrightarrow> \<not> quota_exceeded st'"
    using q assms(1) st' by (auto simp: send_flag)
  then show ?thesis using q2 st' by simp
qed

lemma playlist_loop_quiet:
  assumes run: "playlist_loop W playlist_id st items token = Some y"
  shows "\<not> quota_exceeded st \<longrightarrow> quiet st (snd y)"
proof (rule playlist_loop.raw_induct[where P = "\<lambda>W playlist_id st items token y.
          \<not> quota_exceeded st \<longrightarrow> quiet st (snd y)", OF _ run])
  fix loop W playlist_id st items token y
  assume IH: "\<And>W playlist_id st items token y.
      loop W playlist_id st items token = Some y \<Longrightarrow> \<not> quota_exceeded st \<longrightarrow> quiet st (snd y)"
    and eq: "(case playlist_page W playlist_id st items token of
                (Inl outcome, st') \<Rightarrow> Some (outcome, st')
              | (Inr (items', token'), st') \<Rightarrow> loop W playlist_id st' items' token') = Some y"
  show "\<not> quota_exceeded st \<longrightarrow> quiet st (snd y)"
  proof
    assume down: "\<not> quota_exceeded st"
    obtain r st1 where p: "playlist_page W playlist_id st items token = (r, st1)"
      by (cases "playlist_page W playlist_id st items token")
    note q = playlist_page_quiet[OF down p]
    show "quiet st (snd y)"
    proof (cases r)
      case (Inl outcome)
      then show ?thesis using eq p q by auto
    next
      case (Inr x)
      obtain items' token' where x: "x = (items', token')" by (cases x)
      have l: "loop W playlist_id st1 items' token' = Some y"
        using eq p Inr x by simp
      have "\<not> quota_exceeded st1" using q Inr by simp
      with IH[OF l] have "quiet st1 (snd y)" by simp
      with q show ?thesis by (blast intro: quiet_trans)
    qed
  qed
qed

lemma get_playlist_items_quiet:
  "get_playlist_items W playlist_id st = Some (r, st') \<Longrightarrow> quiet st st'"
  using playlist_loop_quiet[of W playlist_id st "[]" "[]" "(r, st')"]
  by (auto simp: get_playlist_items_def quiet_refl split: if_splits)

lemma stats_loop_quiet:
  "\<not> quota_exceeded st \<Longrightarrow> stats_loop W L now bs m st = (r, st') \<Longrightarrow> quiet st st'"
proof (induction bs arbitrary: m st)
  case Nil
  then show ?case by (simp add: quiet_refl)
next
  case (Cons batch rest)
  let ?st1 = "send (VideosGet batch) st"
  have q1: "quiet st ?st1" using Cons.prems(1) by (rule quiet_send_down)
  show ?case
  proof (cases "videos_api W (length (sent st)) batch")
    case NoResponse
    then show ?thesis using Cons.prems q1 by (auto simp: Let_def)
  next
    case (Response code body)
    obtain hit st2 where c: "check_quota code (map_option videos_reasons body) ?st1 = (hit, st2)"
      by (cases "check_quota code (map_option videos_reasons body) ?st1")
    note q = check_quota_quiet[OF c]
    have q2: "quiet st st2" using q1 q by (blast intro: quiet_trans)
    show ?thesis
    proof (cases hit)
      case True
      then show ?thesis using Cons.prems(2) Response c q2 by (simp add: Let_def)
    next
      case False
      then have d: "\<not> quota_exceeded st2" using q Cons.prems(1) by (simp add: send_flag)
      have "st' = st2 \<or> (\<exists>m'. stats_loop W L now rest m' st2 = (r, st'))"
        using Cons.prems(2) Response c False
        by (auto simp: Let_def split: if_splits option.splits sum.splits)
      then show ?thesis
      proof
        assume "st' = st2" then show ?thesis using q2 by simp
      next
        assume "\<exists>m'. stats_loop W L now rest m' st2 = (r, st')"
        then obtain m' where "stats_loop W L now rest m' st2 = (r, st')" ..
        from Cons.IH[OF d this] q2 show ?thesis by (blast intro: quiet_trans)
      qed
    qed
  qed
qed

lemma get_video_stats_quiet:
  "get_video_stats W L video_ids st = (r, st') \<Longrightarrow> quiet st st'"
  using stats_loop_quiet[of st W L _ "batches video_ids" Map.empty r st']
  by (auto simp: get_video_stats_def quiet_refl split: if_splits)

lemma process_anime_quiet:
  assumes "process_anime W L st anime_item = Some (r, st')"
  shows "quiet st st'"
proof -
  have "st' = st \<or> (\<exists>playlist_id r1 st1. get_playlist_items W playlist_id st = Some (r1, st1)
      \<and> (st' = st1 \<or> (\<exists>ids r2. get_video_stats W L ids st1 = (r2, st'))))"
    using assms unfolding process_anime_def Let_def
    by (auto split: if_splits prod.splits option.splits sum.splits playlist_result.splits)
  then show ?thesis
    by (auto intro: quiet_refl quiet_trans get_playlist_items_quiet get_video_stats_quiet)
qed


lemma read_region_quiet:
  "read_region W L anime_list st acc = Some (r, st') \<Longrightarrow> quiet st st'"
proof (induction anime_list arbitrary: st acc)
  case Nil
  then show ?case by (simp add: quiet_refl)
next
  case (Cons a rest)
  obtain rr sm cm where acc: "acc = (rr, sm, cm)" by (cases acc) auto
  have "st' = st \<or> (\<exists>r1 st1. process_anime W L st a = Some (r1, st1)
      \<and> (st' = st1 \<or> (\<exists>acc'. read_region W L rest st1 acc' = Some (r, st'))))"
    using Cons.prems unfolding acc
    by (auto simp: Let_def split: if_splits option.splits sum.splits prod.splits)
  then show ?case
    by (auto intro: quiet_refl quiet_trans process_anime_quiet Cons.IH)
qed

lemma process_regions_quiet:
  "process_regions W L regions st run = Some (r, st') \<Longrightarrow> quiet st st'"
proof (induction regions arbitrary: st run)
  case Nil
  then show ?case by (simp add: quiet_refl)
next
  case (Cons region regions)
  obtain region_name anime_list where region: "region = (region_name, anime_list)"
    by (cases region)
  obtain b m s c where run: "run = (b, m, s, c)" by (cases run) auto
  have "\<exists>r1 st1. read_region W L anime_list st ([], s, c) = Some (r1, st1)
      \<and> (st' = st1 \<or> (\<exists>run'. process_regions W L regions st1 run' = Some (r, st')))"
    using Cons.prems unfolding region run
    by (auto split: option.splits sum.splits prod.splits)
  then show ?case
    by (auto intro: quiet_trans read_region_quiet Cons.IH)
qed

lemma write_sheet_quiet: "quiet st (write_sheet W ss_id sheet_name batch st)"
proof -
  have g: "\<And>a st. quiet st (send (GasPost ss_id a) st)"
    by (rule quiet_send_other) (simp add: is_fetch_def)
  show ?thesis
    unfolding write_sheet_def batch_update_def sort_data_def
    by (auto simp: quiet_refl g split: sum.splits option.splits intro: quiet_trans[OF g g])
qed

lemma process_single_sheet_quiet:
  assumes "process_single_sheet W L ss_id sheet_name st = Some (r, st')"
  shows "quiet st st'"
proof -
  let ?st0 = "send (GasPost ss_id (GetSheetData sheet_name)) st"
  have q0: "quiet st ?st0" by (rule quiet_send_other) (simp add: is_fetch_def)
  have "st' = ?st0
      \<or> (\<exists>sheet r1 st1. process_regions W L sheet ?st0 ([], Map.empty, [], []) = Some (r1, st1)
            \<and> (st' = st1 \<or> (\<exists>batch. st' = write_sheet W ss_id sheet_name batch st1)))"
    using assms unfolding process_single_sheet_def get_sheet_data_def
    by (auto split: if_splits option.splits sum.splits prod.splits)
  then have "quiet ?st0 st'"
    by (auto intro: quiet_refl quiet_trans process_regions_quiet write_sheet_quiet)
  with q0 show ?thesis by (rule quiet_trans)
qed

lemma process_sheets_quiet:
  "process_sheets W L ss_id sheets st = Some (r, st') \<Longrightarrow> quiet st st'"
proof (induction sheets arbitrary: st)
  case Nil
  then show ?case by (simp add: quiet_refl)
next
  case (Cons sheet_name rest)
  have "st' = st \<or> (\<exists>r1 st1. process_single_sheet W L ss_id sheet_name st = Some (r1, st1)
      \<and> (st' = st1 \<or> process_sheets W L ss_id rest st1 = Some (r, st')))"
    using Cons.prems by (auto split: if_splits option.splits sum.splits prod.splits)
  then show ?case
    by (auto intro: quiet_refl quiet_trans process_single_sheet_quiet Cons.IH)
qed

lemma process_spreadsheets_quiet:
  "process_spreadsheets W L key ids st = Some (r, st') \<Longrightarrow> quiet st st'"
proof (induction ids arbitrary: st)
  case Nil
  then show ?case by (simp add: quiet_refl)
next
  case (Cons ss_id rest)
  let ?st1 = "send (GasPost ss_id GetSchedule) st"
  have q1: "quiet st ?st1" by (rule quiet_send_other) (simp add: is_fetch_def)
  show ?case
  proof (cases "ss_id = []")
    case True
    then show ?thesis using Cons by simp
  next
    case False
    have "st' = ?st1 \<or> (\<exists>sheets r2 st2. process_sheets W L ss_id sheets ?st1 = Some (r2, st2)
        \<and> (st' = st2 \<or> process_spreadsheets W L key rest st2 = Some (r, st')))"
      using Cons.prems False
      by (auto simp: get_schedule_def split: option.splits sum.splits prod.splits)
    then have "quiet ?st1 st'"
      by (auto intro: quiet_refl quiet_trans process_sheets_quiet Cons.IH)
    with q1 show ?thesis by (rule quiet_trans)
  qed
qed

lemma update_times_quiet:
  "update_times W time_str ids st = (r, st') \<Longrightarrow> quiet st st'"
proof (induction ids arbitrary: st)
  case Nil
  then show ?case by (simp add: quiet_refl)
next
  case (Cons ss_id rest)
  let ?st1 = "send (GasPost ss_id (UpdateTimestamp time_str)) st"
  have q1: "quiet st ?st1" by (rule quiet_send_other) (simp add: is_fetch_def)
  show ?case
  proof (cases "ss_id = []")
    case True
    then show ?thesis using Cons by simp
  next
    case False
    have "st' = ?st1 \<or> update_times W time_str rest ?st1 = (r, st')"
      using Cons.prems False
      by (auto simp: update_system_time_def split: option.splits sum.splits prod.splits)
    then have "quiet ?st1 st'"
      by (auto intro: quiet_refl Cons.IH)
    with q1 show ?thesis by (rule quiet_trans)
  qed
qed

lemma main_quiet:
  assumes "main W L ids st = Some st'"
  shows "quiet st st'"
proof -
  have t: "\<And>n st. quiet st (send (TelegramPost n) st)"
    by (rule quiet_send_other) (simp add: is_fetch_def)
  have h: "\<And>st. quiet st (send HeartbeatGet st)"
    by (rule quiet_send_other) (simp add: is_fetch_def)
  obtain r1 st1 where p: "process_spreadsheets W L (today_key W (length (sent st))) ids st
      = Some (r1, st1)"
    using assms unfolding main_def by (auto split: option.splits)
  note q1 = process_spreadsheets_quiet[OF p]
  show ?thesis
  proof (cases r1)
    case (Inl e)
    then have "st' = send (TelegramPost (RunError e)) st1"
      using assms p by (simp add: main_def)
    then show ?thesis using q1 t by (blast intro: quiet_trans)
  next
    case (Inr u)
    obtain r2 st2 where u: "update_times W (now_str W (length (sent st1))) ids st1 = (r2, st2)"
      by (cases "update_times W (now_str W (length (sent st1))) ids st1")
    note q2 = quiet_trans[OF q1 update_times_quiet[OF u]]
    have "(\<exists>n. st' = send (TelegramPost n) st2) \<or> st' = send HeartbeatGet st2"
      using assms p Inr u by (cases r2) (auto simp: main_def)
    then show ?thesis using q2 t h by (blast intro: quiet_trans)
  qed
qed

subsection \<open>Under the flag the run ends\<close>

lemma read_region_quota:
  "quota_exceeded st \<Longrightarrow>
     read_region W L anime_list st acc =
       Some (if anime_list = [] then Inr (Some acc) else Inr None, st)"
  by (cases anime_list; cases acc) auto

lemma process_regions_quota:
  "quota_exceeded st \<Longrightarrow> \<exists>r. process_regions W L regions st run = Some (Inr r, st)"
proof (induction regions arbitrary: run)
  case Nil
  then show ?case by simp
next
  case (Cons region regions)
  obtain region_name anime_list where region: "region = (region_name, anime_list)"
    by (cases region)
  obtain b m s c where run: "run = (b, m, s, c)" by (cases run) auto
  show ?case
  proof (cases "anime_list = []")
    case True
    obtain b' m' where p: "plan_region (rank_map []) [] (b, m) = (b', m')" by simp
    show ?thesis
      using Cons.IH[OF Cons.prems, of "(b', m', s, c)"] Cons.prems True p
      by (simp add: region run read_region_quota)
  next
    case False
    then show ?thesis using Cons.prems by (simp add: region run read_region_quota)
  qed
qed

lemma process_single_sheet_quota:
  assumes "quota_exceeded st"
  shows "process_single_sheet W L ss_id sheet_name st
           = Some (Inr (), send (GasPost ss_id (GetSheetData sheet_name)) st)"
proof -
  let ?st0 = "send (GasPost ss_id (GetSheetData sheet_name)) st"
  have q0: "quota_exceeded ?st0" using assms by (simp add: send_flag)
  have w: "\<And>batch. write_sheet W ss_id sheet_name batch ?st0 = ?st0"
    using q0 by (simp add: write_sheet_def)
  have c: "\<And>sheet run. comprehensive L sheet ?st0 run = Inr (fst run)"
    using q0 by (auto simp: comprehensive_def split: prod.splits)
  show ?thesis
  proof (cases "call (sheet_data_api W (length (sent st)) ss_id sheet_name)")
    case (Inl e)
    then show ?thesis by (simp add: process_single_sheet_def get_sheet_data_def)
  next
    case (Inr d)
    show ?thesis
    proof (cases d)
      case None
      then show ?thesis using Inr by (simp add: process_single_sheet_def get_sheet_data_def)
    next
      case (Some sheet)
      obtain r where "process_regions W L sheet ?st0 ([], Map.empty, [], []) = Some (Inr r, ?st0)"
        using process_regions_quota[OF q0] by blast
      then show ?thesis
        using Inr Some
        by (cases r) (simp_all add: process_single_sheet_def get_sheet_data_def c w)
    qed
  qed
qed

lemma process_sheets_quota:
  "quota_exceeded st \<Longrightarrow>
     process_sheets W L ss_id sheets st = Some (if sheets = [] then Inr () else Inl QuotaFull, st)"
  by (cases sheets) simp_all

lemma process_spreadsheets_quota:
  "quota_exceeded st \<Longrightarrow> \<exists>r st'. process_spreadsheets W L key ids st = Some (r, st')"
proof (induction ids arbitrary: st)
  case Nil
  then show ?case by simp
next
  case (Cons ss_id rest)
  let ?st1 = "send (GasPost ss_id GetSchedule) st"
  have q1: "quota_exceeded ?st1" using Cons.prems by (simp add: send_flag)
  show ?case
  proof (cases "ss_id = []")
    case True
    then show ?thesis using Cons by simp
  next
    case False
    show ?thesis
    proof (cases "call (schedule_api W (length (sent st)) ss_id)")
      case (Inl e)
      then show ?thesis using False by (simp add: get_schedule_def)
    next
      case (Inr d)
      show ?thesis
      proof (cases d)
        case None
        then show ?thesis using False Inr by (simp add: get_schedule_def)
      next
        case (Some schedule)
        show ?thesis
          using False Inr Some Cons.IH[OF q1]
          by (simp add: get_schedule_def process_sheets_quota[OF q1])
      qed
    qed
  qed
qed

lemma main_quota:
  assumes "quota_exceeded st"
  shows "\<exists>st'. main W L ids st = Some st'"
proof -
  obtain r st1 where "process_spreadsheets W L (today_key W (length (sent st))) ids st = Some (r, st1)"
    using process_spreadsheets_quota[OF assms] by blast
  then show ?thesis
    unfolding main_def by (auto split: sum.splits prod.splits)
qed

subsection \<open>A run that exhausts the quota\<close>

lemma quota_world_playlist:
  assumes "\<not> quota_exceeded st"
  shows "get_playlist_items quota_world (cps ''PL1'') st =
     Some (Inr (Items [PlaylistItem (cps ''v1'') (cps ''Episode 1'')]),
           send (PlaylistItemsGet (cps ''PL1'') []) st)"
  unfolding get_playlist_items_def using assms
  by (subst playlist_loop.simps)
     (simp add: quota_world_def playlist_page_def check_quota_def items_of_page_def
        List.map_filter_simps cps_def)

lemma quota_world_stats:
  assumes "\<not> quota_exceeded st"
  shows "get_video_stats quota_world ascii_library [cps ''v1''] st =
     (Inr Map.empty, (send (VideosGet [cps ''v1'']) st)\<lparr>quota_exceeded := True\<rparr>)"
  using assms
  by (simp add: get_video_stats_def batches.simps quota_world_def check_quota_def cps_def)

lemma quota_world_anime:
  assumes "\<not> quota_exceeded st"
  shows "process_anime quota_world ascii_library st example_anime =
     Some (Inr None, (send (VideosGet [cps ''v1''])
                        (send (PlaylistItemsGet (cps ''PL1'') []) st))\<lparr>quota_exceeded := True\<rparr>)"
proof -
  have d: "\<not> quota_exceeded (send (PlaylistItemsGet (cps ''PL1'') []) st)"
    using assms by (simp add: send_flag)
  show ?thesis
    using assms
    by (simp add: process_anime_def example_playlist_id quota_world_playlist[OF assms]
        keeps_episodes quota_world_stats[OF d])
qed


lemma quota_world_sheet:
  assumes "\<not> quota_exceeded st"
  shows "process_single_sheet quota_world ascii_library ss_id (cps ''S'') st =
     Some (Inr (), (send (VideosGet [cps ''v1''])
                      (send (PlaylistItemsGet (cps ''PL1'') [])
                         (send (GasPost ss_id (GetSheetData (cps ''S''))) st)))
                   \<lparr>quota_exceeded := True\<rparr>)"
proof -
  let ?st0 = "send (GasPost ss_id (GetSheetData (cps ''S''))) st"
  let ?st1 = "(send (VideosGet [cps ''v1''])
                 (send (PlaylistItemsGet (cps ''PL1'') []) ?st0))\<lparr>quota_exceeded := True\<rparr>"
  have d: "\<not> quota_exceeded ?st0" using assms by (simp add: send_flag)
  have c: "comp_rank_cell example_anime = None" by (simp add: example_anime_def)
  have r: "read_region quota_world ascii_library [example_anime, example_anime] ?st0 ([], [], [])
      = Some (Inr None, ?st1)"
    using d by (simp add: example_row c quota_world_anime[OF d])
  have g: "get_sheet_data quota_world ss_id (cps ''S'') st
      = (Inr (Some [(cps ''R1'', [example_anime, example_anime])]), ?st0)"
    by (simp add: get_sheet_data_def quota_world_def call_def)
  show ?thesis
    unfolding process_single_sheet_def g using r by simp
qed

lemma quota_world_schedule:
  "get_schedule quota_world ss_id st
     = (Inr (Some [(cps ''0'', [cps ''S''])]), send (GasPost ss_id GetSchedule) st)"
  "target_sheets [(cps ''0'', [cps ''S''])] (today_key quota_world n) = [cps ''S'']"
  by (simp_all add: get_schedule_def quota_world_def call_def target_sheets_def cps_def)

lemma quota_world_main:
  "main quota_world ascii_library [cps ''X'', cps ''Y''] start_state = Some quota_run_end"
proof -
  let ?st1 = "send (GasPost (cps ''X'') GetSchedule) start_state"
  let ?st2 = "(send (VideosGet [cps ''v1''])
                 (send (PlaylistItemsGet (cps ''PL1'') [])
                    (send (GasPost (cps ''X'') (GetSheetData (cps ''S''))) ?st1)))
              \<lparr>quota_exceeded := True\<rparr>"
  let ?st3 = "send (GasPost (cps ''Y'') GetSchedule) ?st2"
  have d: "\<not> quota_exceeded ?st1" by (simp add: send_flag start_state_def)
  have n: "cps ''X'' \<noteq> []" "cps ''Y'' \<noteq> []" by (simp_all add: cps_def)
  have s1: "process_sheets quota_world ascii_library (cps ''X'') [cps ''S''] ?st1
      = Some (Inr (), ?st2)"
    using d by (simp add: quota_world_sheet[OF d])
  have s2: "process_sheets quota_world ascii_library (cps ''Y'') [cps ''S''] ?st3
      = Some (Inl QuotaFull, ?st3)"
    by (simp add: send_flag)
  have p: "process_spreadsheets quota_world ascii_library
      (today_key quota_world (length (sent start_state))) [cps ''X'', cps ''Y''] start_state
      = Some (Inl QuotaFull, ?st3)"
    using n by (simp add: quota_world_schedule s1 s2 del: process_sheets.simps)
  show ?thesis
    unfolding main_def p by (simp add: send_def start_state_def quota_run_end_def)
qed

section \<open>The ignore-keyword check and its exceptions\<close>

lemma ignored_loop_iff:
  "ignored_loop excs kws title \<longleftrightarrow>
     (\<exists>kw \<in> set kws. sublist kw title \<and>
        (case map_of excs kw of None \<Rightarrow> True
         | Some exceptions \<Rightarrow> \<not> list_ex (\<lambda>exc. sublist exc title) exceptions))"
  by (induction kws) (auto split: option.splits)

text \<open>
  Claim C6, as amended. A title that contains an exception substring registered for an
  ignore keyword, and no occurrence of any other ignore keyword, is not ignored: the
  exception suppresses its own keyword only. (As stated in the specification, adding the
  exception always turns an excluded title into an included one; the loop of
  \<open>is_ignored_keyword\<close> goes on to the remaining keywords, so it does not.)
\<close>

theorem ignore_exception_reverses:
  assumes "map_of ignore_keywords_exceptions kw = Some exceptions"
    and "exc \<in> set exceptions"
    and "\<forall>kw' \<in> set ignore_keywords. kw' \<noteq> kw \<longrightarrow> \<not> sublist kw' (pre @ exc @ post)"
  shows "\<not> is_ignored_keyword (pre @ exc @ post)"
proof
  assume "is_ignored_keyword (pre @ exc @ post)"
  then obtain kw' where kw': "kw' \<in> set ignore_keywords" "sublist kw' (pre @ exc @ post)"
    and unexcepted: "case map_of ignore_keywords_exceptions kw' of None \<Rightarrow> True
        | Some es \<Rightarrow> \<not> list_ex (\<lambda>e. sublist e (pre @ exc @ post)) es"
    unfolding is_ignored_keyword_def ignored_loop_iff by blast
  from kw' assms(3) have "kw' = kw" by blast
  with unexcepted assms(1) have "\<not> list_ex (\<lambda>e. sublist e (pre @ exc @ post)) exceptions"
    by simp
  moreover have "sublist exc (pre @ exc @ post)" by (rule sublist_appendI)
  ultimately show False using assms(2) by (auto simp: list_ex_iff)
qed

text \<open>
  The title \<open>Show CM\<close> is ignored; with the exception registered for \<open>CM\<close> appended it is
  kept.
\<close>

theorem ignore_exception_reverses_witness:
  "is_ignored_keyword (cps ''Show CM'')
   \<and> \<not> is_ignored_keyword (cps ''Show CM'' @ (cps ''testCM'' @ [21205, 30059, 21517, 31281]) @ [])"
proof -
  have 1: "map_of ignore_keywords_exceptions (cps ''CM'')
      = Some [cps ''testCM'' @ [21205, 30059, 21517, 31281]]"
    by (simp add: ignore_keywords_exceptions_def)
  have 2: "cps ''testCM'' @ [21205, 30059, 21517, 31281]
      \<in> set [cps ''testCM'' @ [21205, 30059, 21517, 31281]]"
    by simp
  have 3: "\<forall>kw' \<in> set ignore_keywords. kw' \<noteq> cps ''CM'' \<longrightarrow>
      \<not> sublist kw' (cps ''Show CM'' @ (cps ''testCM'' @ [21205, 30059, 21517, 31281]) @ [])"
    by (simp add: filter_eval)
  have 4: "is_ignored_keyword (cps ''Show CM'')"
    by (simp add: filter_eval)
  show ?thesis
    using ignore_exception_reverses[OF 1 2 3] 4 by simp
qed

text \<open>
  The title \<open>CM Preview\<close> is ignored, \<open>CM\<close> is the first keyword of the list that it
  contains, and \<open>CM\<close> has a registered exception; with that exception appended the title
  is still ignored, because of the keyword \<open>Preview\<close>.
\<close>

theorem ignore_exception_counterexample:
  "is_ignored_keyword (cps ''CM Preview'')
   \<and> \<not> ignored_loop ignore_keywords_exceptions
         (takeWhile (\<lambda>kw. kw \<noteq> cps ''CM'') ignore_keywords) (cps ''CM Preview'')
   \<and> sublist (cps ''CM'') (cps ''CM Preview'')
   \<and> map_of ignore_keywords_exceptions (cps ''CM'')
        = Some [cps ''testCM'' @ [21205, 30059, 21517, 31281]]
   \<and> is_ignored_keyword (cps ''CM Preview'' @ cps ''testCM'' @ [21205, 30059, 21517, 31281])"
  by (simp add: filter_eval)

section \<open>The episode parser\<close>



text \<open>The examples of the specification.\<close>

lemma parse_episode_number_examples:
  "parse_episode_number ascii_library (cps ''Episode 05'') = Some (PInt 5)"
  "parse_episode_number ascii_library ([0x7B2C] @ cps ''1.0'' @ [0x8A71]) = Some (PInt 1)"
  "parse_episode_number ascii_library ([0x7B2C] @ cps ''1.5'' @ [0x8A71]) = Some (PFloat (Finite (3 / 2)))"
  "parse_episode_number ascii_library (cps ''my show ep.12'') = Some (PInt 12)"
  by (simp_all add: ex_defs)

section \<open>The offset cell\<close>




section \<open>The aggregate of a series\<close>

text \<open>
  Claim C1, as amended. Let the playlist of a series be fetched, let \<open>valid_videos\<close> be the
  items that pass the filter (at least one), and let their statistics be fetched without
  the quota flag going up. If no surviving item has a real integer sample, the aggregate
  has the no-data marker as average, total and first-episode value, and its
  \<open>valid_count\<close> is 0 (the specification has the number of surviving items here). If at
  least one real sample exists and the total is non-negative and below \<open>2\<^sup>5\<^sup>3\<close>, the total is
  the sum of the real samples, the average is the floor of the total divided by the number
  of real samples, and \<open>valid_count\<close> is the number of surviving items.
\<close>

theorem process_anime_average:
  assumes "\<not> quota_exceeded st"
    and "get_playlist_id L (link_url anime_item) = Some playlist_id" and "playlist_id \<noteq> []"
    and "get_playlist_items W playlist_id st = Some (Inr (Items items), st1)"
    and "offset_spec L (offset anime_item) = (offset_range, offset_string)"
    and "valid_videos =
          filter (\<lambda>item. keeps_title L offset_range offset_string (item_title item)) items"
    and "valid_videos \<noteq> []"
    and "get_video_stats W L (map item_id valid_videos) st1 = (Inr stats, st2)"
    and "\<not> quota_exceeded st2"
  shows "(samples_of stats valid_videos = [] \<longrightarrow>
            (\<exists>r. process_anime W L st anime_item = Some (Inr (Some r), st2)
                 \<and> avg r = VStr dashes \<and> total' r = VStr dashes \<and> first r = VStr dashes
                 \<and> valid_count r = VInt 0))
       \<and> (samples_of stats valid_videos \<noteq> []
            \<and> 0 \<le> sum_list (samples_of stats valid_videos)
            \<and> sum_list (samples_of stats valid_videos) < 2 ^ 53 \<longrightarrow>
            (\<exists>r. process_anime W L st anime_item = Some (Inr (Some r), st2)
                 \<and> total' r = VInt (sum_list (samples_of stats valid_videos))
                 \<and> avg r = VInt (sum_list (samples_of stats valid_videos)
                                   div int (length (samples_of stats valid_videos)))
                 \<and> valid_count r = VInt (int (length valid_videos))))"
proof (intro conjI impI)
  assume "samples_of stats valid_videos = []"
  then have "summarise L valid_videos stats = Inr default_result"
    by (simp add: summarise_eq)
  then show "\<exists>r. process_anime W L st anime_item = Some (Inr (Some r), st2)
      \<and> avg r = VStr dashes \<and> total' r = VStr dashes \<and> first r = VStr dashes
      \<and> valid_count r = VInt 0"
    unfolding process_anime_summarise[OF assms] by (simp add: default_result_def)
next
  assume a: "samples_of stats valid_videos \<noteq> []
      \<and> 0 \<le> sum_list (samples_of stats valid_videos)
      \<and> sum_list (samples_of stats valid_videos) < 2 ^ 53"
  then have len: "0 < length (samples_of stats valid_videos)" by simp
  have d: "(case py_truediv (sum_list (samples_of stats valid_videos))
                 (int (length (samples_of stats valid_videos))) of
              Inl e \<Rightarrow> Inl e | Inr ratio \<Rightarrow> py_int_of_float ratio)
      = Inr (sum_list (samples_of stats valid_videos)
               div int (length (samples_of stats valid_videos)))"
    using a len by (intro int_of_truediv) simp_all
  show "\<exists>r. process_anime W L st anime_item = Some (Inr (Some r), st2)
      \<and> total' r = VInt (sum_list (samples_of stats valid_videos))
      \<and> avg r = VInt (sum_list (samples_of stats valid_videos)
                        div int (length (samples_of stats valid_videos)))
      \<and> valid_count r = VInt (int (length valid_videos))"
    unfolding process_anime_summarise[OF assms] summarise_eq d using a by simp
qed

text \<open>
  One hidden video gives the no-data aggregate with \<open>valid_count\<close> 0; three videos with
  100, 200 and 300 views give total 600, average 200 and \<open>valid_count\<close> 3.
\<close>

theorem process_anime_average_witness:
  "(\<exists>r. process_anime hidden_world ascii_library start_state example_anime =
          Some (Inr (Some r),
                send (VideosGet [cps ''v1''])
                  (send (PlaylistItemsGet (cps ''PL1'') []) start_state))
        \<and> avg r = VStr dashes \<and> total' r = VStr dashes \<and> first r = VStr dashes
        \<and> valid_count r = VInt 0)
   \<and> (\<exists>r. process_anime views_world ascii_library start_state example_anime =
          Some (Inr (Some r),
                send (VideosGet [cps ''v1'', cps ''v2'', cps ''v3''])
                  (send (PlaylistItemsGet (cps ''PL1'') []) start_state))
        \<and> total' r = VInt 600 \<and> avg r = VInt 200 \<and> valid_count r = VInt 3)"
proof -
  have q: "\<And>rs. \<not> quota_exceeded (send rs (send (PlaylistItemsGet (cps ''PL1'') []) start_state))"
    by (simp add: send_def start_state_def)
  have v1: "[PlaylistItem (cps ''v1'') (cps ''Episode 1'')] =
      filter (\<lambda>item. keeps_title ascii_library JNull None (item_title item))
        [PlaylistItem (cps ''v1'') (cps ''Episode 1'')]"
    by (simp add: keeps_episodes)
  have s1: "get_video_stats hidden_world ascii_library
      (map item_id [PlaylistItem (cps ''v1'') (cps ''Episode 1'')])
      (send (PlaylistItemsGet (cps ''PL1'') []) start_state) =
      (Inr [cps ''v1'' \<mapsto> None],
       send (VideosGet [cps ''v1'']) (send (PlaylistItemsGet (cps ''PL1'') []) start_state))"
    using hidden_stats by simp
  have e1: "samples_of [cps ''v1'' \<mapsto> None] [PlaylistItem (cps ''v1'') (cps ''Episode 1'')] = []"
    by (simp add: samples_of_def stats_get_def)
  note h = process_anime_average[OF example_playlist_id(4,1,2) hidden_playlist
      example_playlist_id(3) v1 _ s1 q]
  have a: "\<exists>r. process_anime hidden_world ascii_library start_state example_anime =
          Some (Inr (Some r),
                send (VideosGet [cps ''v1''])
                  (send (PlaylistItemsGet (cps ''PL1'') []) start_state))
        \<and> avg r = VStr dashes \<and> total' r = VStr dashes \<and> first r = VStr dashes
        \<and> valid_count r = VInt 0"
    using h e1 by simp
  let ?vs = "[PlaylistItem (cps ''v1'') (cps ''Episode 1''),
             PlaylistItem (cps ''v2'') (cps ''Episode 2''),
             PlaylistItem (cps ''v3'') (cps ''Episode 3'')]"
  let ?m = "[cps ''v1'' \<mapsto> Some 100, cps ''v2'' \<mapsto> Some 200, cps ''v3'' \<mapsto> Some (300::int)]"
  have v3: "?vs = filter (\<lambda>item. keeps_title ascii_library JNull None (item_title item)) ?vs"
    by (simp add: keeps_episodes)
  have s3: "get_video_stats views_world ascii_library (map item_id ?vs)
      (send (PlaylistItemsGet (cps ''PL1'') []) start_state) =
      (Inr ?m, send (VideosGet [cps ''v1'', cps ''v2'', cps ''v3''])
        (send (PlaylistItemsGet (cps ''PL1'') []) start_state))"
    using views_stats by simp
  have e3: "samples_of ?m ?vs = [100, 200, 300]"
    by (simp add: samples_of_def stats_get_def cps_def)
  note w = process_anime_average[OF example_playlist_id(4,1,2) views_playlist
      example_playlist_id(3) v3 _ s3 q]
  have b: "\<exists>r. process_anime views_world ascii_library start_state example_anime =
          Some (Inr (Some r),
                send (VideosGet [cps ''v1'', cps ''v2'', cps ''v3''])
                  (send (PlaylistItemsGet (cps ''PL1'') []) start_state))
        \<and> total' r = VInt 600 \<and> avg r = VInt 200 \<and> valid_count r = VInt 3"
    using w e3 by simp
  from a b show ?thesis by blast
qed

text \<open>
  A series whose only surviving item has a hidden view count: one item survives the
  filter, and the \<open>valid_count\<close> of the aggregate is 0.
\<close>

theorem process_anime_average_counterexample:
  "process_anime hidden_world ascii_library start_state example_anime =
     Some (Inr (Some default_result),
           send (VideosGet [cps ''v1''])
             (send (PlaylistItemsGet (cps ''PL1'') []) start_state))
   \<and> valid_count default_result = VInt 0
   \<and> length (filter (\<lambda>item. keeps_title ascii_library JNull None (item_title item))
               [PlaylistItem (cps ''v1'') (cps ''Episode 1'')]) = 1"
proof -
  have q: "\<not> quota_exceeded (send (VideosGet [cps ''v1''])
      (send (PlaylistItemsGet (cps ''PL1'') []) start_state))"
    by (simp add: send_def start_state_def)
  have v1: "[PlaylistItem (cps ''v1'') (cps ''Episode 1'')] =
      filter (\<lambda>item. keeps_title ascii_library JNull None (item_title item))
        [PlaylistItem (cps ''v1'') (cps ''Episode 1'')]"
    by (simp add: keeps_episodes)
  have s1: "get_video_stats hidden_world ascii_library
      (map item_id [PlaylistItem (cps ''v1'') (cps ''Episode 1'')])
      (send (PlaylistItemsGet (cps ''PL1'') []) start_state) =
      (Inr [cps ''v1'' \<mapsto> None],
       send (VideosGet [cps ''v1'']) (send (PlaylistItemsGet (cps ''PL1'') []) start_state))"
    using hidden_stats by simp
  have e1: "samples_of [cps ''v1'' \<mapsto> None] [PlaylistItem (cps ''v1'') (cps ''Episode 1'')] = []"
    by (simp add: samples_of_def stats_get_def)
  have "process_anime hidden_world ascii_library start_state example_anime =
     Some (Inr (Some default_result),
           send (VideosGet [cps ''v1''])
             (send (PlaylistItemsGet (cps ''PL1'') []) start_state))"
    using process_anime_summarise[OF example_playlist_id(4,1,2) hidden_playlist
      example_playlist_id(3) v1 _ s1 q]
    by (simp add: summarise_eq e1)
  then show ?thesis
    by (simp add: default_result_def keeps_episodes)
qed

text \<open>
  The bound on the total is there because the source divides with \<open>/\<close>, in binary64,
  before \<open>int\<close>: for the total \<open>5 \<sqdot> 2\<^sup>5\<^sup>2 - 1\<close> over five samples the quotient rounds up to
  \<open>2\<^sup>5\<^sup>2\<close>, one more than the floor.
\<close>

lemma truediv_beyond_53_bits:
  "(case py_truediv (5 * 2 ^ 52 - 1) 5 of Inl e \<Rightarrow> Inl e | Inr ratio \<Rightarrow> py_int_of_float ratio)
     = Inr 4503599627370496"
  "(5 * 2 ^ 52 - 1) div (5::int) = 4503599627370495"
  by (simp_all add: py_truediv_def py_int_of_float_def nearest_double_def floor_log2_quot_def
      round_half_even_def compute_floorlog Let_def)

section \<open>A video missing from the statistics response\<close>

text \<open>
  Claim C10, as amended. Let no response of the statistics provider list the video id
  \<open>vid\<close>. Then the fetched statistics have no entry for it, and the aggregate is the one
  computed with the sample recorded as hidden (\<open>None\<close>): the id contributes no sample, so
  nothing to the total, the average or their denominator. When some surviving item has a
  real sample, the item still counts in \<open>valid_count\<close>, which is the number of surviving
  items, and when it is first in episode order the first-episode value is the hidden
  marker. (When no surviving item has a real sample, \<open>valid_count\<close> is 0, as for hidden
  samples; the claim as stated lets the item count there too.)
\<close>

theorem omitted_sample_is_hidden:
  assumes "get_video_stats W L video_ids st1 = (Inr stats, st2)"
    and "\<forall>n ids code doc. videos_api W n ids = Response code (Some doc)
         \<longrightarrow> vid \<notin> video_id ` set (video_entries doc)"
  shows "summarise L valid_videos stats = summarise L valid_videos (stats(vid \<mapsto> None))
       \<and> samples_of stats valid_videos
           = samples_of stats (filter (\<lambda>v. item_id v \<noteq> vid) valid_videos)
       \<and> (samples_of stats valid_videos \<noteq> [] \<longrightarrow>
            (\<forall>r. summarise L valid_videos stats = Inr r \<longrightarrow>
                 valid_count r = VInt (int (length valid_videos))
               \<and> total' r = VInt (sum_list (samples_of stats
                                   (filter (\<lambda>v. item_id v \<noteq> vid) valid_videos)))
               \<and> (item_id (hd (py_sorted (episode_sort_key L) valid_videos)) = vid
                    \<longrightarrow> first r = VStr dashes)))"
proof -
  have none: "stats vid = None" by (rule get_video_stats_omits[OF assms])
  have 1: "summarise L valid_videos stats = summarise L valid_videos (stats(vid \<mapsto> None))"
    using stats_get_hidden[of stats vid, OF none] by (intro summarise_cong) simp
  have 2: "samples_of stats valid_videos
      = samples_of stats (filter (\<lambda>v. item_id v \<noteq> vid) valid_videos)"
    using none by (rule samples_of_omitted[of stats vid])
  have 3: "samples_of stats valid_videos \<noteq> [] \<longrightarrow>
      (\<forall>r. summarise L valid_videos stats = Inr r \<longrightarrow>
           valid_count r = VInt (int (length valid_videos))
         \<and> total' r = VInt (sum_list (samples_of stats
                             (filter (\<lambda>v. item_id v \<noteq> vid) valid_videos)))
         \<and> (item_id (hd (py_sorted (episode_sort_key L) valid_videos)) = vid
              \<longrightarrow> first r = VStr dashes))"
  proof (intro impI allI)
    fix r
    assume ne: "samples_of stats valid_videos \<noteq> []" and r: "summarise L valid_videos stats = Inr r"
    have g: "stats_get stats vid = None" using none by (simp add: stats_get_def)
    from r ne g show "valid_count r = VInt (int (length valid_videos))
         \<and> total' r = VInt (sum_list (samples_of stats
                             (filter (\<lambda>v. item_id v \<noteq> vid) valid_videos)))
         \<and> (item_id (hd (py_sorted (episode_sort_key L) valid_videos)) = vid
              \<longrightarrow> first r = VStr dashes)"
      unfolding summarise_eq 2[symmetric]
      by (auto split: sum.splits)
  qed
  from 1 2 3 show ?thesis by blast
qed

text \<open>
  Two episodes, the first missing from the response and the second with 50 views:
  \<open>valid_count\<close> 2, total 50, first-episode value hidden, and the same aggregate as with
  the first recorded as hidden.
\<close>

theorem omitted_sample_is_hidden_witness:
  "(\<exists>r. summarise ascii_library
          [PlaylistItem (cps ''v1'') (cps ''Episode 1''), PlaylistItem (cps ''v2'') (cps ''Episode 2'')]
          [cps ''v2'' \<mapsto> Some 50] = Inr r
        \<and> valid_count r = VInt 2 \<and> total' r = VInt 50 \<and> first r = VStr dashes)
   \<and> summarise ascii_library
          [PlaylistItem (cps ''v1'') (cps ''Episode 1''), PlaylistItem (cps ''v2'') (cps ''Episode 2'')]
          [cps ''v2'' \<mapsto> Some 50]
       = summarise ascii_library
          [PlaylistItem (cps ''v1'') (cps ''Episode 1''), PlaylistItem (cps ''v2'') (cps ''Episode 2'')]
          [cps ''v2'' \<mapsto> Some 50, cps ''v1'' \<mapsto> None]"
proof -
  let ?vs = "[PlaylistItem (cps ''v1'') (cps ''Episode 1''),
              PlaylistItem (cps ''v2'') (cps ''Episode 2'')]"
  let ?m = "[cps ''v2'' \<mapsto> Some (50::int)]"
  have omit: "\<forall>n ids code doc.
      videos_api partly_omitted_world n ids = Response code (Some doc)
        \<longrightarrow> cps ''v1'' \<notin> video_id ` set (video_entries doc)"
    by (auto simp: partly_omitted_world_def fixed_world_def cps_def)
  note t = omitted_sample_is_hidden[where valid_videos = ?vs, OF partly_omitted_stats omit]
  have samples: "samples_of ?m ?vs = [50]"
    by (simp add: samples_of_def stats_get_def cps_def)
  have sorted: "py_sorted (episode_sort_key ascii_library) ?vs = ?vs"
    by (simp add: py_sorted_def episode_keys num_lt_def num_le_def as_float_def)
  have d: "(case py_truediv 50 1 of Inl e \<Rightarrow> Inl e | Inr ratio \<Rightarrow> py_int_of_float ratio)
      = Inr 50"
    using int_of_truediv[of 50 1] by simp
  obtain r where r: "summarise ascii_library ?vs ?m = Inr r"
    using d by (simp add: summarise_eq samples)
  have hd: "item_id (hd (py_sorted (episode_sort_key ascii_library) ?vs)) = cps ''v1''"
    by (simp add: sorted)
  have ne: "samples_of ?m ?vs \<noteq> []" by (simp add: samples)
  note t1 = t[THEN conjunct1] and t2 = t[THEN conjunct2, THEN conjunct1]
    and t3 = t[THEN conjunct2, THEN conjunct2, rule_format, OF ne r]
  from t3 have "valid_count r = VInt (int (length ?vs))"
    and "total' r = VInt (sum_list (samples_of ?m ?vs))"
    and "first r = VStr dashes"
    unfolding t2[symmetric] using hd by blast+
  then have "valid_count r = VInt 2 \<and> total' r = VInt 50 \<and> first r = VStr dashes"
    by (simp add: samples)
  with r have "\<exists>r. summarise ascii_library ?vs ?m = Inr r
      \<and> valid_count r = VInt 2 \<and> total' r = VInt 50 \<and> first r = VStr dashes"
    by blast
  with t1 show ?thesis by simp
qed

text \<open>
  A series whose only video is missing from the response: the item survives the filter,
  and the aggregate is the default one, with \<open>valid_count\<close> 0.
\<close>

theorem omitted_sample_counterexample:
  "process_anime omitted_world ascii_library start_state example_anime =
     Some (Inr (Some default_result),
           send (VideosGet [cps ''v1''])
             (send (PlaylistItemsGet (cps ''PL1'') []) start_state))
   \<and> valid_count default_result = VInt 0
   \<and> videos_api omitted_world 1 [cps ''v1''] = Response 200 (Some (VideosDoc [] []))
   \<and> filter (\<lambda>item. keeps_title ascii_library JNull None (item_title item))
        [PlaylistItem (cps ''v1'') (cps ''Episode 1'')]
       = [PlaylistItem (cps ''v1'') (cps ''Episode 1'')]"
proof -
  have q: "\<not> quota_exceeded (send (VideosGet [cps ''v1''])
      (send (PlaylistItemsGet (cps ''PL1'') []) start_state))"
    by (simp add: send_def start_state_def)
  have v1: "[PlaylistItem (cps ''v1'') (cps ''Episode 1'')] =
      filter (\<lambda>item. keeps_title ascii_library JNull None (item_title item))
        [PlaylistItem (cps ''v1'') (cps ''Episode 1'')]"
    by (simp add: keeps_episodes)
  have s1: "get_video_stats omitted_world ascii_library
      (map item_id [PlaylistItem (cps ''v1'') (cps ''Episode 1'')])
      (send (PlaylistItemsGet (cps ''PL1'') []) start_state) =
      (Inr Map.empty,
       send (VideosGet [cps ''v1'']) (send (PlaylistItemsGet (cps ''PL1'') []) start_state))"
    using omitted_stats by simp
  have e1: "samples_of Map.empty [PlaylistItem (cps ''v1'') (cps ''Episode 1'')] = []"
    by (simp add: samples_of_def stats_get_def)
  have "process_anime omitted_world ascii_library start_state example_anime =
     Some (Inr (Some default_result),
           send (VideosGet [cps ''v1''])
             (send (PlaylistItemsGet (cps ''PL1'') []) start_state))"
    using process_anime_summarise[OF example_playlist_id(4,1,2) omitted_playlist
      example_playlist_id(3) v1 _ s1 q]
    by (simp add: summarise_eq e1)
  then show ?thesis
    by (simp add: default_result_def omitted_world_def fixed_world_def keeps_episodes)
qed

lemma quiet_unfold:
  "quiet st st' \<Longrightarrow>
     (\<exists>new. sent st' = sent st @ new
        \<and> (\<forall>entry \<in> set new. fst entry \<longrightarrow>
              (\<forall>playlist_id token. snd entry \<noteq> PlaylistItemsGet playlist_id token)
              \<and> (\<forall>ids. snd entry \<noteq> VideosGet ids)))
     \<and> (quota_exceeded st \<longrightarrow> quota_exceeded st')"
  unfolding quiet_def is_fetch_def by (auto split: request.splits)

text \<open>
  Claim C3. Each entry of the log carries the value that the flag had when the request was
  sent. Whatever call takes the processor from a state \<open>st\<close> to a state \<open>st'\<close>
  (\<open>get_playlist_items\<close>, \<open>get_video_stats\<close>, \<open>process_anime\<close>, \<open>process_single_sheet\<close> or a
  whole run of \<open>main\<close>), the log has only grown, no playlist request and no statistics
  request among the new entries was sent with the flag up, and a flag that was up is still
  up. In a state with the flag up, \<open>get_playlist_items\<close> returns \<open>None\<close>, \<open>get_video_stats\<close>
  the empty dictionary and \<open>process_anime\<close> \<open>None\<close>, each leaving the state as it was;
  \<open>process_single_sheet\<close> returns after reading the sheet, and \<open>main\<close> comes to its end.
\<close>

theorem quota_exceeded_stops_fetching:
  "(get_playlist_items W playlist_id st = Some (r1, st')
      \<or> get_video_stats W L video_ids st = (r2, st')
      \<or> process_anime W L st anime_item = Some (r3, st')
      \<or> process_single_sheet W L ss_id sheet_name st = Some (r4, st')
      \<or> main W L spreadsheet_ids st = Some st'
    \<longrightarrow> (\<exists>new. sent st' = sent st @ new
           \<and> (\<forall>entry \<in> set new. fst entry \<longrightarrow>
                 (\<forall>playlist_id token. snd entry \<noteq> PlaylistItemsGet playlist_id token)
                 \<and> (\<forall>ids. snd entry \<noteq> VideosGet ids)))
        \<and> (quota_exceeded st \<longrightarrow> quota_exceeded st'))
   \<and> (quota_exceeded st \<longrightarrow>
         get_playlist_items W playlist_id st = Some (Inr QuotaNone, st)
       \<and> get_video_stats W L video_ids st = (Inr Map.empty, st)
       \<and> process_anime W L st anime_item = Some (Inr None, st)
       \<and> process_single_sheet W L ss_id sheet_name st
           = Some (Inr (), send (GasPost ss_id (GetSheetData sheet_name)) st)
       \<and> (\<exists>end_state. main W L spreadsheet_ids st = Some end_state))"
proof (rule conjI; rule impI)
  assume "get_playlist_items W playlist_id st = Some (r1, st')
      \<or> get_video_stats W L video_ids st = (r2, st')
      \<or> process_anime W L st anime_item = Some (r3, st')
      \<or> process_single_sheet W L ss_id sheet_name st = Some (r4, st')
      \<or> main W L spreadsheet_ids st = Some st'"
  then have "quiet st st'"
    by (elim disjE)
       (erule get_playlist_items_quiet get_video_stats_quiet process_anime_quiet
          process_single_sheet_quiet main_quiet)+
  then show "(\<exists>new. sent st' = sent st @ new
           \<and> (\<forall>entry \<in> set new. fst entry \<longrightarrow>
                 (\<forall>playlist_id token. snd entry \<noteq> PlaylistItemsGet playlist_id token)
                 \<and> (\<forall>ids. snd entry \<noteq> VideosGet ids)))
        \<and> (quota_exceeded st \<longrightarrow> quota_exceeded st')"
    by (rule quiet_unfold)
next
  assume q: "quota_exceeded st"
  have "get_playlist_items W playlist_id st = Some (Inr QuotaNone, st)"
    using q by (simp add: get_playlist_items_def)
  moreover have "get_video_stats W L video_ids st = (Inr Map.empty, st)"
    using q by (simp add: get_video_stats_def)
  moreover have "process_anime W L st anime_item = Some (Inr None, st)"
    using q by (simp add: process_anime_def)
  moreover have "process_single_sheet W L ss_id sheet_name st
      = Some (Inr (), send (GasPost ss_id (GetSheetData sheet_name)) st)"
    using q by (rule process_single_sheet_quota)
  moreover have "\<exists>end_state. main W L spreadsheet_ids st = Some end_state"
    using q by (rule main_quota)
  ultimately show "get_playlist_items W playlist_id st = Some (Inr QuotaNone, st)
       \<and> get_video_stats W L video_ids st = (Inr Map.empty, st)
       \<and> process_anime W L st anime_item = Some (Inr None, st)
       \<and> process_single_sheet W L ss_id sheet_name st
           = Some (Inr (), send (GasPost ss_id (GetSheetData sheet_name)) st)
       \<and> (\<exists>end_state. main W L spreadsheet_ids st = Some end_state)"
    by (intro conjI)
qed

text \<open>
  The run that exhausts the quota at its first statistics request: the second row of the
  region and the second spreadsheet cause no request to the video platform, the two
  requests sent with the flag up are the schedule of the second spreadsheet and the
  Telegram message, and in the state at the end every fetch returns at once.
\<close>

theorem quota_exceeded_stops_fetching_witness:
  "main quota_world ascii_library [cps ''X'', cps ''Y''] start_state = Some quota_run_end
   \<and> quota_exceeded quota_run_end
   \<and> map snd (filter fst (sent quota_run_end))
       = [GasPost (cps ''Y'') GetSchedule, TelegramPost (RunError QuotaFull)]
   \<and> filter (\<lambda>entry. fst entry \<and> is_fetch (snd entry)) (sent quota_run_end) = []
   \<and> process_anime quota_world ascii_library quota_run_end example_anime
       = Some (Inr None, quota_run_end)
   \<and> get_playlist_items quota_world (cps ''PL1'') quota_run_end
       = Some (Inr QuotaNone, quota_run_end)
   \<and> get_video_stats quota_world ascii_library [cps ''v1''] quota_run_end
       = (Inr Map.empty, quota_run_end)"
proof -
  have m: "main quota_world ascii_library [cps ''X'', cps ''Y''] start_state = Some quota_run_end"
    by (rule quota_world_main)
  have q: "quota_exceeded quota_run_end" by (simp add: quota_run_end_def)
  have s: "sent start_state = []" by (simp add: start_state_def)
  have l: "map snd (filter fst (sent quota_run_end))
      = [GasPost (cps ''Y'') GetSchedule, TelegramPost (RunError QuotaFull)]"
    by (simp add: quota_run_end_def)
  from quota_exceeded_stops_fetching[of quota_world "cps ''PL1''" start_state _ quota_run_end
      ascii_library "[cps ''v1'']" _ example_anime _ "cps ''X''" "cps ''S''" _
      "[cps ''X'', cps ''Y'']"] m
  have "\<forall>entry \<in> set (sent quota_run_end). fst entry \<longrightarrow>
           (\<forall>playlist_id token. snd entry \<noteq> PlaylistItemsGet playlist_id token)
           \<and> (\<forall>ids. snd entry \<noteq> VideosGet ids)"
    unfolding s by auto
  then have "\<forall>entry \<in> set (sent quota_run_end). \<not> (fst entry \<and> is_fetch (snd entry))"
    unfolding is_fetch_def by (auto split: request.splits)
  then have f: "filter (\<lambda>entry. fst entry \<and> is_fetch (snd entry)) (sent quota_run_end) = []"
    by (simp add: filter_empty_conv)
  from quota_exceeded_stops_fetching[of quota_world "cps ''PL1''" quota_run_end _ _
      ascii_library "[cps ''v1'']" _ example_anime _ "cps ''X''" "cps ''S''" _
      "[cps ''X'', cps ''Y'']"] q
  have "process_anime quota_world ascii_library quota_run_end example_anime
            = Some (Inr None, quota_run_end)"
    and "get_playlist_items quota_world (cps ''PL1'') quota_run_end
            = Some (Inr QuotaNone, quota_run_end)"
    and "get_video_stats quota_world ascii_library [cps ''v1''] quota_run_end
            = (Inr Map.empty, quota_run_end)"
    by blast+
  with m q l f show ?thesis by (intro conjI)
qed

section \<open>A playlist that was taken down\<close>

lemma removed_not_int: "\<not> is_int (avg removed_result)" "\<not> is_int (valid_count removed_result)"
  by (simp_all add: removed_result_def is_int_def)

lemma removed_playlist:
  "get_playlist_items removed_world (cps ''PL1'') start_state =
     Some (Inr Removed, send (PlaylistItemsGet (cps ''PL1'') []) start_state)"
  unfolding get_playlist_items_def
  by (subst playlist_loop.simps) (simp add: removed_world_def world_eval)

text \<open>
  Claim C2, as amended. When the playlist fetch of a series answers \<open>REMOVED\<close>,
  \<open>process_anime\<close> returns the result whose every field is the delisted marker. The series
  takes no part in the ranking of its region (its average is not an int) and adds nothing
  to the sums behind the comprehensive ranking. Of its cells, the average, total and
  first-episode cells that are configured are set to the marker; the rank cell holds what
  the rank table gives for the row, the empty string when the row has no rank; and the
  episode-count cell is not written, because comparing the marker with a number raises
  and the exception is passed over.
\<close>

theorem removed_series_cells:
  assumes "\<not> quota_exceeded st"
    and "get_playlist_id L (link_url anime_item) = Some playlist_id" and "playlist_id \<noteq> []"
    and "get_playlist_items W playlist_id st = Some (Inr Removed, st1)"
  shows "process_anime W L st anime_item = Some (Inr (Some removed_result), st1)
       \<and> \<not> has_int_avg (anime_item, row, Some removed_result)
       \<and> (row_idx L anime_item = Some row \<longrightarrow>
            read_region W L (anime_item # animes) st (region_results, sum_map, cell_map) =
            read_region W L animes st1
              (region_results @ [(anime_item, row, Some removed_result)], sum_map,
               (case comp_rank_cell anime_item of
                  None \<Rightarrow> cell_map
                | Some c \<Rightarrow> if c = [] then cell_map else AList.update row c cell_map)))
       \<and> plan_region ranks ((anime_item, row, Some removed_result) # rest)
             (updates_batch, row_max_ep_map) =
           plan_region ranks rest
             (add_row anime_item row
                (rank_updates ranks (anime_item, row, Some removed_result)
                   @ view_updates anime_item removed_result)
                updates_batch,
              row_max_ep_map)
       \<and> view_updates anime_item removed_result =
           (if avg_view_cell anime_item \<noteq> []
            then [CellUpdate (avg_view_cell anime_item) (VStr delisted)] else [])
           @ (if total_view_cell anime_item \<noteq> []
              then [CellUpdate (total_view_cell anime_item) (VStr delisted)] else [])
           @ (if first_view_cell anime_item \<noteq> []
              then [CellUpdate (first_view_cell anime_item) (VStr delisted)] else [])
       \<and> rank_updates ranks (anime_item, row, Some removed_result) =
           (if rank_cell anime_item \<noteq> []
            then [CellUpdate (rank_cell anime_item)
                    (case ranks row of Some r \<Rightarrow> VInt r | None \<Rightarrow> VStr [])]
            else [])"
proof -
  have p: "process_anime W L st anime_item = Some (Inr (Some removed_result), st1)"
    using assms by (simp add: process_anime_def split: prod.splits)
  have r: "row_idx L anime_item = Some row \<longrightarrow>
      read_region W L (anime_item # animes) st (region_results, sum_map, cell_map) =
      read_region W L animes st1
        (region_results @ [(anime_item, row, Some removed_result)], sum_map,
         (case comp_rank_cell anime_item of
            None \<Rightarrow> cell_map
          | Some c \<Rightarrow> if c = [] then cell_map else AList.update row c cell_map))"
    using assms(1) p by (simp add: Let_def removed_not_int)
  have e: "ep_count_updates anime_item row removed_result row_max_ep_map = ([], row_max_ep_map)"
    by (simp add: ep_count_updates_def removed_result_def Let_def)
  have h: "\<not> has_int_avg (anime_item, row, Some removed_result)"
    by (simp add: has_int_avg_def removed_not_int)
  have pl: "plan_region ranks ((anime_item, row, Some removed_result) # rest)
             (updates_batch, row_max_ep_map) =
           plan_region ranks rest
             (add_row anime_item row
                (rank_updates ranks (anime_item, row, Some removed_result)
                   @ view_updates anime_item removed_result)
                updates_batch,
              row_max_ep_map)"
    by (simp add: e)
  have vu: "view_updates anime_item removed_result =
           (if avg_view_cell anime_item \<noteq> []
            then [CellUpdate (avg_view_cell anime_item) (VStr delisted)] else [])
           @ (if total_view_cell anime_item \<noteq> []
              then [CellUpdate (total_view_cell anime_item) (VStr delisted)] else [])
           @ (if first_view_cell anime_item \<noteq> []
              then [CellUpdate (first_view_cell anime_item) (VStr delisted)] else [])"
    by (simp add: view_updates_def removed_result_def)
  have ru: "rank_updates ranks (anime_item, row, Some removed_result) =
           (if rank_cell anime_item \<noteq> []
            then [CellUpdate (rank_cell anime_item)
                    (case ranks row of Some r \<Rightarrow> VInt r | None \<Rightarrow> VStr [])]
            else [])"
    by (simp add: rank_updates_def)
  from p h r pl vu ru show ?thesis by (intro conjI) assumption+
qed

text \<open>A playlist answered with 404, for a row with every cell configured.\<close>

theorem removed_series_cells_witness:
  "process_anime removed_world ascii_library start_state example_anime =
     Some (Inr (Some removed_result), send (PlaylistItemsGet (cps ''PL1'') []) start_state)
   \<and> view_updates example_anime removed_result =
       [CellUpdate (cps ''C2'') (VStr delisted), CellUpdate (cps ''D2'') (VStr delisted),
        CellUpdate (cps ''E2'') (VStr delisted)]
   \<and> read_region removed_world ascii_library [example_anime] start_state ([], [], []) =
       Some (Inr (Some ([(example_anime, 2, Some removed_result)], [], [])),
             send (PlaylistItemsGet (cps ''PL1'') []) start_state)"
proof -
  note t = removed_series_cells[OF example_playlist_id(4,1,2) removed_playlist,
      where row = 2 and animes = "[]" and region_results = "[]" and sum_map = "[]"
        and cell_map = "[]"]
  have c: "avg_view_cell example_anime = cps ''C2''" "total_view_cell example_anime = cps ''D2''"
    "first_view_cell example_anime = cps ''E2''" "cps ''C2'' \<noteq> []" "cps ''D2'' \<noteq> []"
    "cps ''E2'' \<noteq> []" "comp_rank_cell example_anime = None"
    by (simp_all add: example_anime_def cps_def)
  have r: "read_region removed_world ascii_library [example_anime] start_state ([], [], []) =
       Some (Inr (Some ([(example_anime, 2, Some removed_result)], [], [])),
             send (PlaylistItemsGet (cps ''PL1'') []) start_state)"
    using t example_row example_playlist_id(4) c(7) by (simp add: Let_def removed_not_int)
  from t r c show ?thesis by simp
qed

text \<open>
  The same row, alone in its region: the rank cell \<open>B2\<close> is written with the empty
  string, not the marker, and the episode-count cell \<open>F2\<close> is not written at all.
\<close>

theorem removed_series_counterexample:
  "process_anime removed_world ascii_library start_state example_anime =
     Some (Inr (Some removed_result), send (PlaylistItemsGet (cps ''PL1'') []) start_state)
   \<and> rank_cell example_anime = cps ''B2'' \<and> ep_count_cell example_anime = cps ''F2''
   \<and> plan_region (rank_map [(example_anime, 2, Some removed_result)])
        [(example_anime, 2, Some removed_result)] ([], Map.empty) =
       ([\<lparr> row_check_name = cps ''Show'', target_row = 2,
           updates = [CellUpdate (cps ''B2'') (VStr []),
                      CellUpdate (cps ''C2'') (VStr delisted),
                      CellUpdate (cps ''D2'') (VStr delisted),
                      CellUpdate (cps ''E2'') (VStr delisted)] \<rparr>],
        Map.empty)"
proof -
  have p: "process_anime removed_world ascii_library start_state example_anime =
     Some (Inr (Some removed_result), send (PlaylistItemsGet (cps ''PL1'') []) start_state)"
    using example_playlist_id removed_playlist by (simp add: process_anime_def)
  have rm: "rank_map [(example_anime, 2, Some removed_result)] = Map.empty"
    by (simp add: rank_map_def valid_for_ranking_def has_int_avg_def removed_not_int)
  have e: "ep_count_updates example_anime 2 removed_result Map.empty = ([], Map.empty)"
    by (simp add: ep_count_updates_def removed_result_def Let_def)
  have "plan_region Map.empty [(example_anime, 2, Some removed_result)] ([], Map.empty) =
      (add_row example_anime 2
         (rank_updates Map.empty (example_anime, 2, Some removed_result)
            @ view_updates example_anime removed_result) [], Map.empty)"
    by (simp add: e)
  then have "plan_region Map.empty [(example_anime, 2, Some removed_result)] ([], Map.empty) =
       ([\<lparr> row_check_name = cps ''Show'', target_row = 2,
           updates = [CellUpdate (cps ''B2'') (VStr []),
                      CellUpdate (cps ''C2'') (VStr delisted),
                      CellUpdate (cps ''D2'') (VStr delisted),
                      CellUpdate (cps ''E2'') (VStr delisted)] \<rparr>],
        Map.empty)"
    by (simp add: add_row_def rank_updates_def view_updates_def removed_result_def
        example_anime_def cps_def)
  with p rm show ?thesis by (simp add: example_anime_def)
qed

section \<open>Ranking within a region\<close>

lemma number_rows_other: "r \<notin> set rows \<Longrightarrow> number_rows rows i m r = m r"
  by (induction rows arbitrary: i m) auto

lemma number_rows_nth:
  "distinct rows \<Longrightarrow> j < length rows \<Longrightarrow> number_rows rows i m (rows ! j) = Some (i + int j + 1)"
proof (induction rows arbitrary: i m j)
  case Nil
  then show ?case by simp
next
  case (Cons row rows)
  show ?case
  proof (cases j)
    case 0
    then show ?thesis using Cons.prems by (simp add: number_rows_other)
  next
    case (Suc j')
    then have "number_rows rows (i + 1) (m(row \<mapsto> i + 1)) (rows ! j') = Some (i + 1 + int j' + 1)"
      using Cons.prems by (intro Cons.IH) auto
    then show ?thesis using Suc by simp
  qed
qed

lemma number_rows_dom:
  "number_rows rows i m r \<noteq> None \<longleftrightarrow> r \<in> set rows \<or> m r \<noteq> None"
  by (induction rows arbitrary: i m) auto

lemma set_valid_for_ranking:
  "set (valid_for_ranking region_results) = {item \<in> set region_results. has_int_avg item}"
  by (auto simp: valid_for_ranking_def)

lemma distinct_rows_ranked:
  "distinct (map (\<lambda>item. fst (snd item)) region_results) \<Longrightarrow>
     distinct (map (\<lambda>item. fst (snd item)) (valid_for_ranking region_results))"
proof -
  assume d: "distinct (map (\<lambda>item. fst (snd item)) region_results)"
  then have "distinct (map (\<lambda>item. fst (snd item)) (filter has_int_avg region_results))"
    by (rule distinct_map_filter)
  then have "distinct (filter has_int_avg region_results)"
    and "inj_on (\<lambda>item. fst (snd item)) (set (filter has_int_avg region_results))"
    by (simp_all add: distinct_map)
  then show ?thesis
    unfolding valid_for_ranking_def by (simp add: distinct_map)
qed

lemma unranked_row:
  assumes d: "distinct (map (\<lambda>item. fst (snd item)) region_results)"
    and i: "item \<in> set region_results" and n: "\<not> has_int_avg item"
  shows "rank_map region_results (fst (snd item)) = None"
proof -
  have "fst (snd item) \<notin> set (map (\<lambda>item. fst (snd item)) (valid_for_ranking region_results))"
  proof
    assume "fst (snd item) \<in> set (map (\<lambda>item. fst (snd item)) (valid_for_ranking region_results))"
    then obtain other where o: "other \<in> set (valid_for_ranking region_results)"
      and e: "fst (snd other) = fst (snd item)" by auto
    from o have o': "other \<in> set region_results" "has_int_avg other"
      by (simp_all add: set_valid_for_ranking)
    from d have "inj_on (\<lambda>item. fst (snd item)) (set region_results)"
      by (simp add: distinct_map)
    with o'(1) i e have "other = item" by (auto dest: inj_onD)
    with o'(2) n show False by simp
  qed
  then show ?thesis
    unfolding rank_map_def using number_rows_dom[of _ 0 Map.empty] by fastforce
qed

lemma plan_region_Cons:
  "plan_region ranks ((anime, row, stats) # rs) (updates_batch, m) =
     plan_region ranks rs
       (add_row anime row
          (rank_updates ranks (anime, row, stats)
             @ (case stats of None \<Rightarrow> []
                | Some s \<Rightarrow> view_updates anime s @ fst (ep_count_updates anime row s m)))
          updates_batch,
        (case stats of None \<Rightarrow> m | Some s \<Rightarrow> snd (ep_count_updates anime row s m)))"
  by (cases stats) (auto split: prod.splits)

lemma plan_region_keeps:
  "u \<in> set updates_batch \<Longrightarrow> u \<in> set (fst (plan_region ranks rs (updates_batch, m)))"
proof (induction rs arbitrary: updates_batch m)
  case Nil
  then show ?case by simp
next
  case (Cons item rs)
  obtain anime row stats where item: "item = (anime, row, stats)" by (cases item) auto
  have k: "\<And>ups. u \<in> set (add_row anime row ups updates_batch)"
    using Cons.prems by (simp add: add_row_def)
  show ?case
    unfolding item plan_region_Cons by (rule Cons.IH[OF k])
qed

lemma plan_region_emits:
  "item \<in> set rs \<Longrightarrow> rank_updates ranks item \<noteq> [] \<Longrightarrow>
     \<exists>u \<in> set (fst (plan_region ranks rs (updates_batch, m))).
        target_row u = fst (snd item) \<and> row_check_name u = anime_name (fst item)
        \<and> set (rank_updates ranks item) \<subseteq> set (updates u)"
proof (induction rs arbitrary: updates_batch m)
  case Nil
  then show ?case by simp
next
  case (Cons x rs)
  obtain anime row stats where x: "x = (anime, row, stats)" by (cases x) auto
  show ?case
  proof (cases "item = x")
    case True
    define more where "more = (case stats of None \<Rightarrow> []
        | Some s \<Rightarrow> view_updates anime s @ fst (ep_count_updates anime row s m))"
    let ?u = "\<lparr> row_check_name = anime_name anime, target_row = row,
                updates = rank_updates ranks (anime, row, stats) @ more \<rparr>"
    have a: "add_row anime row (rank_updates ranks (anime, row, stats) @ more) updates_batch
        = updates_batch @ [?u]"
      using Cons.prems(2) True x by (simp add: add_row_def)
    have "?u \<in> set (fst (plan_region ranks rs (updates_batch @ [?u],
        (case stats of None \<Rightarrow> m | Some s \<Rightarrow> snd (ep_count_updates anime row s m)))))"
      by (rule plan_region_keeps) simp
    then show ?thesis
      unfolding x plan_region_Cons more_def[symmetric] a using True x
      by (intro bexI[of _ ?u]) auto
  next
    case False
    then have "item \<in> set rs" using Cons.prems(1) by simp
    from Cons.IH[OF this Cons.prems(2)] show ?thesis
      unfolding x plan_region_Cons by blast
  qed
qed

lemma has_int_avg_iff:
  "has_int_avg item \<longleftrightarrow> (\<exists>s a. snd (snd item) = Some s \<and> avg s = VInt a)"
  by (auto simp: has_int_avg_def is_int_def split: option.splits pyval.splits)

lemma avg_of_iff:
  "has_int_avg item \<Longrightarrow> avg_of item = a \<longleftrightarrow> (\<exists>s. snd (snd item) = Some s \<and> avg s = VInt a)"
  by (auto simp: has_int_avg_def avg_of_def is_int_def int_of_def split: option.splits pyval.splits)

lemma ranked_sorted:
  "sorted_wrt (\<lambda>x y. \<exists>sx sy a b. snd (snd x) = Some sx \<and> avg sx = VInt a
                        \<and> snd (snd y) = Some sy \<and> avg sy = VInt b \<and> b \<le> a)
     (valid_for_ranking region_results)"
proof -
  have "sorted (map (\<lambda>item. - avg_of item) (valid_for_ranking region_results))"
    unfolding valid_for_ranking_def by (rule sorted_sort_key)
  then have s: "sorted_wrt (\<lambda>x y. avg_of y \<le> avg_of x) (valid_for_ranking region_results)"
    by (simp add: sorted_map)
  show ?thesis
  proof (rule sorted_wrt_mono_rel[OF _ s])
    fix x y
    assume "x \<in> set (valid_for_ranking region_results)"
      and "y \<in> set (valid_for_ranking region_results)" and le: "avg_of y \<le> avg_of x"
    then have hx: "has_int_avg x" and hy: "has_int_avg y"
      by (simp_all add: set_valid_for_ranking)
    from hx obtain sx where sx: "snd (snd x) = Some sx" "avg sx = VInt (avg_of x)"
      using avg_of_iff[OF hx, of "avg_of x"] by auto
    from hy obtain sy where sy: "snd (snd y) = Some sy" "avg sy = VInt (avg_of y)"
      using avg_of_iff[OF hy, of "avg_of y"] by auto
    from sx sy le
    show "\<exists>sx sy a b. snd (snd x) = Some sx \<and> avg sx = VInt a
            \<and> snd (snd y) = Some sy \<and> avg sy = VInt b \<and> b \<le> a"
      by blast
  qed
qed

lemma ranked_stable:
  "filter (\<lambda>item. \<exists>s. snd (snd item) = Some s \<and> avg s = VInt a)
       (valid_for_ranking region_results)
     = filter (\<lambda>item. \<exists>s. snd (snd item) = Some s \<and> avg s = VInt a) region_results"
proof -
  let ?P = "\<lambda>item. \<exists>s. snd (snd item) = Some s \<and> avg s = VInt a"
  have p: "\<And>item. ?P item \<longleftrightarrow> has_int_avg item \<and> avg_of item = a"
    using avg_of_iff has_int_avg_iff by blast
  have "filter ?P (valid_for_ranking region_results)
      = filter (\<lambda>item. avg_of item = a) (valid_for_ranking region_results)"
    by (rule filter_cong) (simp_all add: p set_valid_for_ranking)
  also have "\<dots> = filter (\<lambda>item. - avg_of item = - a) (valid_for_ranking region_results)"
    by simp
  also have "\<dots> = filter (\<lambda>item. - avg_of item = - a) (filter has_int_avg region_results)"
    unfolding valid_for_ranking_def by (rule sort_key_stable)
  also have "\<dots> = filter (\<lambda>item. has_int_avg item \<and> avg_of item = a) region_results"
    by (simp add: conj_commute)
  also have "\<dots> = filter ?P region_results"
    by (rule filter_cong) (simp_all only: p)
  finally show ?thesis .
qed

lemma example_region_ranked:
  "valid_for_ranking example_region =
     [(row_anime ''A'' ''2'', 2, Some (stats_with_avg 500)),
      (row_anime ''B'' ''3'', 3, Some (stats_with_avg 500)),
      (row_anime ''C'' ''4'', 4, Some (stats_with_avg 300))]"
  by (simp add: valid_for_ranking_def example_region_def has_int_avg_def avg_of_def
      stats_with_avg_def is_int_def int_of_def)

text \<open>
  Claim C4. In a region whose entries stand in pairwise different rows, the ranked list
  holds exactly the entries whose statistics are present with an int under \<open>avg\<close>; going
  down the list these averages never increase; the entries with one and the same average
  stand in the list in their order of input; the entry at position \<open>i\<close> of the list (from
  0) gets rank \<open>i + 1\<close>; and every entry without an int average (its statistics are \<open>None\<close>,
  or the average is a marker) that has a rank cell gets a row in the batch that sets this
  cell to the empty string.
\<close>

theorem region_ranking:
  assumes "distinct (map (\<lambda>item. fst (snd item)) region_results)"
  shows "mset (valid_for_ranking region_results)
           = mset (filter (\<lambda>item. \<exists>s a. snd (snd item) = Some s \<and> avg s = VInt a)
                     region_results)
       \<and> sorted_wrt (\<lambda>x y. \<exists>sx sy a b. snd (snd x) = Some sx \<and> avg sx = VInt a
                              \<and> snd (snd y) = Some sy \<and> avg sy = VInt b \<and> b \<le> a)
           (valid_for_ranking region_results)
       \<and> (\<forall>a. filter (\<lambda>item. \<exists>s. snd (snd item) = Some s \<and> avg s = VInt a)
                 (valid_for_ranking region_results)
               = filter (\<lambda>item. \<exists>s. snd (snd item) = Some s \<and> avg s = VInt a)
                   region_results)
       \<and> (\<forall>i < length (valid_for_ranking region_results).
             rank_map region_results (fst (snd (valid_for_ranking region_results ! i)))
               = Some (int i + 1))
       \<and> (\<forall>item \<in> set region_results.
             \<not> (\<exists>s a. snd (snd item) = Some s \<and> avg s = VInt a)
             \<and> rank_cell (fst item) \<noteq> [] \<longrightarrow>
             (\<exists>u \<in> set (fst (plan_region (rank_map region_results) region_results
                                (updates_batch, row_max_ep_map))).
                 target_row u = fst (snd item)
                 \<and> CellUpdate (rank_cell (fst item)) (VStr []) \<in> set (updates u)))"
proof (intro conjI allI impI ballI)
  have "filter has_int_avg region_results
      = filter (\<lambda>item. \<exists>s a. snd (snd item) = Some s \<and> avg s = VInt a) region_results"
    by (rule filter_cong) (simp_all add: has_int_avg_iff)
  then show "mset (valid_for_ranking region_results)
      = mset (filter (\<lambda>item. \<exists>s a. snd (snd item) = Some s \<and> avg s = VInt a)
                region_results)"
    by (simp add: valid_for_ranking_def)
next
  show "sorted_wrt (\<lambda>x y. \<exists>sx sy a b. snd (snd x) = Some sx \<and> avg sx = VInt a
                              \<and> snd (snd y) = Some sy \<and> avg sy = VInt b \<and> b \<le> a)
           (valid_for_ranking region_results)"
    by (rule ranked_sorted)
next
  fix a
  show "filter (\<lambda>item. \<exists>s. snd (snd item) = Some s \<and> avg s = VInt a)
          (valid_for_ranking region_results)
      = filter (\<lambda>item. \<exists>s. snd (snd item) = Some s \<and> avg s = VInt a) region_results"
    by (rule ranked_stable)
next
  fix i
  assume i: "i < length (valid_for_ranking region_results)"
  let ?rows = "map (\<lambda>item. fst (snd item)) (valid_for_ranking region_results)"
  have "number_rows ?rows 0 Map.empty (?rows ! i) = Some (0 + int i + 1)"
    using distinct_rows_ranked[OF assms] i by (intro number_rows_nth) simp_all
  then show "rank_map region_results (fst (snd (valid_for_ranking region_results ! i)))
      = Some (int i + 1)"
    using i by (simp add: rank_map_def)
next
  fix item
  assume item: "item \<in> set region_results"
    and a: "\<not> (\<exists>s a. snd (snd item) = Some s \<and> avg s = VInt a)
        \<and> rank_cell (fst item) \<noteq> []"
  then have n: "\<not> has_int_avg item" by (simp add: has_int_avg_iff)
  have none: "rank_map region_results (fst (snd item)) = None"
    by (rule unranked_row[OF assms item n])
  have ru: "rank_updates (rank_map region_results) item
      = [CellUpdate (rank_cell (fst item)) (VStr [])]"
    using a none by (cases item) (simp add: rank_updates_def)
  then have "rank_updates (rank_map region_results) item \<noteq> []" by simp
  from plan_region_emits[OF item this, of updates_batch row_max_ep_map]
  show "\<exists>u \<in> set (fst (plan_region (rank_map region_results) region_results
                                (updates_batch, row_max_ep_map))).
      target_row u = fst (snd item)
      \<and> CellUpdate (rank_cell (fst item)) (VStr []) \<in> set (updates u)"
    unfolding ru by auto
qed

text \<open>
  A region given out of order: 300 in row 4, no statistics in row 5, then 500 in row 2 and
  500 in row 3. The ranked list is row 2, row 3, row 4, so the sort moved the two entries
  with 500 before the one with 300 and kept row 2 before row 3; the ranks are 1, 2 and 3,
  and the rank cell of row 5 is cleared.
\<close>

theorem region_ranking_witness:
  "map (\<lambda>item. (fst (snd item), map_option avg (snd (snd item)))) example_region
     = [(4, Some (VInt 300)), (5, None), (2, Some (VInt 500)), (3, Some (VInt 500))]
   \<and> map (\<lambda>item. fst (snd item)) (valid_for_ranking example_region) = [2, 3, 4]
   \<and> rank_map example_region 2 = Some 1 \<and> rank_map example_region 3 = Some 2
   \<and> rank_map example_region 4 = Some 3
   \<and> (\<exists>u \<in> set (fst (plan_region (rank_map example_region) example_region ([], Map.empty))).
         target_row u = 5 \<and> CellUpdate (cps ''B5'') (VStr []) \<in> set (updates u))"
proof -
  have d: "distinct (map (\<lambda>item. fst (snd item)) example_region)"
    by (simp add: example_region_def)
  note t = region_ranking[OF d, of "[]" Map.empty]
  note ranks = t[THEN conjunct2, THEN conjunct2, THEN conjunct2, THEN conjunct1, rule_format]
  note clears = t[THEN conjunct2, THEN conjunct2, THEN conjunct2, THEN conjunct2, rule_format]
  have e: "map (\<lambda>item. (fst (snd item), map_option avg (snd (snd item)))) example_region
      = [(4, Some (VInt 300)), (5, None), (2, Some (VInt 500)), (3, Some (VInt 500))]"
    by (simp add: example_region_def stats_with_avg_def)
  have v: "map (\<lambda>item. fst (snd item)) (valid_for_ranking example_region) = [2, 3, 4]"
    by (simp add: example_region_ranked)
  have r: "rank_map example_region 2 = Some 1" "rank_map example_region 3 = Some 2"
    "rank_map example_region 4 = Some 3"
    using ranks[of 0] ranks[of 1] ranks[of 2] by (simp_all add: example_region_ranked)
  have i: "(row_anime ''D'' ''5'', 5, None) \<in> set example_region"
    by (simp add: example_region_def)
  have n: "\<not> (\<exists>s a. snd (snd (row_anime ''D'' ''5'', 5::int, None :: anime_stats option)) = Some s
                 \<and> avg s = VInt a)
      \<and> rank_cell (fst (row_anime ''D'' ''5'', 5::int, None :: anime_stats option)) \<noteq> []"
    by (simp add: row_anime_def cps_def)
  from clears[OF i n] have "\<exists>u \<in> set (fst (plan_region (rank_map example_region)
      example_region ([], Map.empty))).
      target_row u = 5 \<and> CellUpdate (cps ''B5'') (VStr []) \<in> set (updates u)"
    by (simp add: row_anime_def)
  with e v r show ?thesis by simp
qed
section \<open>The comprehensive ranking\<close>

lemma comp_rank_rows_keeps:
  "u \<in> set updates_batch \<Longrightarrow> u \<in> set (comp_rank_rows ranks names cells updates_batch)"
  by (induction cells arbitrary: updates_batch) (auto split: option.splits)

lemma comp_rank_rows_emits:
  "(row, cell_addr) \<in> set cells \<Longrightarrow> names row = Some name \<Longrightarrow> name \<noteq> [] \<Longrightarrow>
     \<lparr> row_check_name = name, target_row = row,
       updates = [CellUpdate cell_addr (case ranks row of Some r \<Rightarrow> VInt r | None \<Rightarrow> VStr [])] \<rparr>
     \<in> set (comp_rank_rows ranks names cells updates_batch)"
proof (induction cells arbitrary: updates_batch)
  case Nil
  then show ?case by simp
next
  case (Cons c cells)
  obtain r a where c: "c = (r, a)" by (cases c)
  show ?case
  proof (cases "(row, cell_addr) = c")
    case True
    then show ?thesis using Cons.prems c by (simp add: comp_rank_rows_keeps)
  next
    case False
    then have "(row, cell_addr) \<in> set cells" using Cons.prems(1) by simp
    from Cons.IH[OF this Cons.prems(2,3)] show ?thesis
      by (simp add: c split: option.splits)
  qed
qed

lemma global_rank_map_dom:
  "global_rank_map sum_map r \<noteq> None \<longleftrightarrow> (\<exists>v. (r, v) \<in> set sum_map \<and> 0 < v)"
  unfolding global_rank_map_def number_rows_dom valid_global_list_def by force

text \<open>
  Claim C5, as amended. The rows of the comprehensive rank table are exactly the rows whose
  accumulated sum is positive. When the quota flag is down, a row with a comprehensive-rank
  cell that stands in the first region of the sheet with a non-empty name gets a row in the
  batch that writes this cell: its rank, or the empty string when its sum is absent or not
  positive.
\<close>

theorem comprehensive_ranking:
  assumes "\<not> quota_exceeded st"
    and "row_to_name_map L (snd first_region) Map.empty = Inr names"
    and "(row, cell_addr) \<in> set cell_map"
    and "names row = Some name" and "name \<noteq> []"
  shows "(\<forall>r. global_rank_map sum_map r \<noteq> None \<longleftrightarrow> (\<exists>v. (r, v) \<in> set sum_map \<and> 0 < v))
       \<and> (\<exists>batch. comprehensive L (first_region # regions) st
                      (updates_batch, row_max_ep_map, sum_map, cell_map) = Inr batch
             \<and> \<lparr> row_check_name = name, target_row = row,
                   updates = [CellUpdate cell_addr
                                (case global_rank_map sum_map row of
                                   Some r \<Rightarrow> VInt r | None \<Rightarrow> VStr [])] \<rparr> \<in> set batch
             \<and> (\<not> (\<exists>v. (row, v) \<in> set sum_map \<and> 0 < v) \<longrightarrow>
                   \<lparr> row_check_name = name, target_row = row,
                     updates = [CellUpdate cell_addr (VStr [])] \<rparr> \<in> set batch))"
proof -
  have ne: "cell_map \<noteq> []" using assms(3) by auto
  have c: "comprehensive L (first_region # regions) st
      (updates_batch, row_max_ep_map, sum_map, cell_map) =
      Inr (comp_rank_rows (global_rank_map sum_map) names cell_map updates_batch)"
    using assms(1,2) ne by (simp add: comprehensive_def)
  have e: "\<lparr> row_check_name = name, target_row = row,
      updates = [CellUpdate cell_addr
                   (case global_rank_map sum_map row of Some r \<Rightarrow> VInt r | None \<Rightarrow> VStr [])] \<rparr>
      \<in> set (comp_rank_rows (global_rank_map sum_map) names cell_map updates_batch)"
    using assms(3,4,5) by (rule comp_rank_rows_emits[where names = names])
  have n: "\<not> (\<exists>v. (row, v) \<in> set sum_map \<and> 0 < v) \<Longrightarrow> global_rank_map sum_map row = None"
    using global_rank_map_dom[of sum_map row] by blast
  have d: "\<forall>r. global_rank_map sum_map r \<noteq> None \<longleftrightarrow> (\<exists>v. (r, v) \<in> set sum_map \<and> 0 < v)"
    by (simp only: global_rank_map_dom) simp
  have cleared: "\<not> (\<exists>v. (row, v) \<in> set sum_map \<and> 0 < v) \<longrightarrow>
      \<lparr> row_check_name = name, target_row = row,
        updates = [CellUpdate cell_addr (VStr [])] \<rparr>
      \<in> set (comp_rank_rows (global_rank_map sum_map) names cell_map updates_batch)"
  proof
    assume "\<not> (\<exists>v. (row, v) \<in> set sum_map \<and> 0 < v)"
    from n[OF this] e show "\<lparr> row_check_name = name, target_row = row,
        updates = [CellUpdate cell_addr (VStr [])] \<rparr>
      \<in> set (comp_rank_rows (global_rank_map sum_map) names cell_map updates_batch)"
      by simp
  qed
  from c e cleared have "\<exists>batch. comprehensive L (first_region # regions) st
                      (updates_batch, row_max_ep_map, sum_map, cell_map) = Inr batch
             \<and> \<lparr> row_check_name = name, target_row = row,
                   updates = [CellUpdate cell_addr
                                (case global_rank_map sum_map row of
                                   Some r \<Rightarrow> VInt r | None \<Rightarrow> VStr [])] \<rparr> \<in> set batch
             \<and> (\<not> (\<exists>v. (row, v) \<in> set sum_map \<and> 0 < v) \<longrightarrow>
                   \<lparr> row_check_name = name, target_row = row,
                     updates = [CellUpdate cell_addr (VStr [])] \<rparr> \<in> set batch)"
    by blast
  with d show ?thesis by (intro conjI) assumption+
qed


lemma row_anime_rows:
  "row_idx ascii_library (row_anime ''A'' ''2'') = Some 2"
  "row_idx ascii_library (row_anime ''B'' ''3'') = Some 3"
  by (simp_all add: row_idx_def row_anime_def ascii_library_def ascii_int_def ascii_digit_def
      digits_nat_def cps_def)

lemma row_anime_fields:
  "anime_name (row_anime n r) = cps n" "rank_cell (row_anime n r) = cps (''B'' @ r)"
  "comp_rank_cell (row_anime n r) = Some (cps (''H'' @ r))" "link_url (row_anime n r) = None"
  "offset (row_anime n r) = None"
  by (simp_all add: row_anime_def)

text \<open>
  Row 2 of the first region with the sum 500 gets rank 1 in its cell \<open>H2\<close>; without a sum
  the cell is cleared.
\<close>

theorem comprehensive_ranking_witness:
  "(\<exists>batch. comprehensive ascii_library two_region_sheet start_state
               ([], Map.empty, [(2, 500)], [(2, cps ''H2''), (3, cps ''H3'')]) = Inr batch
          \<and> \<lparr> row_check_name = cps ''A'', target_row = 2,
                updates = [CellUpdate (cps ''H2'') (VInt 1)] \<rparr> \<in> set batch)
   \<and> (\<exists>batch. comprehensive ascii_library two_region_sheet start_state
               ([], Map.empty, [], [(2, cps ''H2''), (3, cps ''H3'')]) = Inr batch
          \<and> \<lparr> row_check_name = cps ''A'', target_row = 2,
                updates = [CellUpdate (cps ''H2'') (VStr [])] \<rparr> \<in> set batch)"
proof -
  have q: "\<not> quota_exceeded start_state" by (simp add: start_state_def)
  have names: "row_to_name_map ascii_library (snd (cps ''R1'', [row_anime ''A'' ''2'']))
      Map.empty = Inr [2 \<mapsto> cps ''A'']"
    by (simp add: row_anime_rows row_anime_fields)
  have mem: "(2, cps ''H2'') \<in> set [(2::int, cps ''H2''), (3, cps ''H3'')]" by simp
  have nm: "[2 \<mapsto> cps ''A''] (2::int) = Some (cps ''A'')" "cps ''A'' \<noteq> []"
    by (simp_all add: cps_def)
  have sheet: "two_region_sheet =
      (cps ''R1'', [row_anime ''A'' ''2'']) # [(cps ''R2'', [row_anime ''B'' ''3''])]"
    by (simp add: two_region_sheet_def)
  note t = comprehensive_ranking[where regions = "[(cps ''R2'', [row_anime ''B'' ''3''])]"
      and updates_batch = "[]" and row_max_ep_map = Map.empty, OF q names mem nm, folded sheet]
  have r: "global_rank_map [(2, 500)] 2 = Some 1"
    by (simp add: global_rank_map_def valid_global_list_def)
  have a: "\<exists>batch. comprehensive ascii_library two_region_sheet start_state
               ([], Map.empty, [(2, 500)], [(2, cps ''H2''), (3, cps ''H3'')]) = Inr batch
          \<and> \<lparr> row_check_name = cps ''A'', target_row = 2,
                updates = [CellUpdate (cps ''H2'') (VInt 1)] \<rparr> \<in> set batch"
    using t[where sum_map = "[(2, 500)]"] r by auto
  have b: "\<exists>batch. comprehensive ascii_library two_region_sheet start_state
               ([], Map.empty, [], [(2, cps ''H2''), (3, cps ''H3'')]) = Inr batch
          \<and> \<lparr> row_check_name = cps ''A'', target_row = 2,
                updates = [CellUpdate (cps ''H2'') (VStr [])] \<rparr> \<in> set batch"
    using t[where sum_map = "[]"] by auto
  from a b show ?thesis by blast
qed

lemma no_link: "process_anime W ascii_library start_state (row_anime n r) = Some (Inr None, start_state)"
  by (simp add: process_anime_def row_anime_fields get_playlist_id_def offset_spec_def
      start_state_def)

lemma no_link_sent:
  "process_anime W ascii_library (send x start_state) (row_anime n r)
     = Some (Inr None, send x start_state)"
  by (simp add: process_anime_def row_anime_fields get_playlist_id_def offset_spec_def
      start_state_def send_def)

text \<open>
  A sheet of two regions, row 2 in the first and row 3 only in the second, neither with any
  data. The one batch that is written clears the rank cells \<open>B2\<close> and \<open>B3\<close> and the
  comprehensive-rank cell \<open>H2\<close>; the cell \<open>H3\<close> of row 3, which has no name in the first
  region, is not written at all.
\<close>

theorem comprehensive_ranking_counterexample:
  "process_single_sheet (sheet_world two_region_sheet) ascii_library (cps ''X'') (cps ''S'') start_state =
     Some (Inr (),
       \<lparr> quota_exceeded = False,
         sent = [(False, GasPost (cps ''X'') (GetSheetData (cps ''S''))),
                 (False, GasPost (cps ''X'') (UpdateData (cps ''S'')
                   [\<lparr> row_check_name = cps ''A'', target_row = 2,
                       updates = [CellUpdate (cps ''B2'') (VStr [])] \<rparr>,
                    \<lparr> row_check_name = cps ''B'', target_row = 3,
                       updates = [CellUpdate (cps ''B3'') (VStr [])] \<rparr>,
                    \<lparr> row_check_name = cps ''A'', target_row = 2,
                       updates = [CellUpdate (cps ''H2'') (VStr [])] \<rparr>])),
                 (False, GasPost (cps ''X'') (SortData (cps ''S'')))] \<rparr>)
   \<and> comp_rank_cell (row_anime ''B'' ''3'') = Some (cps ''H3'')"
proof -
  let ?st0 = "send (GasPost (cps ''X'') (GetSheetData (cps ''S''))) start_state"
  let ?a = "row_anime ''A'' ''2''" and ?b = "row_anime ''B'' ''3''"
  have q: "\<not> quota_exceeded ?st0" by (simp add: send_def start_state_def)
  have g: "get_sheet_data (sheet_world two_region_sheet) (cps ''X'') (cps ''S'') start_state
      = (Inr (Some two_region_sheet), ?st0)"
    by (simp add: get_sheet_data_def sheet_world_def call_def)
  have r1: "read_region W ascii_library [?a] ?st0 ([], [], [])
      = Some (Inr (Some ([(?a, 2, None)], [], [(2, cps ''H2'')])), ?st0)" for W
    using q by (simp add: row_anime_rows no_link_sent row_anime_fields cps_def)
  have r2: "read_region W ascii_library [?b] ?st0
      ([], [], [(2, cps ''H2'')])
      = Some (Inr (Some ([(?b, 3, None)], [], [(2, cps ''H2''), (3, cps ''H3'')])), ?st0)" for W
    using q by (simp add: row_anime_rows no_link_sent row_anime_fields cps_def)
  have k: "rank_map [(x, n, None)] = Map.empty" for x n
    by (simp add: rank_map_def valid_for_ranking_def has_int_avg_def)
  have p1: "plan_region Map.empty [(?a, 2, None)] ([], Map.empty)
      = ([\<lparr> row_check_name = cps ''A'', target_row = 2,
             updates = [CellUpdate (cps ''B2'') (VStr [])] \<rparr>], Map.empty)"
    by (simp add: add_row_def rank_updates_def row_anime_fields cps_def)
  have p2: "plan_region Map.empty [(?b, 3, None)]
      ([\<lparr> row_check_name = cps ''A'', target_row = 2,
             updates = [CellUpdate (cps ''B2'') (VStr [])] \<rparr>], Map.empty)
      = ([\<lparr> row_check_name = cps ''A'', target_row = 2,
             updates = [CellUpdate (cps ''B2'') (VStr [])] \<rparr>,
          \<lparr> row_check_name = cps ''B'', target_row = 3,
             updates = [CellUpdate (cps ''B3'') (VStr [])] \<rparr>], Map.empty)"
    by (simp add: add_row_def rank_updates_def row_anime_fields cps_def)
  let ?batch2 = "[\<lparr> row_check_name = cps ''A'', target_row = 2,
             updates = [CellUpdate (cps ''B2'') (VStr [])] \<rparr>,
          \<lparr> row_check_name = cps ''B'', target_row = 3,
             updates = [CellUpdate (cps ''B3'') (VStr [])] \<rparr>]"
  have pr: "process_regions (sheet_world two_region_sheet) ascii_library two_region_sheet ?st0
      ([], Map.empty, [], [])
      = Some (Inr (Some (?batch2, Map.empty, [], [(2, cps ''H2''), (3, cps ''H3'')])), ?st0)"
    unfolding two_region_sheet_def
    by (simp add: r1 r2 k p1 p2 del: read_region.simps plan_region.simps)
  let ?batch3 = "?batch2 @ [\<lparr> row_check_name = cps ''A'', target_row = 2,
             updates = [CellUpdate (cps ''H2'') (VStr [])] \<rparr>]"
  have c: "comprehensive ascii_library two_region_sheet ?st0
      (?batch2, Map.empty, [], [(2, cps ''H2''), (3, cps ''H3'')]) = Inr ?batch3"
    using q by (simp add: comprehensive_def two_region_sheet_def row_anime_rows
        row_anime_fields global_rank_map_def valid_global_list_def cps_def)
  have w: "write_sheet (sheet_world two_region_sheet) (cps ''X'') (cps ''S'') ?batch3 ?st0 =
      \<lparr> quota_exceeded = False,
        sent = [(False, GasPost (cps ''X'') (GetSheetData (cps ''S''))),
                (False, GasPost (cps ''X'') (UpdateData (cps ''S'') ?batch3)),
                (False, GasPost (cps ''X'') (SortData (cps ''S'')))] \<rparr>"
    by (simp add: write_sheet_def batch_update_def sort_data_def call_def sheet_world_def
        send_def start_state_def)
  have ne: "two_region_sheet \<noteq> []" by (simp add: two_region_sheet_def)
  have "process_single_sheet (sheet_world two_region_sheet) ascii_library (cps ''X'') (cps ''S'') start_state
      = Some (Inr (), write_sheet (sheet_world two_region_sheet) (cps ''X'') (cps ''S'') ?batch3 ?st0)"
    by (simp add: process_single_sheet_def g ne pr c)
  then show ?thesis unfolding w by (simp add: row_anime_fields)
qed

section \<open>Errors of the providers\<close>




lemma sheet_read_error_caught:
  assumes "call (sheet_data_api W (length (sent st)) ss_id sheet_name) = Inl e"
  shows "process_single_sheet W L ss_id sheet_name st
       = Some (Inr (), send (GasPost ss_id (GetSheetData sheet_name)) st)"
  using assms by (simp add: process_single_sheet_def get_sheet_data_def)









end
